theory Spec2Isabelle
  imports Main "HOL-Library.Word"
begin

section \<open>Compiler-interrupt pass (src/libci/CompilerInterrupt.cpp)\<close>

text \<open>
  The pass is a single C++ file working on LLVM IR. The embedding keeps the names of the
  source. LLVM objects the pass only inspects are data: a called function is its name, an
  instruction is its kind, a basic block is its list of instructions. Every \<open>assert\<close> and
  every \<open>exit(1)\<close> of the source is a branch that returns an error value. C \<open>long\<close>
  values are mathematical integers; where the source stores one in an \<open>int\<close>, the
  conversion \<open>to_int\<close> is written out.
\<close>

subsection \<open>Errors, configuration, cost expressions\<close>

datatype error =
    AssertFail      \<comment> \<open>an \<open>assert(...)\<close> whose condition is false\<close>
  | Exit1           \<comment> \<open>\<open>exit(1)\<close>\<close>
  | Undefined       \<comment> \<open>a null dereference or another undefined operation\<close>

datatype instrumentationLevel =
    OPTIMIZE_HEURISTIC | OPTIMIZE_HEURISTIC_WITH_TL | NAIVE | NAIVE_TL | LEGACY_HEURISTIC
  | COREDET_HEURISTIC_TL | COREDET_HEURISTIC | LEGACY_ACCURATE | OPTIMIZE_ACCURATE
  | LEGACY_HEURISTIC_TL | NAIVE_ACCURATE | OPTIMIZE_INTERMEDIATE | NAIVE_INTERMEDIATE
  | OPTIMIZE_HEURISTIC_FIBER | OPTIMIZE_HEURISTIC_INTERMEDIATE_FIBER | NAIVE_HEURISTIC_FIBER
  | OPTIMIZE_CYCLES | NAIVE_CYCLES

datatype eClockType = PREDICTIVE | INSTANTANEOUS


text \<open>The command-line options (\<open>cl::opt\<close>) the modelled functions read.\<close>

record config =
  InstGranularity :: instrumentationLevel
  ClockType :: eClockType
  MemOpsCost :: int
  TargetInterval :: int
  TargetIntervalInCycles :: int
  CommitInterval :: int
  ExtLibFuncCost :: int

text \<open>
  \<open>struct InstructionCost\<close>: the tag \<open>_type\<close> with the fields each tag uses. An LLVM
  integer type is its bit width. \<open>NullCost\<close> stands for a null \<open>InstructionCost *\<close> stored
  in an operand vector; a null pointer held in a variable is \<open>None\<close>. The tag
  \<open>CONST\<close> is written \<open>CONST_C\<close>.
\<close>

datatype InstructionCost =
    CONST_C int
  | ARG int
  | UNKNOWN
  | ADD "InstructionCost list"
  | MUL "InstructionCost list"
  | UDIV InstructionCost InstructionCost
  | SMAX "InstructionCost list"
  | SMIN "InstructionCost list"
  | UMAX "InstructionCost list"
  | UMIN "InstructionCost list"
  | ZERO_EXT nat InstructionCost
  | SIGN_EXT nat InstructionCost
  | TRUNC nat InstructionCost
  | ADD_REC_EXPR "InstructionCost list"
  | CALL string "InstructionCost list"
  | NullCost

record FuncInfo =
  hasFence :: bool
  cost :: "InstructionCost option"

text \<open>Conversion of a \<open>long\<close> to \<open>int\<close> (32 bits, two's complement).\<close>

definition to_int :: "int \<Rightarrow> int" where
  "to_int v = sint (word_of_int v :: 32 word)"

definition hasConstCost :: "InstructionCost option \<Rightarrow> int" where
  "hasConstCost fc = (case fc of Some (CONST_C v) \<Rightarrow> v | _ \<Rightarrow> - 1)"

definition getConstCost :: "InstructionCost option \<Rightarrow> error + int" where
  "getConstCost fc =
     (let numCost = (case fc of Some (CONST_C v) \<Rightarrow> v | _ \<Rightarrow> - 1)
      in if numCost \<ge> 0 then Inr numCost else Inl AssertFail)"

definition getConstCostWithoutAssert :: "InstructionCost option \<Rightarrow> int" where
  "getConstCostWithoutAssert fc = (case fc of Some (CONST_C v) \<Rightarrow> v | _ \<Rightarrow> - 1)"

definition getConstantInstCost :: "int \<Rightarrow> InstructionCost" where
  "getConstantInstCost numCost = CONST_C numCost"

subsection \<open>Module-level tables and the per-instruction cost\<close>

text \<open>
  The global tables. Functions are identified by name. \<open>fenceList\<close> and \<open>threadFunc\<close>
  are searched linearly by the source; \<open>CGOrderedFunc\<close> is the key set of the map of
  module functions in call-graph order.
\<close>

record tables =
  libraryInstructionCosts :: "string \<rightharpoonup> InstructionCost"
  fenceList :: "string list"
  threadFunc :: "string list"
  computedFuncInfo :: "string \<rightharpoonup> FuncInfo"
  CGOrderedFunc :: "string list"

datatype Instruction =
    PHINode
  | LoadInst
  | StoreInst
  | CallInst "string option"      \<comment> \<open>\<open>getCalledFunction()\<close>: the callee's name, or null\<close>
  | DbgInfoIntrinsic string       \<comment> \<open>a call instruction to a debug intrinsic\<close>
  | UnreachableInst
  | TermInst nat                  \<comment> \<open>branch, switch or return with its successor count\<close>
  | OtherInst

text \<open>\<open>dyn_cast<CallInst>(I)\<close> followed by \<open>getCalledFunction()\<close>.\<close>

fun asCallInst :: "Instruction \<Rightarrow> string option option" where
  "asCallInst (CallInst f) = Some f"
| "asCallInst (DbgInfoIntrinsic f) = Some (Some f)"
| "asCallInst _ = None"

fun isThreadFunc :: "string list \<Rightarrow> string \<Rightarrow> bool" where
  "isThreadFunc [] F = False"
| "isThreadFunc (threadFNames # rest) F = (if F = threadFNames then True else isThreadFunc rest F)"

fun isFenceFunc :: "string list \<Rightarrow> string \<Rightarrow> bool" where
  "isFenceFunc [] F = False"
| "isFenceFunc (fence # rest) F = (if F = fence then True else isFenceFunc rest F)"

definition checkIfExternalLibraryCall :: "tables \<Rightarrow> Instruction \<Rightarrow> bool" where
  "checkIfExternalLibraryCall t I =
     (case asCallInst I of
        Some (Some calledFunction) \<Rightarrow>
          (case I of
             DbgInfoIntrinsic _ \<Rightarrow> False
           | _ \<Rightarrow>
             (let foundInOwnLib = (libraryInstructionCosts t calledFunction \<noteq> None);
                  foundInModule = (calledFunction \<in> set (CGOrderedFunc t))
              in if foundInOwnLib \<or> foundInModule then False else True))
      | _ \<Rightarrow> False)"

definition getLibCallCost :: "config \<Rightarrow> int" where
  "getLibCallCost c =
     (if InstGranularity c = NAIVE_ACCURATE \<or> InstGranularity c = OPTIMIZE_ACCURATE
      then 50 else ExtLibFuncCost c)"

text \<open>
  \<open>getInstCostForIC\<close>. \<open>callCost\<close> is an \<open>int\<close>; \<open>newCost\<close> is a \<open>long\<close> that starts
  at 0 and is assigned only inside \<open>if (calledFunction)\<close> and in the final \<open>else\<close>.
\<close>

definition getInstCostForIC :: "config \<Rightarrow> tables \<Rightarrow> Instruction \<Rightarrow> error + InstructionCost" where
  "getInstCostForIC c t I =
     (case I of
        PHINode \<Rightarrow> Inr (getConstantInstCost 0)
      | LoadInst \<Rightarrow> Inr (getConstantInstCost (MemOpsCost c))
      | StoreInst \<Rightarrow> Inr (getConstantInstCost (MemOpsCost c))
      | _ \<Rightarrow>
        (case asCallInst I of
           Some None \<Rightarrow> Inr (getConstantInstCost 0)
         | Some (Some calledFunction) \<Rightarrow>
             (if checkIfExternalLibraryCall t I
              then Inr (getConstantInstCost (to_int (1 + getLibCallCost c)))
              else (case libraryInstructionCosts t calledFunction of
                 Some fCost \<Rightarrow>
                   (case getConstCost (Some fCost) of
                      Inl e \<Rightarrow> Inl e
                    | Inr funcCost \<Rightarrow> Inr (getConstantInstCost (to_int (1 + funcCost))))
               | None \<Rightarrow>
                   (if isFenceFunc (fenceList t) calledFunction then Inl AssertFail
                    else if \<not> isThreadFunc (threadFunc t) calledFunction
                    then (case computedFuncInfo t calledFunction of
                            Some found \<Rightarrow>
                              (let numCallCost = hasConstCost (cost found)
                               in if numCallCost > 0
                                  then Inr (getConstantInstCost (to_int (1 + numCallCost)))
                                  else Inr (getConstantInstCost 1))
                          | None \<Rightarrow> Inr (getConstantInstCost 1))
                    else Inr (getConstantInstCost 1))))
         | None \<Rightarrow> Inr (getConstantInstCost 1)))"

text \<open>
  \<open>getInstCostForPC\<close>. \<open>simplifyCost(F, ic)\<close>, for the function \<open>F\<close> of the instruction,
  converts the cost under the arguments of \<open>F\<close> with \<open>costToSCEV\<close>, asserts that the result
  is not \<open>CouldNotCompute\<close> and converts it back with \<open>scevToCost\<close>; on the way the host's
  scalar evolution folds constants. It is a parameter here: it stops at an assertion
  (\<open>Inl\<close>), returns null (\<open>None\<close>) or returns a cost. The summarized cost of an internal
  callee is pushed unless it is the constant 0; a null cost pointer is pushed as it is.
\<close>

definition getInstCostForPC ::
  "(InstructionCost \<Rightarrow> error + InstructionCost option) \<Rightarrow> config \<Rightarrow> tables \<Rightarrow> Instruction
     \<Rightarrow> error + InstructionCost" where
  "getInstCostForPC simplifyCost c t I =
     (case I of
        PHINode \<Rightarrow> Inr (getConstantInstCost 0)
      | LoadInst \<Rightarrow> Inr (getConstantInstCost (MemOpsCost c))
      | StoreInst \<Rightarrow> Inr (getConstantInstCost (MemOpsCost c))
      | _ \<Rightarrow>
        (case asCallInst I of
           Some None \<Rightarrow> Inr (getConstantInstCost 1)
         | Some (Some calledFunction) \<Rightarrow>
             (case (case libraryInstructionCosts t calledFunction of
                      Some fCost \<Rightarrow> Inr [CONST_C 1, fCost]
                    | None \<Rightarrow>
                        (if isFenceFunc (fenceList t) calledFunction then Inl AssertFail
                         else if \<not> isThreadFunc (threadFunc t) calledFunction
                         then (case computedFuncInfo t calledFunction of
                                 Some found \<Rightarrow>
                                   (if getConstCostWithoutAssert (cost found) \<noteq> 0
                                    then Inr [CONST_C 1,
                                           (case cost found of None \<Rightarrow> NullCost | Some fCost \<Rightarrow> fCost)]
                                    else Inr [CONST_C 1])
                               | None \<Rightarrow> Inr [CONST_C 1])
                         else Inr [CONST_C 1])) of
                Inl e \<Rightarrow> Inl e
              | Inr callCost \<Rightarrow>
                  (case simplifyCost (ADD callCost) of
                     Inl e \<Rightarrow> Inl e
                   | Inr None \<Rightarrow> Inr (getConstantInstCost 1)
                   | Inr (Some simplifiedCost) \<Rightarrow> Inr simplifiedCost))
         | None \<Rightarrow> Inr (CONST_C 1)))"




subsection \<open>LCC builder: unit containers and their edges\<close>

text \<open>
  A basic block is its name, its instructions and its CFG neighbours; an instruction is
  addressed by its index in the block. \<open>getNumSuccessors\<close> of the terminator is read off
  the last instruction.
\<close>

record BasicBlock =
  bbName :: string
  insts :: "Instruction list"
  preds :: "string list"
  succs :: "string list"

record Function =
  fname :: string
  blocks :: "BasicBlock list"

text \<open>
  \<open>class UnitLCC\<close>, the fields the builder sets. The constructor ignores its
  \<open>hasFence\<close> argument, and exits when exactly one of the two instructions is null.
\<close>

record UnitLCC =
  lccID :: nat
  currentBlock :: string
  firstInst :: "nat option"
  lastInst :: "nat option"
  isExitLCC :: bool

definition newUnitLCC :: "nat \<Rightarrow> string \<Rightarrow> nat option \<Rightarrow> nat option \<Rightarrow> bool \<Rightarrow> error + UnitLCC" where
  "newUnitLCC id' block first last' isExiting =
     (if (first \<noteq> None \<and> last' \<noteq> None) \<or> (first = None \<and> last' = None)
      then Inr \<lparr> lccID = id', currentBlock = block, firstInst = first, lastInst = last',
                 isExitLCC = isExiting \<rparr>
      else Inl Exit1)"

definition isEmptyLCC :: "UnitLCC \<Rightarrow> bool" where
  "isEmptyLCC u = (firstInst u = None \<or> lastInst u = None)"

text \<open>\<open>checkForPhi\<close> from the front of a block: the first instruction that is no phi.\<close>

fun checkForPhi :: "Instruction list \<Rightarrow> nat \<Rightarrow> nat option" where
  "checkForPhi [] i = None"
| "checkForPhi (I # rest) i = (if I = PHINode then checkForPhi rest (i + 1) else Some i)"

definition getTerminatorNumSuccessors :: "Instruction list \<Rightarrow> error + nat" where
  "getTerminatorNumSuccessors is =
     (if is = [] then Inl Undefined
      else (case last is of TermInst n \<Rightarrow> Inr n | UnreachableInst \<Rightarrow> Inr 0 | _ \<Rightarrow> Inl Undefined))"

text \<open>The locals of the loop of \<open>makeContainersOfBB\<close>, with the lines written to \<open>errs()\<close>.\<close>

record scan =
  sHasFence :: bool
  sStartInst :: "nat option"
  sContainers :: "UnitLCC list"
  sIdGen :: nat
  sErrs :: "string list"

definition nextInst :: "nat \<Rightarrow> Instruction list \<Rightarrow> nat option" where
  "nextInst i rest = (if rest = [] then None else Some (i + 1))"

text \<open>
  The loop body at instruction \<open>i\<close>. For a fence whose name has no library cost the source
  prints a line and evaluates \<open>assert("Fence function costs are not found ...")\<close>: the
  asserted expression is a string literal, which is never null, so nothing fails there.
\<close>

fun scanInsts :: "tables \<Rightarrow> BasicBlock \<Rightarrow> nat \<Rightarrow> Instruction list \<Rightarrow> scan \<Rightarrow> error + scan" where
  "scanInsts t bb i [] s = Inr s"
| "scanInsts t bb i (inst # rest) s =
     (case asCallInst inst of
        Some (Some calledFunc) \<Rightarrow>
          (let isFence = isFenceFunc (fenceList t) calledFunc;
               hasFence' = (if isFence then True
                            else (case computedFuncInfo t calledFunc of
                                    Some funcInfo \<Rightarrow> hasFence funcInfo
                                  | None \<Rightarrow> sHasFence s));
               errs' = (if isFence \<and> libraryInstructionCosts t calledFunc = None
                        then sErrs s @ [''Fence function '' @ calledFunc @
                               ''()'s cost is not found in the library. Aborting'']
                        else sErrs s)
           in if hasFence'
              then (case newUnitLCC (sIdGen s) (bbName bb) (sStartInst s) (Some i) False of
                      Inl e \<Rightarrow> Inl e
                    | Inr newLCC \<Rightarrow>
                        scanInsts t bb (i + 1) rest
                          (s\<lparr> sHasFence := hasFence', sStartInst := nextInst i rest,
                              sContainers := sContainers s @ [newLCC],
                              sIdGen := sIdGen s + 1, sErrs := errs' \<rparr>))
              else scanInsts t bb (i + 1) rest (s\<lparr> sHasFence := hasFence', sErrs := errs' \<rparr>))
      | Some None \<Rightarrow> scanInsts t bb (i + 1) rest s
      | None \<Rightarrow>
          (if inst = UnreachableInst
           then (case getTerminatorNumSuccessors (insts bb) of
                   Inl e \<Rightarrow> Inl e
                 | Inr numSucc \<Rightarrow>
                     (case newUnitLCC (sIdGen s) (bbName bb) (sStartInst s) (Some i) (numSucc = 0) of
                        Inl e \<Rightarrow> Inl e
                      | Inr newLCC \<Rightarrow>
                          (if numSucc \<noteq> 0
                           then scanInsts t bb (i + 1) rest
                                  (s\<lparr> sStartInst := nextInst i rest,
                                      sContainers := sContainers s @ [newLCC],
                                      sIdGen := sIdGen s + 1 \<rparr>)
                           else Inr (s\<lparr> sStartInst := None,
                                        sContainers := sContainers s @ [newLCC],
                                        sIdGen := sIdGen s + 1 \<rparr>))))
           else scanInsts t bb (i + 1) rest s))"

text \<open>
  The builder's state for the function being processed. An edge is stored at its owner
  (\<open>predEdgeInfo\<close>, \<open>succEdgeInfo\<close>): the key is the owner's id, the direction and the
  other end's id; the value is the fence flag.
\<close>

datatype edgeDir = PredEdge | SuccEdge

record builder =
  lccIDGen :: nat
  bbToContainersMap :: "string \<rightharpoonup> UnitLCC list"
  globalOuterLCCList :: "UnitLCC list"
  edgeInfo :: "(nat \<times> edgeDir \<times> nat) \<rightharpoonup> bool"
  errs :: "string list"

text \<open>
  \<open>makeContainersOfBB\<close>. \<open>checkForPhi\<close> stays inside the block, so \<open>currentBB\<close> is
  the block itself and the loop that creates empty containers for skipped blocks never
  runs.
\<close>

definition makeContainersOfBB :: "tables \<Rightarrow> BasicBlock \<Rightarrow> builder \<Rightarrow> error + (bool \<times> builder)" where
  "makeContainersOfBB t bb b =
     (if insts bb = [] then Inl Undefined
      else (case checkForPhi (insts bb) 0 of
        None \<Rightarrow> Inl AssertFail
      | Some startInst \<Rightarrow>
          (case scanInsts t bb startInst (drop startInst (insts bb))
                  \<lparr> sHasFence = False, sStartInst = Some startInst, sContainers = [],
                    sIdGen = lccIDGen b, sErrs = errs b \<rparr> of
             Inl e \<Rightarrow> Inl e
           | Inr s \<Rightarrow>
               (case (case sStartInst s of
                        None \<Rightarrow> Inr (sContainers s, sIdGen s)
                      | Some st \<Rightarrow>
                          (case newUnitLCC (sIdGen s) (bbName bb) (Some st)
                                  (Some (length (insts bb) - 1)) False of
                             Inl e \<Rightarrow> Inl e
                           | Inr newLCC \<Rightarrow> Inr (sContainers s @ [newLCC], sIdGen s + 1))) of
                  Inl e \<Rightarrow> Inl e
                | Inr (containers, idGen) \<Rightarrow>
                    Inr (sHasFence s,
                         b\<lparr> lccIDGen := idGen,
                            bbToContainersMap := (bbToContainersMap b)(bbName bb \<mapsto> containers),
                            globalOuterLCCList := globalOuterLCCList b @ containers,
                            errs := sErrs s \<rparr>)))))"


definition getFirstLCCofBB :: "builder \<Rightarrow> string \<Rightarrow> error + UnitLCC" where
  "getFirstLCCofBB b currentBB =
     (case bbToContainersMap b currentBB of
        Some (u # us) \<Rightarrow> Inr u
      | _ \<Rightarrow> Inl Undefined)"

definition getLastLCCofBB :: "builder \<Rightarrow> string \<Rightarrow> error + UnitLCC" where
  "getLastLCCofBB b currentBB =
     (case bbToContainersMap b currentBB of
        Some (u # us) \<Rightarrow> Inr (last (u # us))
      | _ \<Rightarrow> Inl Undefined)"

definition addPredLCC :: "UnitLCC \<Rightarrow> UnitLCC \<Rightarrow> bool \<Rightarrow> builder \<Rightarrow> builder" where
  "addPredLCC owner predLCC hasFence' b =
     b\<lparr> edgeInfo := (edgeInfo b)((lccID owner, PredEdge, lccID predLCC) \<mapsto> hasFence') \<rparr>"

definition addSuccLCC :: "UnitLCC \<Rightarrow> UnitLCC \<Rightarrow> bool \<Rightarrow> builder \<Rightarrow> builder" where
  "addSuccLCC owner succLCC hasFence' b =
     b\<lparr> edgeInfo := (edgeInfo b)((lccID owner, SuccEdge, lccID succLCC) \<mapsto> hasFence') \<rparr>"

text \<open>The instruction a unit container ends with, looked up in its block.\<close>

definition findBlock :: "Function \<Rightarrow> string \<Rightarrow> BasicBlock option" where
  "findBlock F name = find (\<lambda>bb. bbName bb = name) (blocks F)"

definition getLastInst :: "Function \<Rightarrow> UnitLCC \<Rightarrow> error + Instruction" where
  "getLastInst F u =
     (case (findBlock F (currentBlock u), lastInst u) of
        (Some bb, Some i) \<Rightarrow> (if i < length (insts bb) then Inr (insts bb ! i) else Inl Undefined)
      | _ \<Rightarrow> Inl Undefined)"

text \<open>
  The flag of an edge between blocks: a fence when the instruction before the edge is
  \<open>unreachable\<close> or a direct call to a fence function.
\<close>

definition edgeHasFence :: "tables \<Rightarrow> Instruction \<Rightarrow> bool" where
  "edgeHasFence t lastInst' =
     (let isUnreachable = (lastInst' = UnreachableInst);
          isFenceSeparated =
            (if lastInst' = UnreachableInst then False
             else (case asCallInst lastInst' of
                     Some (Some calledFunc) \<Rightarrow> isFenceFunc (fenceList t) calledFunc
                   | _ \<Rightarrow> False))
      in isFenceSeparated \<or> isUnreachable)"

text \<open>The first loop of \<open>createContainerCFG\<close>: fence edges inside one block.\<close>

fun connectInBlock :: "UnitLCC \<Rightarrow> UnitLCC list \<Rightarrow> builder \<Rightarrow> builder" where
  "connectInBlock prevLCC [] b = b"
| "connectInBlock prevLCC (blockContainer # rest) b =
     connectInBlock blockContainer rest
       (if \<not> isExitLCC blockContainer
        then addPredLCC blockContainer prevLCC True (addSuccLCC prevLCC blockContainer True b)
        else b)"

fun connectPreds :: "tables \<Rightarrow> Function \<Rightarrow> UnitLCC \<Rightarrow> string list \<Rightarrow> builder \<Rightarrow> error + builder" where
  "connectPreds t F firstContainer [] b = Inr b"
| "connectPreds t F firstContainer (PI # rest) b =
     (case getLastLCCofBB b PI of
        Inl e \<Rightarrow> Inl e
      | Inr lastLCCofPrev \<Rightarrow>
          (if isEmptyLCC lastLCCofPrev \<or> isExitLCC lastLCCofPrev
           then connectPreds t F firstContainer rest b
           else (case getLastInst F lastLCCofPrev of
                   Inl e \<Rightarrow> Inl e
                 | Inr lastInst' \<Rightarrow>
                     connectPreds t F firstContainer rest
                       (addPredLCC firstContainer lastLCCofPrev (edgeHasFence t lastInst') b))))"

fun connectSuccs :: "tables \<Rightarrow> Function \<Rightarrow> UnitLCC \<Rightarrow> string list \<Rightarrow> builder \<Rightarrow> error + builder" where
  "connectSuccs t F lastContainer [] b = Inr b"
| "connectSuccs t F lastContainer (SI # rest) b =
     (case getFirstLCCofBB b SI of
        Inl e \<Rightarrow> Inl e
      | Inr firstLCCofSucc \<Rightarrow>
          (if isEmptyLCC firstLCCofSucc \<or> isExitLCC firstLCCofSucc
           then connectSuccs t F lastContainer rest b
           else (case getLastInst F lastContainer of
                   Inl e \<Rightarrow> Inl e
                 | Inr lastInst' \<Rightarrow>
                     connectSuccs t F lastContainer rest
                       (addSuccLCC lastContainer firstLCCofSucc (edgeHasFence t lastInst') b))))"

definition createContainerCFG :: "tables \<Rightarrow> Function \<Rightarrow> BasicBlock \<Rightarrow> builder \<Rightarrow> error + builder" where
  "createContainerCFG t F currentBB b =
     (let containers = (case bbToContainersMap b (bbName currentBB) of None \<Rightarrow> [] | Some cs \<Rightarrow> cs);
          b1 = (case containers of
                  first # second # further \<Rightarrow> connectInBlock first (second # further) b
                | _ \<Rightarrow> b)
      in (case containers of
            [] \<Rightarrow> Inl Undefined
          | firstContainer # others \<Rightarrow>
              (if others = [] \<and> (isEmptyLCC firstContainer \<or> isExitLCC firstContainer)
               then Inr b1
               else (case connectPreds t F firstContainer (preds currentBB) b1 of
                       Inl e \<Rightarrow> Inl e
                     | Inr b2 \<Rightarrow>
                         connectSuccs t F (last containers) (succs currentBB) b2))))"

text \<open>
  \<open>initializeLCCGraph\<close>: the per-function state is reset, every block is split into
  unit containers, the edges are drawn, and the function's \<open>FuncInfo\<close> is stored with
  a null cost.
\<close>

fun makeContainersOfBlocks :: "tables \<Rightarrow> BasicBlock list \<Rightarrow> bool \<Rightarrow> builder \<Rightarrow> error + (bool \<times> builder)" where
  "makeContainersOfBlocks t [] fInfoHasFence b = Inr (fInfoHasFence, b)"
| "makeContainersOfBlocks t (BB # rest) fInfoHasFence b =
     (case makeContainersOfBB t BB b of
        Inl e \<Rightarrow> Inl e
      | Inr (hasFence', b') \<Rightarrow>
          makeContainersOfBlocks t rest (if hasFence' then True else fInfoHasFence) b')"

fun createContainerCFGs :: "tables \<Rightarrow> Function \<Rightarrow> BasicBlock list \<Rightarrow> builder \<Rightarrow> error + builder" where
  "createContainerCFGs t F [] b = Inr b"
| "createContainerCFGs t F (BB # rest) b =
     (case createContainerCFG t F BB b of
        Inl e \<Rightarrow> Inl e
      | Inr b' \<Rightarrow> createContainerCFGs t F rest b')"

definition initializeLCCGraph :: "tables \<Rightarrow> Function \<Rightarrow> string list \<Rightarrow> error + (tables \<times> builder)" where
  "initializeLCCGraph t F errs0 =
     (case makeContainersOfBlocks t (blocks F) False
             \<lparr> lccIDGen = 0, bbToContainersMap = Map.empty, globalOuterLCCList = [],
               edgeInfo = Map.empty, errs = errs0 \<rparr> of
        Inl e \<Rightarrow> Inl e
      | Inr (fInfoHasFence, b1) \<Rightarrow>
          (case createContainerCFGs t F (blocks F) b1 of
             Inl e \<Rightarrow> Inl e
           | Inr b2 \<Rightarrow>
               Inr (t\<lparr> computedFuncInfo :=
                        (computedFuncInfo t)(fname F \<mapsto> \<lparr> hasFence = fInfoHasFence, cost = None \<rparr>) \<rparr>,
                    b2)))"

text \<open>
  \<open>runOnModule\<close>: the fences are defined only for the predictive clock (\<open>fenceList\<close> is a
  \<open>std::set\<close>, empty when the pass starts), then the functions are processed one after
  the other. The later steps of \<open>analyzeAndInstrFunc\<close> write the \<open>cost\<close> field of a
  \<open>FuncInfo\<close> only, so the builder sees the fence flags as \<open>initializeLCCGraph\<close> stored
  them.
\<close>

definition defineFences :: "config \<Rightarrow> string list \<Rightarrow> string list" where
  "defineFences c fl =
     (if ClockType c = PREDICTIVE
      then List.insert ''pthread_mutex_unlock'' (List.insert ''pthread_mutex_lock'' fl)
      else fl)"

fun initializeLCCGraphs :: "tables \<Rightarrow> Function list \<Rightarrow> error + (tables \<times> builder list)" where
  "initializeLCCGraphs t [] = Inr (t, [])"
| "initializeLCCGraphs t (F # rest) =
     (case initializeLCCGraph t F [] of
        Inl e \<Rightarrow> Inl e
      | Inr (t', b) \<Rightarrow>
          (case initializeLCCGraphs t' rest of
             Inl e \<Rightarrow> Inl e
           | Inr (t'', bs) \<Rightarrow> Inr (t'', b # bs)))"

definition buildModule :: "config \<Rightarrow> tables \<Rightarrow> Function list \<Rightarrow> error + (tables \<times> builder list)" where
  "buildModule c t Fs =
     initializeLCCGraphs (t\<lparr> fenceList := defineFences c [], computedFuncInfo := Map.empty \<rparr>) Fs"


text \<open>
  Valid IR, as far as the builder depends on it: a block is not empty, its last
  instruction is its only terminator, \<open>unreachable\<close> has no successor and any other
  terminator has the block's successors; the blocks of a function have distinct names.
\<close>

fun isTerminator :: "Instruction \<Rightarrow> bool" where
  "isTerminator (TermInst n) = True"
| "isTerminator UnreachableInst = True"
| "isTerminator _ = False"

definition wellFormedBB :: "BasicBlock \<Rightarrow> bool" where
  "wellFormedBB bb =
     (insts bb \<noteq> [] \<and> list_all (\<lambda>I. \<not> isTerminator I) (butlast (insts bb)) \<and>
      (case last (insts bb) of
         TermInst n \<Rightarrow> n = length (succs bb)
       | UnreachableInst \<Rightarrow> succs bb = []
       | _ \<Rightarrow> False))"

definition wellFormedFunction :: "Function \<Rightarrow> bool" where
  "wellFormedFunction F =
     (list_all wellFormedBB (blocks F) \<and> distinct (map bbName (blocks F)))"

text \<open>The single unit container of a block that is not split.\<close>

definition wholeBlockLCC :: "nat \<Rightarrow> BasicBlock \<Rightarrow> UnitLCC" where
  "wholeBlockLCC id' bb =
     \<lparr> lccID = id', currentBlock = bbName bb, firstInst = checkForPhi (insts bb) 0,
       lastInst = Some (length (insts bb) - 1),
       isExitLCC = (last (insts bb) = UnreachableInst) \<rparr>"



subsection \<open>Reducer: the fixed-point loop over the global outer-LCC list\<close>

text \<open>
  The rules \<open>checkNCreatePathLCC\<close>, \<open>checkNCreateBranchLCC\<close> and
  \<open>checkNCreateLoopLCC\<close> have two parts. The first part inspects the container graph
  and the host's dominator, loop and scalar-evolution analyses, returns false without
  changing anything when the shape does not match, and otherwise creates the new
  container and rewires the edges. That part is a parameter here (\<open>host\<close>): it returns
  the containers the rule matched, the new container and the rewired graph, or \<open>None\<close>.
  The second part, the update of \<open>globalOuterLCCList[F]\<close>, is modelled as written.
  Containers are values of a type \<open>'n\<close>, the graph with the analyses is a value of a
  type \<open>'g\<close>.
\<close>

record ('n, 'g) host =
  matchPath :: "'g \<Rightarrow> 'n \<Rightarrow> error + ('n \<times> 'n \<times> 'g) option"
      \<comment> \<open>\<open>succLCC\<close>, \<open>newLCC\<close>, graph\<close>
  matchBranch :: "'g \<Rightarrow> 'n \<Rightarrow> error + ('n \<times> 'n list \<times> 'n \<times> 'g) option"
      \<comment> \<open>\<open>postDomLCC\<close>, keys of \<open>middleLCCInfo\<close>, \<open>newLCC\<close>, graph\<close>
  matchLoop :: "'g \<Rightarrow> 'n \<Rightarrow> error + ('n \<times> 'n option \<times> 'n \<times> 'n \<times> 'g) option"
      \<comment> \<open>\<open>loopPredLCC\<close>, \<open>loopBodyLCC\<close>, \<open>loopSuccLCC\<close>, \<open>newLCC\<close>, graph\<close>

record ('n, 'g) reducer =
  lccGraph :: 'g
  outerLCCs :: "'n list"      \<comment> \<open>\<open>globalOuterLCCList[F]\<close>\<close>

text \<open>
  \<open>eraseFromGlobalLCCList\<close> asserts that the container is in the list, erases its first
  occurrence and returns the position. \<open>insertAt\<close> is \<open>vector::insert(position, x)\<close>.
\<close>

definition eraseFromGlobalLCCList :: "'n \<Rightarrow> 'n list \<Rightarrow> error + (nat \<times> 'n list)" where
  "eraseFromGlobalLCCList depricatedLCC lccs =
     (if depricatedLCC \<in> set lccs
      then Inr (length (takeWhile (\<lambda>x. x \<noteq> depricatedLCC) lccs), remove1 depricatedLCC lccs)
      else Inl AssertFail)"

definition insertAt :: "nat \<Rightarrow> 'n \<Rightarrow> 'n list \<Rightarrow> 'n list" where
  "insertAt position x lccs = take position lccs @ x # drop position lccs"

fun eraseAll :: "'n list \<Rightarrow> 'n list \<Rightarrow> error + 'n list" where
  "eraseAll [] lccs = Inr lccs"
| "eraseAll (d # ds) lccs =
     (case eraseFromGlobalLCCList d lccs of
        Inl e \<Rightarrow> Inl e
      | Inr (position, lccs') \<Rightarrow> eraseAll ds lccs')"

text \<open>
  Each rule returns \<open>Inr None\<close> for false and \<open>Inr (Some r)\<close> for true with the new
  state.
\<close>

definition replaceInGlobalList :: "'n \<Rightarrow> 'n \<Rightarrow> 'n list \<Rightarrow> 'n list \<Rightarrow> error + 'n list" where
  "replaceInGlobalList firstLCC newLCC others lccs =
     (case eraseFromGlobalLCCList firstLCC lccs of
        Inl e \<Rightarrow> Inl e
      | Inr (position, lccs1) \<Rightarrow> eraseAll others (insertAt position newLCC lccs1))"

definition checkNCreatePathLCC ::
  "('n, 'g) host \<Rightarrow> 'n \<Rightarrow> ('n, 'g) reducer \<Rightarrow> error + ('n, 'g) reducer option" where
  "checkNCreatePathLCC h currentLCC r =
     (case matchPath h (lccGraph r) currentLCC of
        Inl e \<Rightarrow> Inl e
      | Inr None \<Rightarrow> Inr None
      | Inr (Some (succLCC, newLCC, g')) \<Rightarrow>
          (case replaceInGlobalList currentLCC newLCC [succLCC] (outerLCCs r) of
             Inl e \<Rightarrow> Inl e
           | Inr lccs' \<Rightarrow> Inr (Some \<lparr> lccGraph = g', outerLCCs = lccs' \<rparr>)))"

definition checkNCreateBranchLCC ::
  "('n, 'g) host \<Rightarrow> 'n \<Rightarrow> ('n, 'g) reducer \<Rightarrow> error + ('n, 'g) reducer option" where
  "checkNCreateBranchLCC h currentLCC r =
     (case matchBranch h (lccGraph r) currentLCC of
        Inl e \<Rightarrow> Inl e
      | Inr None \<Rightarrow> Inr None
      | Inr (Some (postDomLCC, middleLCCs, newLCC, g')) \<Rightarrow>
          (case replaceInGlobalList currentLCC newLCC (postDomLCC # middleLCCs) (outerLCCs r) of
             Inl e \<Rightarrow> Inl e
           | Inr lccs' \<Rightarrow> Inr (Some \<lparr> lccGraph = g', outerLCCs = lccs' \<rparr>)))"

definition checkNCreateLoopLCC ::
  "('n, 'g) host \<Rightarrow> 'n \<Rightarrow> ('n, 'g) reducer \<Rightarrow> error + ('n, 'g) reducer option" where
  "checkNCreateLoopLCC h currentLCC r =
     (case matchLoop h (lccGraph r) currentLCC of
        Inl e \<Rightarrow> Inl e
      | Inr None \<Rightarrow> Inr None
      | Inr (Some (loopPredLCC, loopBodyLCC, loopSuccLCC, newLCC, g')) \<Rightarrow>
          (case replaceInGlobalList loopPredLCC newLCC
                  (currentLCC # (case loopBodyLCC of None \<Rightarrow> [] | Some body \<Rightarrow> [body])
                     @ [loopSuccLCC]) (outerLCCs r) of
             Inl e \<Rightarrow> Inl e
           | Inr lccs' \<Rightarrow> Inr (Some \<lparr> lccGraph = g', outerLCCs = lccs' \<rparr>)))"

text \<open>
  \<open>checkNApplyRules\<close>: \<open>ruleIndex\<close> is 1 and the cases of the switch fall through, so
  the rules are tried in the order path, branch, loop; the other cases are compiled out.
\<close>

definition checkNApplyRules ::
  "('n, 'g) host \<Rightarrow> 'n \<Rightarrow> ('n, 'g) reducer \<Rightarrow> error + ('n, 'g) reducer option" where
  "checkNApplyRules h currentLCC r =
     (case checkNCreatePathLCC h currentLCC r of
        Inl e \<Rightarrow> Inl e
      | Inr (Some r') \<Rightarrow> Inr (Some r')
      | Inr None \<Rightarrow>
          (case checkNCreateBranchLCC h currentLCC r of
             Inl e \<Rightarrow> Inl e
           | Inr (Some r') \<Rightarrow> Inr (Some r')
           | Inr None \<Rightarrow>
               (case checkNCreateLoopLCC h currentLCC r of
                  Inl e \<Rightarrow> Inl e
                | Inr (Some r') \<Rightarrow> Inr (Some r')
                | Inr None \<Rightarrow> Inr None)))"

text \<open>The \<open>for\<close> loop over the list: it stops at the first container a rule applies to.\<close>

fun scanLCCs ::
  "('n, 'g) host \<Rightarrow> 'n list \<Rightarrow> ('n, 'g) reducer \<Rightarrow> error + ('n, 'g) reducer option" where
  "scanLCCs h [] r = Inr None"
| "scanLCCs h (itLCC # rest) r =
     (case checkNApplyRules h itLCC r of
        Inl e \<Rightarrow> Inl e
      | Inr (Some r') \<Rightarrow> Inr (Some r')
      | Inr None \<Rightarrow> scanLCCs h rest r)"

text \<open>
  \<open>traverseNReduce\<close>: the inner \<open>do ... while (ruleApplied)\<close> scans again after every
  applied rule; when it ends \<open>ruleApplied\<close> is false, so the outer loop runs once. The
  result carries the counter \<open>passes\<close>.
\<close>

function traverseNReduce ::
  "('n, 'g) host \<Rightarrow> nat \<Rightarrow> ('n, 'g) reducer \<Rightarrow> error + (nat \<times> ('n, 'g) reducer)" where
  "traverseNReduce h passes r =
     (case scanLCCs h (outerLCCs r) r of
        Inl e \<Rightarrow> Inl e
      | Inr None \<Rightarrow> Inr (passes + 1, r)
      | Inr (Some r') \<Rightarrow> traverseNReduce h (passes + 1) r')"
  by pat_completeness auto
termination
proof (relation "measure (\<lambda>(h, passes, r). length (outerLCCs r))")
  show "wf (measure (\<lambda>(h :: ('n, 'g) host, passes :: nat, r :: ('n, 'g) reducer).
              length (outerLCCs r)))"
    by simp
next
  fix h :: "('n, 'g) host" and passes :: nat and r x2 r' :: "('n, 'g) reducer"
    and x2a :: "('n, 'g) reducer option"
  assume sc: "scanLCCs h (outerLCCs r) r = Inr x2a" "x2a = Some r'"
  have er: "length ys < length xs + 1 \<and> length ys + 1 = length xs"
    if "eraseFromGlobalLCCList d xs = Inr (p, ys)" for d :: 'n and xs p ys
    using that by (auto simp: eraseFromGlobalLCCList_def length_remove1 split: if_splits)
      (metis One_nat_def Suc_pred length_pos_if_in_set)
  have ea: "length ys \<le> length xs" if "eraseAll ds xs = Inr ys" for ds :: "'n list" and xs ys
    using that
  proof (induction ds arbitrary: xs)
    case Nil then show ?case by simp
  next
    case (Cons d ds)
    then obtain p xs' where e: "eraseFromGlobalLCCList d xs = Inr (p, xs')"
      "eraseAll ds xs' = Inr ys"
      by (auto split: sum.splits)
    from er[OF e(1)] Cons.IH[OF e(2)] show ?case by simp
  qed
  have rp: "length ys < length xs"
    if "replaceInGlobalList a n (o1 # os) xs = Inr ys" for a n o1 :: 'n and os xs ys
  proof -
    from that obtain p xs1 q xs2 where e: "eraseFromGlobalLCCList a xs = Inr (p, xs1)"
      "eraseFromGlobalLCCList o1 (insertAt p n xs1) = Inr (q, xs2)" "eraseAll os xs2 = Inr ys"
      by (auto simp: replaceInGlobalList_def split: sum.splits)
    have "length (insertAt p n xs1) = length xs1 + 1" by (simp add: insertAt_def)
    with er[OF e(1)] er[OF e(2)] ea[OF e(3)] show ?thesis by simp
  qed
  have ap: "length (outerLCCs r1) < length (outerLCCs r0)"
    if "checkNApplyRules h c r0 = Inr (Some r1)" for c and r0 r1 :: "('n, 'g) reducer"
    using that
    by (auto simp: checkNApplyRules_def checkNCreatePathLCC_def checkNCreateBranchLCC_def
        checkNCreateLoopLCC_def split: sum.splits option.splits dest!: rp)
  have "length (outerLCCs r1) < length (outerLCCs r0)"
    if "scanLCCs h cs r0 = Inr (Some r1)" for cs and r0 r1 :: "('n, 'g) reducer"
    using that by (induction cs) (auto split: sum.splits option.splits dest: ap)
  from this sc show "((h, passes + 1, r'), h, passes, r)
      \<in> measure (\<lambda>(h, passes, r). length (outerLCCs r))"
    by simp
qed


subsection \<open>Loop transformer: strip-mining or per-iteration instrumentation\<close>

text \<open>
  The instrumentation markers of a unit container (\<open>toBeInstrumented\<close>, \<open>_instrInfo\<close>),
  kept per container id; an instruction is its index in the block.
\<close>

record unitInstr =
  toBeInstrumented :: bool
  instrInfo :: "nat \<rightharpoonup> InstructionCost"

definition setInstrInfo :: "nat option \<Rightarrow> InstructionCost option \<Rightarrow> unitInstr \<Rightarrow> error + unitInstr" where
  "setInstrInfo I cost' u =
     (case (cost', I) of
        (Some newCost, Some i) \<Rightarrow>
          (case instrInfo u i of
             Some prevCost \<Rightarrow>
               (case getConstCost (Some prevCost) of
                  Inl e \<Rightarrow> Inl e
                | Inr numPrev \<Rightarrow>
                    (case getConstCost (Some newCost) of
                       Inl e \<Rightarrow> Inl e
                     | Inr numNew \<Rightarrow>
                         (if numPrev \<noteq> numNew then Inl Exit1
                          else Inr (u\<lparr> toBeInstrumented := True,
                                        instrInfo := (instrInfo u)(i \<mapsto> newCost) \<rparr>))))
           | None \<Rightarrow> Inr (u\<lparr> toBeInstrumented := True,
                                instrInfo := (instrInfo u)(i \<mapsto> newCost) \<rparr>))
      | _ \<Rightarrow> Inl AssertFail)"

text \<open>\<open>UnitLCC::instrumentForIC\<close>: the cost goes to the container's last instruction.\<close>

definition unitInstrumentForIC :: "UnitLCC \<Rightarrow> InstructionCost option \<Rightarrow> unitInstr \<Rightarrow> error + unitInstr" where
  "unitInstrumentForIC lcc cost' u =
     (let numCost = hasConstCost cost'
      in if \<not> numCost \<ge> 0 then Inl AssertFail
         else if numCost \<noteq> 0 then setInstrInfo (lastInst lcc) cost' u
         else Inr u)"

text \<open>C integer division: the quotient is truncated towards zero.\<close>

definition cdiv :: "int \<Rightarrow> int \<Rightarrow> int" where
  "cdiv a b = (if (a < 0) = (b < 0) then \<bar>a\<bar> div \<bar>b\<bar> else - (\<bar>a\<bar> div \<bar>b\<bar>))"

text \<open>
  A loop as the transformer sees it: its header, its latch, and whether the host finds an
  induction variable (\<open>L->getInductionVariable(*SE)\<close>). The maps \<open>selfLoop\<close> and
  \<open>seseLoop\<close> are keyed by the loop, identified by its header. \<open>containersOf\<close> is
  \<open>bbToContainersMap\<close>. The IR and whatever else the transformation touches is a value
  of a type \<open>'w\<close>. A pointer to a unit container is its id; \<open>unitLCCs\<close> holds
  the containers' fields, which the transformation may change.
\<close>

record Loop =
  loopHeader :: string
  loopLatch :: "string option"
  hasInductionVariable :: bool

record 'w loopPass =
  selfLoop :: "string \<rightharpoonup> InstructionCost"
  seseLoop :: "string \<rightharpoonup> InstructionCost"
  containersOf :: "string \<rightharpoonup> nat list"
  unitLCCs :: "nat \<rightharpoonup> UnitLCC"
  unitInstrs :: "nat \<Rightarrow> unitInstr"
  self_loop_transform :: int
  generic_loop_transform :: int
  irWorld :: 'w

definition lastLCCofBB :: "'w loopPass \<Rightarrow> string \<Rightarrow> error + nat" where
  "lastLCCofBB s bb =
     (case containersOf s bb of
        Some (u # us) \<Rightarrow> Inr (last (u # us))
      | _ \<Rightarrow> Inl Undefined)"

definition instrumentLoopLCC :: "nat \<Rightarrow> InstructionCost \<Rightarrow> 'w loopPass \<Rightarrow> error + 'w loopPass" where
  "instrumentLoopLCC unitLoopLCC loopCost s =
     (case unitLCCs s unitLoopLCC of
        None \<Rightarrow> Inl Undefined
      | Some lcc \<Rightarrow>
          (case unitInstrumentForIC lcc (Some loopCost) (unitInstrs s unitLoopLCC) of
             Inl e \<Rightarrow> Inl e
           | Inr u' \<Rightarrow> Inr (s\<lparr> unitInstrs := (unitInstrs s)(unitLoopLCC := u') \<rparr>)))"

text \<open>
  \<open>instrumentSelfLoop\<close>. The strip-mining transformation
  \<open>transformGenericSelfLoopWithoutBounds\<close> rewrites the IR; it is a parameter that
  returns the exit block, or null when it fails.
\<close>

definition instrumentSelfLoop ::
  "(Loop \<Rightarrow> int \<Rightarrow> int \<Rightarrow> 'w loopPass \<Rightarrow> error + (string option \<times> 'w loopPass))
     \<Rightarrow> config \<Rightarrow> Loop \<Rightarrow> 'w loopPass \<Rightarrow> error + 'w loopPass" where
  "instrumentSelfLoop transformGenericSelfLoopWithoutBounds c L s =
     (case selfLoop s (loopHeader L) of
        None \<Rightarrow> Inr s
      | Some selfLoopCost \<Rightarrow>
          (let numSelfLoopCost = to_int (hasConstCost (Some selfLoopCost))
           in if numSelfLoopCost = 0
              then Inr (s\<lparr> selfLoop := (selfLoop s)(loopHeader L := None) \<rparr>)
              else
               (let innerLoopIterations = cdiv (CommitInterval c) numSelfLoopCost
                in case lastLCCofBB s (loopHeader L) of
                     Inl e \<Rightarrow> Inl e
                   | Inr unitLoopLCC \<Rightarrow>
                       (if \<not> numSelfLoopCost \<le> CommitInterval c then Inl AssertFail
                        else if \<not> innerLoopIterations \<ge> 0 then Inl AssertFail
                        else
                         (case (if innerLoopIterations \<le> 10 \<or> \<not> hasInductionVariable L
                                then instrumentLoopLCC unitLoopLCC selfLoopCost s
                                else (case transformGenericSelfLoopWithoutBounds L
                                             innerLoopIterations numSelfLoopCost s of
                                        Inl e \<Rightarrow> Inl e
                                      | Inr (None, s') \<Rightarrow>
                                          instrumentLoopLCC unitLoopLCC selfLoopCost s'
                                      | Inr (Some exitBlock, s') \<Rightarrow>
                                          Inr (s'\<lparr> self_loop_transform :=
                                                     self_loop_transform s' + 1 \<rparr>))) of
                            Inl e \<Rightarrow> Inl e
                          | Inr s'' \<Rightarrow>
                              Inr (s''\<lparr> selfLoop := (selfLoop s'')(loopHeader L := None) \<rparr>))))))"

text \<open>
  \<open>instrumentSESELoop\<close>: the same steps on the map \<open>seseLoop\<close>, with the last unit
  container of the latch block and \<open>transformSESELoopWithoutBounds\<close>.
\<close>

definition instrumentSESELoop ::
  "(Loop \<Rightarrow> int \<Rightarrow> int \<Rightarrow> 'w loopPass \<Rightarrow> error + (string option \<times> 'w loopPass))
     \<Rightarrow> config \<Rightarrow> Loop \<Rightarrow> 'w loopPass \<Rightarrow> error + 'w loopPass" where
  "instrumentSESELoop transformSESELoopWithoutBounds c L s =
     (case seseLoop s (loopHeader L) of
        None \<Rightarrow> Inr s
      | Some seseLoopCost \<Rightarrow>
          (let numSESELoopCost = to_int (hasConstCost (Some seseLoopCost))
           in if numSESELoopCost = 0
              then Inr (s\<lparr> seseLoop := (seseLoop s)(loopHeader L := None) \<rparr>)
              else
               (let innerLoopIterations = cdiv (CommitInterval c) numSESELoopCost
                in case (case loopLatch L of None \<Rightarrow> Inl Undefined
                         | Some latchBBL \<Rightarrow> lastLCCofBB s latchBBL) of
                     Inl e \<Rightarrow> Inl e
                   | Inr unitLoopLCC \<Rightarrow>
                       (if \<not> numSESELoopCost \<le> CommitInterval c then Inl AssertFail
                        else if \<not> innerLoopIterations \<ge> 0 then Inl AssertFail
                        else
                         (case (if innerLoopIterations \<le> 10 \<or> \<not> hasInductionVariable L
                                then instrumentLoopLCC unitLoopLCC seseLoopCost s
                                else (case transformSESELoopWithoutBounds L
                                             innerLoopIterations numSESELoopCost s of
                                        Inl e \<Rightarrow> Inl e
                                      | Inr (None, s') \<Rightarrow>
                                          instrumentLoopLCC unitLoopLCC seseLoopCost s'
                                      | Inr (Some exitBlock, s') \<Rightarrow>
                                          Inr (s'\<lparr> generic_loop_transform :=
                                                     generic_loop_transform s' + 1 \<rparr>))) of
                            Inl e \<Rightarrow> Inl e
                          | Inr s'' \<Rightarrow>
                              Inr (s''\<lparr> seseLoop := (seseLoop s'')(loopHeader L := None) \<rparr>))))))"


subsection \<open>Probe emitter: the emitted code\<close>

text \<open>
  The emitter inserts IR through an \<open>IRBuilder\<close> and splits blocks with
  \<open>SplitBlockAndInsertIfThen(Else)\<close>. The emitted code is a value: a list of
  instructions in program order, where a compare with the branch on it and the blocks it
  guards is one structured instruction. Registers carry the names the emitter's variables
  have. The variables a probe reads and writes are the thread-local globals, and the
  allocas \<open>gLocalCounter[F]\<close>, \<open>gLocalFLag[F]\<close> of the configuration without
  thread-local storage.
\<close>

datatype var =
    GV_LocalLC | GV_lc_disabled_count | GV_LastCycleTS | GV_intvActionHook
  | Alloca_localCounter | Alloca_localFlag

datatype operand = Reg string | Int32 "32 word" | Int64 "64 word"

datatype cmp = ICmpEQ | ICmpUGT | ICmpUGE

datatype inst =
    Load string var
  | Store operand var
  | Add string operand operand
  | Sub string operand operand
  | ReadCycleCounter string
  | CallPtr operand "operand list"
  | IfThenElse cmp operand operand "inst list" "inst list"
















subsection \<open>Probe emitter: running the emitted code\<close>

text \<open>
  One thread's view. \<open>LocalLC\<close> and \<open>LastCycleTS\<close> are 64-bit, \<open>lc_disabled_count\<close> is
  32-bit, \<open>intvActionHook\<close> holds a function pointer (a number). The handler behind a
  pointer takes the 64-bit argument and may change the thread-local variables; a handler
  that returns is a function on them. The cycle counter is the sequence of values its
  successive reads return. Every handler call is recorded with the pointer and the
  argument.
\<close>

datatype val = I32 "32 word" | I64 "64 word" | FnPtr nat

record tls =
  LocalLC :: "64 word"
  lc_disabled_count :: "32 word"
  LastCycleTS :: "64 word"
  intvActionHook :: nat

record machine =
  tlsOf :: tls
  localCounter :: "64 word"
  localFlag :: "32 word"
  regs :: "string \<rightharpoonup> val"
  tscReads :: nat
  handlerCalls :: "(nat \<times> 64 word) list"

record runtime =
  handlerAt :: "nat \<Rightarrow> 64 word \<Rightarrow> tls \<Rightarrow> tls"
  readcyclecounter :: "nat \<Rightarrow> 64 word"

definition evalOp :: "machine \<Rightarrow> operand \<Rightarrow> error + val" where
  "evalOp m x =
     (case x of
        Reg r \<Rightarrow> (case regs m r of None \<Rightarrow> Inl Undefined | Some v \<Rightarrow> Inr v)
      | Int32 w \<Rightarrow> Inr (I32 w)
      | Int64 w \<Rightarrow> Inr (I64 w))"

definition loadVar :: "machine \<Rightarrow> var \<Rightarrow> val" where
  "loadVar m x =
     (case x of
        GV_LocalLC \<Rightarrow> I64 (LocalLC (tlsOf m))
      | GV_lc_disabled_count \<Rightarrow> I32 (lc_disabled_count (tlsOf m))
      | GV_LastCycleTS \<Rightarrow> I64 (LastCycleTS (tlsOf m))
      | GV_intvActionHook \<Rightarrow> FnPtr (intvActionHook (tlsOf m))
      | Alloca_localCounter \<Rightarrow> I64 (localCounter m)
      | Alloca_localFlag \<Rightarrow> I32 (localFlag m))"

definition storeVar :: "var \<Rightarrow> val \<Rightarrow> machine \<Rightarrow> error + machine" where
  "storeVar x v m =
     (case (x, v) of
        (GV_LocalLC, I64 w) \<Rightarrow> Inr (m\<lparr> tlsOf := (tlsOf m)\<lparr> LocalLC := w \<rparr> \<rparr>)
      | (GV_lc_disabled_count, I32 w) \<Rightarrow> Inr (m\<lparr> tlsOf := (tlsOf m)\<lparr> lc_disabled_count := w \<rparr> \<rparr>)
      | (GV_LastCycleTS, I64 w) \<Rightarrow> Inr (m\<lparr> tlsOf := (tlsOf m)\<lparr> LastCycleTS := w \<rparr> \<rparr>)
      | (GV_intvActionHook, FnPtr f) \<Rightarrow> Inr (m\<lparr> tlsOf := (tlsOf m)\<lparr> intvActionHook := f \<rparr> \<rparr>)
      | (Alloca_localCounter, I64 w) \<Rightarrow> Inr (m\<lparr> localCounter := w \<rparr>)
      | (Alloca_localFlag, I32 w) \<Rightarrow> Inr (m\<lparr> localFlag := w \<rparr>)
      | _ \<Rightarrow> Inl Undefined)"

definition arith :: "bool \<Rightarrow> val \<Rightarrow> val \<Rightarrow> error + val" where
  "arith isAdd a b =
     (case (a, b) of
        (I32 x, I32 y) \<Rightarrow> Inr (I32 (if isAdd then x + y else x - y))
      | (I64 x, I64 y) \<Rightarrow> Inr (I64 (if isAdd then x + y else x - y))
      | _ \<Rightarrow> Inl Undefined)"

definition evalCmp :: "cmp \<Rightarrow> val \<Rightarrow> val \<Rightarrow> error + bool" where
  "evalCmp p a b =
     (case (a, b) of
        (I32 x, I32 y) \<Rightarrow>
          Inr (case p of ICmpEQ \<Rightarrow> x = y | ICmpUGT \<Rightarrow> unat x > unat y | ICmpUGE \<Rightarrow> unat x \<ge> unat y)
      | (I64 x, I64 y) \<Rightarrow>
          Inr (case p of ICmpEQ \<Rightarrow> x = y | ICmpUGT \<Rightarrow> unat x > unat y | ICmpUGE \<Rightarrow> unat x \<ge> unat y)
      | _ \<Rightarrow> Inl Undefined)"

definition setReg :: "string \<Rightarrow> val \<Rightarrow> machine \<Rightarrow> machine" where
  "setReg r v m = m\<lparr> regs := (regs m)(r \<mapsto> v) \<rparr>"

fun exec :: "runtime \<Rightarrow> inst \<Rightarrow> machine \<Rightarrow> error + machine"
  and execList :: "runtime \<Rightarrow> inst list \<Rightarrow> machine \<Rightarrow> error + machine" where
  "exec rt (Load r x) m = Inr (setReg r (loadVar m x) m)"
| "exec rt (Store a x) m =
     (case evalOp m a of Inl e \<Rightarrow> Inl e | Inr v \<Rightarrow> storeVar x v m)"
| "exec rt (Add r a b) m =
     (case evalOp m a of
        Inl e \<Rightarrow> Inl e
      | Inr x \<Rightarrow>
          (case evalOp m b of
             Inl e \<Rightarrow> Inl e
           | Inr y \<Rightarrow> (case arith True x y of Inl e \<Rightarrow> Inl e | Inr v \<Rightarrow> Inr (setReg r v m))))"
| "exec rt (Sub r a b) m =
     (case evalOp m a of
        Inl e \<Rightarrow> Inl e
      | Inr x \<Rightarrow>
          (case evalOp m b of
             Inl e \<Rightarrow> Inl e
           | Inr y \<Rightarrow> (case arith False x y of Inl e \<Rightarrow> Inl e | Inr v \<Rightarrow> Inr (setReg r v m))))"
| "exec rt (ReadCycleCounter r) m =
     Inr (setReg r (I64 (readcyclecounter rt (tscReads m))) (m\<lparr> tscReads := tscReads m + 1 \<rparr>))"
| "exec rt (CallPtr f args) m =
     (case evalOp m f of
        Inr (FnPtr p) \<Rightarrow>
          (case args of
             [a] \<Rightarrow>
               (case evalOp m a of
                  Inr (I64 x) \<Rightarrow>
                    Inr (m\<lparr> tlsOf := handlerAt rt p x (tlsOf m),
                           handlerCalls := handlerCalls m @ [(p, x)] \<rparr>)
                | _ \<Rightarrow> Inl Undefined)
           | _ \<Rightarrow> Inl Undefined)
      | _ \<Rightarrow> Inl Undefined)"
| "exec rt (IfThenElse p a b thenBlock elseBlock) m =
     (case evalOp m a of
        Inl e \<Rightarrow> Inl e
      | Inr x \<Rightarrow>
          (case evalOp m b of
             Inl e \<Rightarrow> Inl e
           | Inr y \<Rightarrow>
               (case evalCmp p x y of
                  Inl e \<Rightarrow> Inl e
                | Inr t \<Rightarrow> (if t then execList rt thenBlock m else execList rt elseBlock m))))"
| "execList rt [] m = Inr m"
| "execList rt (i # rest) m =
     (case exec rt i m of Inl e \<Rightarrow> Inl e | Inr m' \<Rightarrow> execList rt rest m')"




subsection \<open>Library cost file: \<open>writeCost\<close> and \<open>readCost\<close>\<close>

text \<open>
  \<open>operator<<\<close> for \<open>InstructionCost\<close>. A \<open>long\<close> is printed in decimal; an integer type
  is printed as \<open>i\<close> and its width. Printing a null operand, or \<open>add_rec\<close> with fewer than
  two operands, dereferences a missing pointer.
\<close>

fun showNat :: "nat \<Rightarrow> string" where
  "showNat n =
     (if n < 10 then [char_of (48 + n)]
      else showNat (n div 10) @ [char_of (48 + n mod 10)])"

declare showNat.simps [simp del]

definition showInt :: "int \<Rightarrow> string" where
  "showInt i = (if i < 0 then CHR ''-'' # showNat (nat (- i)) else showNat (nat i))"

definition nary :: "string \<Rightarrow> nat \<Rightarrow> error + string \<Rightarrow> error + string" where
  "nary tag n r =
     (case r of
        Inl e \<Rightarrow> Inl e
      | Inr s \<Rightarrow> Inr ((if n > 1 then ''('' else []) @ tag @ s @ (if n > 1 then '')'' else [])))"

definition castExpr :: "string \<Rightarrow> nat \<Rightarrow> error + string \<Rightarrow> error + string" where
  "castExpr tag width r =
     (case r of
        Inl e \<Rightarrow> Inl e
      | Inr s \<Rightarrow> Inr (tag @ s @ '' '' @ ''i'' @ showNat width @ '')''))"

fun printCost :: "InstructionCost \<Rightarrow> error + string"
  and printOperands :: "string \<Rightarrow> InstructionCost list \<Rightarrow> error + string" where
  "printCost (CONST_C v) = Inr (showInt v)"
| "printCost (ARG v) = Inr (''(ARG: '' @ showInt v @ '')'')"
| "printCost (ADD ops) = nary ''+ '' (length ops) (printOperands '' '' ops)"
| "printCost (MUL ops) = nary ''* '' (length ops) (printOperands '' '' ops)"
| "printCost (UDIV a b) =
     (case printCost a of
        Inl e \<Rightarrow> Inl e
      | Inr s \<Rightarrow>
          (case printCost b of
             Inl e \<Rightarrow> Inl e
           | Inr t \<Rightarrow> nary ''/ '' 2 (Inr (s @ '' '' @ t @ '' ''))))"
| "printCost (SMAX ops) = nary ''smax '' (length ops) (printOperands '' '' ops)"
| "printCost (SMIN ops) = nary ''smin '' (length ops) (printOperands '' '' ops)"
| "printCost (UMAX ops) = nary ''umax '' (length ops) (printOperands '' '' ops)"
| "printCost (UMIN ops) = nary ''umin '' (length ops) (printOperands '' '' ops)"
| "printCost (ZERO_EXT w a) = castExpr ''(zext '' w (printCost a)"
| "printCost (SIGN_EXT w a) = castExpr ''(sext '' w (printCost a)"
| "printCost (TRUNC w a) = castExpr ''(trunc '' w (printCost a)"
| "printCost (CALL f ops) =
     (case printOperands '', '' ops of
        Inl e \<Rightarrow> Inl e
      | Inr s \<Rightarrow> Inr (''call_cost('' @ f @ ''('' @ s @ '')) ''))"
| "printCost (ADD_REC_EXPR ops) =
     (case ops of
        a # b # rest \<Rightarrow>
          (case printCost a of
             Inl e \<Rightarrow> Inl e
           | Inr s \<Rightarrow>
               (case printCost b of
                  Inl e \<Rightarrow> Inl e
                | Inr t \<Rightarrow> Inr (''add_rec(start: '' @ s @ '', step: '' @ t @ '')'')))
      | _ \<Rightarrow> Inl Undefined)"
| "printCost UNKNOWN = Inr ''(unknown)''"
| "printCost NullCost = Inl Undefined"
| "printOperands sep [] = Inr []"
| "printOperands sep (op # ops) =
     (case printCost op of
        Inl e \<Rightarrow> Inl e
      | Inr s \<Rightarrow>
          (case printOperands sep ops of
             Inl e \<Rightarrow> Inl e
           | Inr t \<Rightarrow> Inr (s @ sep @ t)))"

text \<open>
  \<open>writeCost\<close>. The file system maps a path to the characters of the file; opening the
  output file is taken to succeed. A function is a declaration when it has no block.
  \<open>simplifyCost\<close> is the host's simplification through scalar evolution, a parameter: it
  may fail its assertion, return null (\<open>None\<close>) or a cost. \<open>costLine\<close> is the body of the
  loop over the functions of the module: the characters one function adds to the file.
  \<open>numCost\<close> is an \<open>int\<close>. The line is printed from \<open>*funcCost\<close>, the stored cost.
\<close>

definition costLine ::
  "(string \<Rightarrow> InstructionCost \<Rightarrow> error + InstructionCost option) \<Rightarrow> (string \<rightharpoonup> FuncInfo)
     \<Rightarrow> Function \<Rightarrow> error + string" where
  "costLine simplifyCost info F =
     (if blocks F = [] then Inr []
      else (case info (fname F) of
              None \<Rightarrow> Inr []
            | Some found \<Rightarrow>
                (case (case cost found of
                         None \<Rightarrow> Inr None
                       | Some funcCost \<Rightarrow> simplifyCost (fname F) funcCost) of
                   Inl e \<Rightarrow> Inl e
                 | Inr simplifiedCost \<Rightarrow>
                     (let numCost = to_int (getConstCostWithoutAssert simplifiedCost)
                      in if numCost > 0
                         then (case cost found of
                                 None \<Rightarrow> Inl Undefined
                               | Some funcCost \<Rightarrow>
                                   (case printCost funcCost of
                                      Inl e \<Rightarrow> Inl e
                                    | Inr s \<Rightarrow> Inr (fname F @ '':'' @ s @ [CHR 0x0A])))
                         else Inr []))))"

fun costLines ::
  "(string \<Rightarrow> InstructionCost \<Rightarrow> error + InstructionCost option) \<Rightarrow> (string \<rightharpoonup> FuncInfo)
     \<Rightarrow> Function list \<Rightarrow> error + string" where
  "costLines simplifyCost info [] = Inr []"
| "costLines simplifyCost info (F # M) =
     (case costLine simplifyCost info F of
        Inl e \<Rightarrow> Inl e
      | Inr l \<Rightarrow>
          (case costLines simplifyCost info M of
             Inl e \<Rightarrow> Inl e
           | Inr ls \<Rightarrow> Inr (l @ ls)))"

definition writeCost ::
  "(string \<Rightarrow> InstructionCost \<Rightarrow> error + InstructionCost option) \<Rightarrow> string \<Rightarrow> Function list
     \<Rightarrow> (string \<rightharpoonup> FuncInfo) \<Rightarrow> (string \<rightharpoonup> string) \<Rightarrow> error + (string \<rightharpoonup> string)" where
  "writeCost simplifyCost OutCostFilePath M info fs =
     (if OutCostFilePath = [] then Inr fs
      else (case costLines simplifyCost info M of
              Inl e \<Rightarrow> Inl e
            | Inr ls \<Rightarrow> Inr (fs(OutCostFilePath \<mapsto> ''Cost File'' @ [CHR 0x0A] @ ls))))"

text \<open>
  \<open>std::ifstream\<close>: the characters not yet read, \<open>eofbit\<close> and \<open>failbit\<close>.
  \<open>getline(buf, n)\<close> extracts nothing from a stream that is not good and sets \<open>failbit\<close>;
  otherwise it stores characters until the end of the file (\<open>eofbit\<close>), a newline (which
  it extracts and drops) or \<open>n - 1\<close> stored characters (\<open>failbit\<close>), tested in this
  order, and sets \<open>failbit\<close> when it extracted nothing. It returns the characters stored.
\<close>

record istream =
  content :: string
  eofbit :: bool
  failbit :: bool

datatype stop = AtEof | AtDelim | AtCount

fun extractChars :: "nat \<Rightarrow> string \<Rightarrow> string \<times> string \<times> stop" where
  "extractChars k [] = ([], [], AtEof)"
| "extractChars k (c # cs) =
     (if c = CHR 0x0A then ([], cs, AtDelim)
      else if k = 0 then ([], c # cs, AtCount)
      else (case extractChars (k - 1) cs of (l, r, st) \<Rightarrow> (c # l, r, st)))"

definition getline :: "nat \<Rightarrow> istream \<Rightarrow> string \<times> istream" where
  "getline n fin =
     (if eofbit fin \<or> failbit fin then ([], fin\<lparr> failbit := True \<rparr>)
      else (case extractChars (n - 1) (content fin) of
              (l, r, st) \<Rightarrow>
                (l, \<lparr> content = r,
                      eofbit = (st = AtEof),
                      failbit = (st = AtCount \<or> (st = AtEof \<and> l = [])) \<rparr>)))"

text \<open>
  A character buffer read as a C string ends at its first null character. \<open>strtok\<close>
  skips the delimiters at the start, returns null when nothing is left, and otherwise the
  token up to the next delimiter together with the position it continues from. \<open>atoi\<close>
  skips white space, reads a sign and decimal digits; a value outside \<open>int\<close> is undefined,
  and so is a null argument.
\<close>

definition cstr :: "string \<Rightarrow> string" where
  "cstr buf = takeWhile (\<lambda>c. c \<noteq> CHR 0x00) buf"

definition strtok :: "char \<Rightarrow> string \<Rightarrow> (string \<times> string) option" where
  "strtok delim s =
     (let s1 = dropWhile (\<lambda>c. c = delim) s
      in if s1 = [] then None
         else Some (takeWhile (\<lambda>c. c \<noteq> delim) s1, drop 1 (dropWhile (\<lambda>c. c \<noteq> delim) s1)))"

definition isspace :: "char \<Rightarrow> bool" where
  "isspace c = (c \<in> {CHR '' '', CHR 0x09, CHR 0x0A, CHR 0x0B, CHR 0x0C, CHR 0x0D})"

definition isdigit :: "char \<Rightarrow> bool" where
  "isdigit c = (48 \<le> (of_char c :: nat) \<and> (of_char c :: nat) \<le> 57)"

definition atoi :: "string \<Rightarrow> error + int" where
  "atoi s =
     (let s1 = dropWhile isspace s;
          negative = (s1 \<noteq> [] \<and> hd s1 = CHR ''-'');
          s2 = (if s1 \<noteq> [] \<and> (hd s1 = CHR ''-'' \<or> hd s1 = CHR ''+'') then tl s1 else s1);
          v = foldl (\<lambda>a c. 10 * a + (int (of_char c) - 48)) 0 (takeWhile isdigit s2);
          r = (if negative then - v else v)
      in if - (2 ^ 31) \<le> r \<and> r < 2 ^ 31 then Inr r else Inl Undefined)"

text \<open>
  The loop of \<open>readCost\<close>, \<open>while (!fin.eof())\<close>. After a line of 128 characters or more
  \<open>failbit\<close> is set and \<open>eofbit\<close> never is, so the loop is given fuel: \<open>None\<close> is a run
  that has not returned after \<open>fuel\<close> iterations.
\<close>

fun readLoop ::
  "nat \<Rightarrow> istream \<Rightarrow> bool \<Rightarrow> (string \<rightharpoonup> InstructionCost)
     \<Rightarrow> (error + bool \<times> (string \<rightharpoonup> InstructionCost)) option" where
  "readLoop 0 fin first lib = None"
| "readLoop (Suc fuel) fin first lib =
     (if eofbit fin then Some (Inr (True, lib))
      else (case getline 128 fin of
              (buf, fin') \<Rightarrow>
                (let str = cstr buf
                 in if first
                    then (if str \<noteq> ''Cost File'' then Some (Inr (False, lib))
                          else readLoop fuel fin' False lib)
                    else if CHR '':'' \<in> set str
                    then (case strtok CHR '':'' str of
                            None \<Rightarrow> readLoop fuel fin' False lib
                          | Some (token1, saved) \<Rightarrow>
                              (case strtok CHR '':'' saved of
                                 None \<Rightarrow> Some (Inl Undefined)
                               | Some (token2, saved') \<Rightarrow>
                                   (case atoi token2 of
                                      Inl e \<Rightarrow> Some (Inl e)
                                    | Inr iCost \<Rightarrow>
                                        readLoop fuel fin' False
                                          (lib(token1 \<mapsto> CONST_C iCost)))))
                    else readLoop fuel fin' False lib)))"

definition readCost ::
  "nat \<Rightarrow> string \<Rightarrow> (string \<rightharpoonup> string) \<Rightarrow> (string \<rightharpoonup> InstructionCost)
     \<Rightarrow> (error + bool \<times> (string \<rightharpoonup> InstructionCost)) option" where
  "readCost fuel InCostFilePath fs lib =
     (if InCostFilePath = [] then Some (Inr (True, lib))
      else (case fs InCostFilePath of
              None \<Rightarrow> Some (Inr (False, lib))
            | Some chars \<Rightarrow>
                readLoop fuel \<lparr> content = chars, eofbit = False, failbit = False \<rparr> True lib))"

text \<open>
  A name and a constant whose line \<open>name:constant\<close> is read back as written: the name is
  not empty and holds no colon, newline or null character, the constant is a non-negative
  \<open>int\<close>, and the line fits the buffer of 128 characters.
\<close>

definition fitsLine :: "string \<Rightarrow> int \<Rightarrow> bool" where
  "fitsLine name n =
     (name \<noteq> [] \<and> CHR '':'' \<notin> set name \<and> CHR 0x0A \<notin> set name \<and> CHR 0x00 \<notin> set name \<and>
      0 \<le> n \<and> n < 2 ^ 31 \<and> length name + 1 + length (showInt n) \<le> 127)"


subsection \<open>Scalar-evolution bridge: \<open>scevToCost\<close> and \<open>costToSCEV\<close>\<close>

text \<open>
  The host's \<open>SCEV\<close> nodes, by \<open>getSCEVType()\<close>. A type is the bit width of its effective
  type (\<open>getEffectiveSCEVType\<close>); a constant carries its width and its signed value; the
  value of an \<open>scUnknown\<close> is a function argument with its number, or something else.
\<close>

datatype llvmValue = Argument nat nat | OtherValue nat

datatype SCEV =
    scConstant nat int
  | scTruncate nat SCEV
  | scZeroExtend nat SCEV
  | scSignExtend nat SCEV
  | scAddExpr "SCEV list"
  | scMulExpr "SCEV list"
  | scUDivExpr SCEV SCEV
  | scAddRecExpr "SCEV list"
  | scUMaxExpr "SCEV list"
  | scSMaxExpr "SCEV list"
  | scUMinExpr "SCEV list"
  | scSMinExpr "SCEV list"
  | scUnknown llvmValue
  | scCouldNotCompute

text \<open>
  \<open>scev->getType()\<close>: an nary node has the type of its first operand, a division that of
  its right operand.
\<close>

fun getType :: "SCEV \<Rightarrow> nat" where
  "getType (scConstant w v) = w"
| "getType (scTruncate w a) = w"
| "getType (scZeroExtend w a) = w"
| "getType (scSignExtend w a) = w"
| "getType (scAddExpr ops) = (case ops of [] \<Rightarrow> 0 | a # rest \<Rightarrow> getType a)"
| "getType (scMulExpr ops) = (case ops of [] \<Rightarrow> 0 | a # rest \<Rightarrow> getType a)"
| "getType (scUDivExpr l r) = getType r"
| "getType (scAddRecExpr ops) = (case ops of [] \<Rightarrow> 0 | a # rest \<Rightarrow> getType a)"
| "getType (scUMaxExpr ops) = (case ops of [] \<Rightarrow> 0 | a # rest \<Rightarrow> getType a)"
| "getType (scSMaxExpr ops) = (case ops of [] \<Rightarrow> 0 | a # rest \<Rightarrow> getType a)"
| "getType (scUMinExpr ops) = (case ops of [] \<Rightarrow> 0 | a # rest \<Rightarrow> getType a)"
| "getType (scSMinExpr ops) = (case ops of [] \<Rightarrow> 0 | a # rest \<Rightarrow> getType a)"
| "getType (scUnknown (Argument argNo w)) = w"
| "getType (scUnknown (OtherValue w)) = w"
| "getType scCouldNotCompute = 0"

text \<open>
  \<open>scevToCost\<close>. The value of a constant of at most 64 bits goes through
  \<open>int intVal = CI->getSExtValue()\<close>. \<open>scUMinExpr\<close> is not among the cases and falls to
  the default; the code for \<open>scAddRecExpr\<close> is compiled out.
\<close>

fun scevToCost :: "SCEV \<Rightarrow> InstructionCost" where
  "scevToCost (scConstant w v) = (if w \<le> 64 then CONST_C (to_int v) else UNKNOWN)"
| "scevToCost (scAddExpr ops) = ADD (map scevToCost ops)"
| "scevToCost (scMulExpr ops) = MUL (map scevToCost ops)"
| "scevToCost (scSMaxExpr ops) = SMAX (map scevToCost ops)"
| "scevToCost (scUMaxExpr ops) = UMAX (map scevToCost ops)"
| "scevToCost (scSMinExpr ops) = SMIN (map scevToCost ops)"
| "scevToCost (scUDivExpr l r) = UDIV (scevToCost l) (scevToCost r)"
| "scevToCost (scUnknown (Argument argNo w)) = ARG (int argNo)"
| "scevToCost (scUnknown (OtherValue w)) = UNKNOWN"
| "scevToCost (scAddRecExpr ops) = UNKNOWN"
| "scevToCost (scZeroExtend w a) = ZERO_EXT w (scevToCost a)"
| "scevToCost (scSignExtend w a) = SIGN_EXT w (scevToCost a)"
| "scevToCost (scTruncate w a) = TRUNC w (scevToCost a)"
| "scevToCost scCouldNotCompute = UNKNOWN"
| "scevToCost (scUMinExpr ops) = UNKNOWN"

text \<open>
  The constructors of \<open>ScalarEvolution\<close> that \<open>costToSCEV\<close> calls. Each builds its node
  after the checks the host asserts: an extension goes to a wider type, a truncation to
  a narrower one, the operands of an nary node or a division are there and have one
  type. An nary constructor given one operand returns it. The folding the host does on
  top of this is not modelled.
\<close>

definition getWiderType :: "nat \<Rightarrow> nat \<Rightarrow> nat" where
  "getWiderType T1 T2 = (if T1 > T2 then T1 else T2)"

definition getZeroExtendExpr :: "SCEV \<Rightarrow> nat \<Rightarrow> error + SCEV" where
  "getZeroExtendExpr a ty = (if getType a < ty then Inr (scZeroExtend ty a) else Inl AssertFail)"

definition getSignExtendExpr :: "SCEV \<Rightarrow> nat \<Rightarrow> error + SCEV" where
  "getSignExtendExpr a ty = (if getType a < ty then Inr (scSignExtend ty a) else Inl AssertFail)"

definition getTruncateExpr :: "SCEV \<Rightarrow> nat \<Rightarrow> error + SCEV" where
  "getTruncateExpr a ty = (if getType a > ty then Inr (scTruncate ty a) else Inl AssertFail)"

definition getNAryExpr :: "(SCEV list \<Rightarrow> SCEV) \<Rightarrow> SCEV list \<Rightarrow> error + SCEV" where
  "getNAryExpr node ops =
     (case ops of
        [] \<Rightarrow> Inl AssertFail
      | [a] \<Rightarrow> Inr a
      | a # rest \<Rightarrow> (if list_all (\<lambda>b. getType b = getType a) rest then Inr (node ops)
                      else Inl AssertFail))"

definition getUDivExpr :: "SCEV \<Rightarrow> SCEV \<Rightarrow> error + SCEV" where
  "getUDivExpr l r = (if getType l = getType r then Inr (scUDivExpr l r) else Inl AssertFail)"

text \<open>
  The result of one call of \<open>costToSCEV\<close>: \<open>None\<close> is a call that has not returned,
  \<open>Some (Inr None)\<close> a null pointer. The loops over the operands work on the results of
  the calls for the operands, in order.

  \<open>widestOf\<close> is the first loop of the \<open>ADD\<close> and \<open>MUL\<close> cases: it returns the first
  result that is null or \<open>CouldNotCompute\<close>, and the widest effective type otherwise.
  \<open>widenAll\<close> is their second loop: an operand whose type is not the widest one is
  zero-extended to it.
\<close>

type_synonym scevResult = "(error + SCEV option) option"

fun widestOf :: "nat option \<Rightarrow> scevResult list \<Rightarrow> scevResult + nat option" where
  "widestOf widestType [] = Inr widestType"
| "widestOf widestType (r # rs) =
     (case r of
        None \<Rightarrow> Inl None
      | Some (Inl e) \<Rightarrow> Inl (Some (Inl e))
      | Some (Inr None) \<Rightarrow> Inl (Some (Inr None))
      | Some (Inr (Some scev)) \<Rightarrow>
          (if scev = scCouldNotCompute then Inl (Some (Inr (Some scev)))
           else widestOf
                  (case widestType of
                     Some w \<Rightarrow> Some (if w \<noteq> getType scev then getWiderType w (getType scev) else w)
                   | None \<Rightarrow> Some (getType scev))
                  rs))"

fun widenAll :: "nat \<Rightarrow> scevResult list \<Rightarrow> error + SCEV list" where
  "widenAll widestType [] = Inr []"
| "widenAll widestType (r # rs) =
     (case r of
        Some (Inr (Some scev)) \<Rightarrow>
          (case (if widestType \<noteq> getType scev then getZeroExtendExpr scev widestType else Inr scev) of
             Inl e \<Rightarrow> Inl e
           | Inr scev' \<Rightarrow>
               (case widenAll widestType rs of
                  Inl e \<Rightarrow> Inl e
                | Inr ops \<Rightarrow> Inr (scev' # ops)))
      | _ \<Rightarrow> Inl Undefined)"

definition addOperands :: "scevResult list \<Rightarrow> scevResult" where
  "addOperands rs =
     (case widestOf None rs of
        Inl r \<Rightarrow> r
      | Inr None \<Rightarrow> Some (Inr None)
      | Inr (Some widestType) \<Rightarrow>
          (case widenAll widestType rs of
             Inl e \<Rightarrow> Some (Inl e)
           | Inr ops \<Rightarrow>
               (if length ops \<ge> 2
                then (case getNAryExpr scAddExpr ops of Inl e \<Rightarrow> Some (Inl e) | Inr scev \<Rightarrow> Some (Inr (Some scev)))
                else if length ops = 1 then Some (Inr (Some (ops ! 0)))
                else Some (Inr None))))"

definition mulOperands :: "scevResult list \<Rightarrow> scevResult" where
  "mulOperands rs =
     (case widestOf None rs of
        Inl r \<Rightarrow> r
      | Inr widestType \<Rightarrow>
          (case (case widestType of None \<Rightarrow> Inr [] | Some w \<Rightarrow> widenAll w rs) of
             Inl e \<Rightarrow> Some (Inl e)
           | Inr ops \<Rightarrow>
               (case getNAryExpr scMulExpr ops of
                  Inl e \<Rightarrow> Some (Inl e)
                | Inr scev \<Rightarrow> Some (Inr (Some scev)))))"

text \<open>
  The loop of the \<open>SMAX\<close>, \<open>SMIN\<close>, \<open>UMAX\<close> and \<open>UMIN\<close> cases. \<open>prev\<close> is set by the
  first operand and never changed; an operand of another effective type ends the
  conversion with \<open>CouldNotCompute\<close>. Nothing is widened.
\<close>

fun sameTypeOperands :: "SCEV option \<Rightarrow> scevResult list \<Rightarrow> scevResult + SCEV list" where
  "sameTypeOperands prev [] = Inr []"
| "sameTypeOperands prev (r # rs) =
     (case r of
        None \<Rightarrow> Inl None
      | Some (Inl e) \<Rightarrow> Inl (Some (Inl e))
      | Some (Inr None) \<Rightarrow> Inl (Some (Inl AssertFail))
      | Some (Inr (Some scev)) \<Rightarrow>
          (if scev = scCouldNotCompute then Inl (Some (Inr (Some scev)))
           else (case prev of
                   Some p \<Rightarrow>
                     (if getType p \<noteq> getType scev then Inl (Some (Inr (Some scCouldNotCompute)))
                      else (case sameTypeOperands prev rs of
                              Inl x \<Rightarrow> Inl x
                            | Inr ops \<Rightarrow> Inr (scev # ops)))
                 | None \<Rightarrow>
                     (case sameTypeOperands (Some scev) rs of
                        Inl x \<Rightarrow> Inl x
                      | Inr ops \<Rightarrow> Inr (scev # ops)))))"

definition minMaxOperands :: "(SCEV list \<Rightarrow> SCEV) \<Rightarrow> scevResult list \<Rightarrow> scevResult" where
  "minMaxOperands node rs =
     (case sameTypeOperands None rs of
        Inl r \<Rightarrow> r
      | Inr ops \<Rightarrow>
          (case getNAryExpr node ops of
             Inl e \<Rightarrow> Some (Inl e)
           | Inr scev \<Rightarrow> Some (Inr (Some scev))))"

text \<open>
  The \<open>UDIV\<close> case. \<open>SE->getWiderType(leftType, rightType)\<close> is a type pointer and never
  null, so whenever the types differ it is the left operand that is extended to the
  type of the right one.
\<close>

definition udivOperands :: "scevResult \<Rightarrow> scevResult \<Rightarrow> scevResult" where
  "udivOperands left right =
     (case left of
        None \<Rightarrow> None
      | Some (Inl e) \<Rightarrow> Some (Inl e)
      | Some (Inr l) \<Rightarrow>
          (case right of
             None \<Rightarrow> None
           | Some (Inl e) \<Rightarrow> Some (Inl e)
           | Some (Inr r) \<Rightarrow>
               (if l = Some scCouldNotCompute \<or> r = Some scCouldNotCompute
                then Some (Inr (Some scCouldNotCompute))
                else (case (l, r) of
                        (Some leftScev, Some rightScev) \<Rightarrow>
                          (case (if getType leftScev \<noteq> getType rightScev
                                 then getZeroExtendExpr leftScev (getType rightScev)
                                 else Inr leftScev) of
                             Inl e \<Rightarrow> Some (Inl e)
                           | Inr leftScev' \<Rightarrow>
                               (case getUDivExpr leftScev' rightScev of
                                  Inl e \<Rightarrow> Some (Inl e)
                                | Inr scev \<Rightarrow> Some (Inr (Some scev))))
                      | _ \<Rightarrow> Some (Inl Undefined)))))"

text \<open>The cast cases: what is done with the converted operand.\<close>

definition castOperand :: "(SCEV \<Rightarrow> error + SCEV) \<Rightarrow> scevResult \<Rightarrow> scevResult" where
  "castOperand build r =
     (case r of
        None \<Rightarrow> None
      | Some (Inl e) \<Rightarrow> Some (Inl e)
      | Some (Inr None) \<Rightarrow> Some (Inl Undefined)
      | Some (Inr (Some a)) \<Rightarrow>
          (if a = scCouldNotCompute then Some (Inr (Some scCouldNotCompute))
           else (case build a of Inl e \<Rightarrow> Some (Inl e) | Inr scev \<Rightarrow> Some (Inr (Some scev)))))"

text \<open>The arguments of a \<open>CALL\<close>, converted in order; a null or uncomputable one is kept.\<close>

fun argumentSCEVs :: "scevResult list \<Rightarrow> (error + SCEV option list) option" where
  "argumentSCEVs [] = Some (Inr [])"
| "argumentSCEVs (r # rs) =
     (case r of
        None \<Rightarrow> None
      | Some (Inl e) \<Rightarrow> Some (Inl e)
      | Some (Inr scev) \<Rightarrow>
          (case argumentSCEVs rs of
             None \<Rightarrow> None
           | Some (Inl e) \<Rightarrow> Some (Inl e)
           | Some (Inr scevs) \<Rightarrow> Some (Inr (scev # scevs))))"

text \<open>
  \<open>costToSCEV\<close>. A null cost is \<open>NullCost\<close>. An \<open>ARG\<close> whose index is not below
  \<open>args.size()\<close> reads \<open>args[cost->_value]\<close> for the message printed before the assertion.
  The \<open>CALL\<close> case continues with the cost stored for the callee, which may call again,
  so every \<open>CALL\<close> takes one unit of fuel.
\<close>

function costToSCEV ::
  "nat \<Rightarrow> tables \<Rightarrow> InstructionCost \<Rightarrow> SCEV option list \<Rightarrow> scevResult" where
  "costToSCEV fuel t NullCost args = Some (Inr None)"
| "costToSCEV fuel t (CONST_C v) args = Some (Inr (Some (scConstant 64 v)))"
| "costToSCEV fuel t (ARG v) args =
     (if v < 0 \<or> v \<ge> int (length args) then Some (Inl Undefined)
      else Some (Inr (args ! nat v)))"
| "costToSCEV fuel t UNKNOWN args = Some (Inr (Some scCouldNotCompute))"
| "costToSCEV fuel t (ADD ops) args = addOperands (map (\<lambda>op. costToSCEV fuel t op args) ops)"
| "costToSCEV fuel t (MUL ops) args = mulOperands (map (\<lambda>op. costToSCEV fuel t op args) ops)"
| "costToSCEV fuel t (UDIV a b) args =
     udivOperands (costToSCEV fuel t a args) (costToSCEV fuel t b args)"
| "costToSCEV fuel t (SMAX ops) args =
     minMaxOperands scSMaxExpr (map (\<lambda>op. costToSCEV fuel t op args) ops)"
| "costToSCEV fuel t (SMIN ops) args =
     minMaxOperands scSMinExpr (map (\<lambda>op. costToSCEV fuel t op args) ops)"
| "costToSCEV fuel t (UMAX ops) args =
     minMaxOperands scUMaxExpr (map (\<lambda>op. costToSCEV fuel t op args) ops)"
| "costToSCEV fuel t (UMIN ops) args =
     minMaxOperands scUMinExpr (map (\<lambda>op. costToSCEV fuel t op args) ops)"
| "costToSCEV fuel t (ZERO_EXT w a) args =
     castOperand (\<lambda>scev. if getType scev < w then getZeroExtendExpr scev w else Inr scev)
       (costToSCEV fuel t a args)"
| "costToSCEV fuel t (SIGN_EXT w a) args =
     castOperand (\<lambda>scev. getSignExtendExpr scev w) (costToSCEV fuel t a args)"
| "costToSCEV fuel t (TRUNC w a) args =
     castOperand (\<lambda>scev. getTruncateExpr scev w) (costToSCEV fuel t a args)"
| "costToSCEV fuel t (ADD_REC_EXPR ops) args = Some (Inr (Some scCouldNotCompute))"
| "costToSCEV 0 t (CALL f ops) args = None"
| "costToSCEV (Suc fuel) t (CALL f ops) args =
     (case argumentSCEVs (map (\<lambda>op. costToSCEV (Suc fuel) t op args) ops) of
        None \<Rightarrow> None
      | Some (Inl e) \<Rightarrow> Some (Inl e)
      | Some (Inr scevs) \<Rightarrow>
          (case computedFuncInfo t f of
             Some found \<Rightarrow>
               costToSCEV fuel t (case cost found of None \<Rightarrow> NullCost | Some fCost \<Rightarrow> fCost) scevs
           | None \<Rightarrow>
               (case libraryInstructionCosts t f of
                  Some fCost \<Rightarrow> costToSCEV fuel t fCost scevs
                | None \<Rightarrow> Some (Inr (Some (scConstant 64 0))))))"
  by pat_completeness auto
termination
  by (relation "(\<lambda>(fuel, t, c, args). fuel) <*mlex*> measure (\<lambda>(fuel, t, c, args). size c)")
     (auto simp: mlex_prod_def wf_mlex less_Suc_eq_le size_list_estimation')

text \<open>
  Equality up to widening: zero extensions are dropped and the width of a constant is
  forgotten.
\<close>

fun unwiden :: "SCEV \<Rightarrow> SCEV" where
  "unwiden (scConstant w v) = scConstant 0 v"
| "unwiden (scZeroExtend w a) = unwiden a"
| "unwiden (scTruncate w a) = scTruncate w (unwiden a)"
| "unwiden (scSignExtend w a) = scSignExtend w (unwiden a)"
| "unwiden (scAddExpr ops) = scAddExpr (map unwiden ops)"
| "unwiden (scMulExpr ops) = scMulExpr (map unwiden ops)"
| "unwiden (scUDivExpr l r) = scUDivExpr (unwiden l) (unwiden r)"
| "unwiden (scAddRecExpr ops) = scAddRecExpr (map unwiden ops)"
| "unwiden (scUMaxExpr ops) = scUMaxExpr (map unwiden ops)"
| "unwiden (scSMaxExpr ops) = scSMaxExpr (map unwiden ops)"
| "unwiden (scUMinExpr ops) = scUMinExpr (map unwiden ops)"
| "unwiden (scSMinExpr ops) = scSMinExpr (map unwiden ops)"
| "unwiden (scUnknown v) = scUnknown v"
| "unwiden scCouldNotCompute = scCouldNotCompute"

text \<open>
  The expressions for which the round trip is shown: constants of at most 64 bits whose
  value is an \<open>int\<close>, arguments that the binding maps to themselves, sums and products of
  two operands or more, and zero extensions, of such expressions.
\<close>

fun sumsAndProducts :: "SCEV option list \<Rightarrow> SCEV \<Rightarrow> bool" where
  "sumsAndProducts args (scConstant w v) = (w \<le> 64 \<and> - (2 ^ 31) \<le> v \<and> v < 2 ^ 31)"
| "sumsAndProducts args (scUnknown (Argument argNo w)) =
     (argNo < length args \<and> args ! argNo = Some (scUnknown (Argument argNo w)))"
| "sumsAndProducts args (scAddExpr ops) = (2 \<le> length ops \<and> list_all (sumsAndProducts args) ops)"
| "sumsAndProducts args (scMulExpr ops) = (2 \<le> length ops \<and> list_all (sumsAndProducts args) ops)"
| "sumsAndProducts args (scZeroExtend w a) = sumsAndProducts args a"
| "sumsAndProducts args _ = False"


subsection \<open>Branch container: \<open>BranchLCC::getCostForPC\<close> and \<open>BranchLCC::getCostForIC\<close>\<close>

text \<open>
  The pass state these methods read and write: the map \<open>directBranch\<close>, keyed by the
  name of the dominator block, the two counters of rule 2, and everything else the child
  containers touch (\<open>others\<close>, the instrumentation they record). The children of a branch
  container are containers of any kind; their virtual methods are parameters, a child is
  named by a number. A null cost pointer is \<open>None\<close>.

  \<open>branchProb * numBranchCost\<close> is a product of a \<open>double\<close> and a \<open>long\<close>; the sum is kept
  in a \<open>long double\<close> and converted with \<open>(long)\<close>. This arithmetic is the host's and a
  parameter. A \<open>long\<close> is an \<open>int\<close> here: the costs stay far from its bounds.
\<close>

record 'w passState =
  directBranch :: "string \<rightharpoonup> InstructionCost"
  applyrule2 :: int
  rule2savedInst :: int
  others :: 'w




















text \<open>
  What the builder is shown to maintain when no fence is defined: no function is recorded
  as containing a fence, every block of the function has one unit container that covers
  it, and no stored edge carries the fence flag.
\<close>

definition noFence :: "tables \<Rightarrow> bool" where
  "noFence t = (fenceList t = [] \<and> (\<forall>f fi. computedFuncInfo t f = Some fi \<longrightarrow> \<not> hasFence fi))"

definition mapInv :: "BasicBlock set \<Rightarrow> builder \<Rightarrow> bool" where
  "mapInv S b = (\<forall>name us. bbToContainersMap b name = Some us \<longrightarrow>
      (\<exists>bb \<in> S. bbName bb = name \<and> (\<exists>id'. us = [wholeBlockLCC id' bb])))"

definition edgesNoFence :: "builder \<Rightarrow> bool" where
  "edgesNoFence b = (\<forall>k v. edgeInfo b k = Some v \<longrightarrow> v = False)"

subsection \<open>Concrete inputs used by the witnesses\<close>

text \<open>
  A small configuration and tables: a library with one entry, one internal function with
  a summarized cost, one thread entry.
\<close>

definition example_config :: config where
  "example_config = \<lparr> InstGranularity = OPTIMIZE_HEURISTIC_WITH_TL, ClockType = INSTANTANEOUS,
      MemOpsCost = 1, TargetInterval = 5000, TargetIntervalInCycles = 5000,
      CommitInterval = 1000, ExtLibFuncCost = 100 \<rparr>"

definition example_tables :: tables where
  "example_tables = \<lparr> libraryInstructionCosts = [''memcpy'' \<mapsto> CONST_C 10],
      fenceList = [], threadFunc = [''main''],
      computedFuncInfo = [''helper'' \<mapsto> \<lparr> hasFence = False, cost = Some (CONST_C 7) \<rparr>],
      CGOrderedFunc = [''helper'', ''main''] \<rparr>"

text \<open>A stand-in for the host's simplifier: it folds a sum of constants.\<close>

fun constOperands :: "InstructionCost list \<Rightarrow> int list option" where
  "constOperands [] = Some []"
| "constOperands (CONST_C v # rest) = map_option ((#) v) (constOperands rest)"
| "constOperands (_ # rest) = None"

definition example_simplify :: "InstructionCost \<Rightarrow> InstructionCost option" where
  "example_simplify e =
     (case e of
        ADD ops \<Rightarrow> (case constOperands ops of Some vs \<Rightarrow> Some (CONST_C (sum_list vs)) | None \<Rightarrow> None)
      | _ \<Rightarrow> Some e)"


text \<open>
  The predictive configuration with its fences and an empty library table, and a block
  that takes a lock.
\<close>

definition example_pc_config :: config where
  "example_pc_config = example_config \<lparr> ClockType := PREDICTIVE \<rparr>"

definition example_pc_tables :: tables where
  "example_pc_tables = \<lparr> libraryInstructionCosts = Map.empty,
      fenceList = defineFences example_pc_config [], threadFunc = [''main''],
      computedFuncInfo = Map.empty, CGOrderedFunc = [''main''] \<rparr>"

definition example_lock_block :: BasicBlock where
  "example_lock_block = \<lparr> bbName = ''entry'',
      insts = [CallInst (Some ''pthread_mutex_lock''), OtherInst, TermInst 0],
      preds = [], succs = [] \<rparr>"

definition empty_builder :: builder where
  "empty_builder = \<lparr> lccIDGen = 0, bbToContainersMap = Map.empty, globalOuterLCCList = [],
      edgeInfo = Map.empty, errs = [] \<rparr>"


text \<open>A function of two blocks whose entry block takes a lock.\<close>

definition example_function :: Function where
  "example_function = \<lparr> fname = ''worker'', blocks =
      [\<lparr> bbName = ''entry'',
         insts = [CallInst (Some ''pthread_mutex_lock''), OtherInst, TermInst 1],
         preds = [], succs = [''exit''] \<rparr>,
       \<lparr> bbName = ''exit'', insts = [PHINode, LoadInst, TermInst 0],
         preds = [''entry''], succs = [] \<rparr>] \<rparr>"


text \<open>
  A host for five containers \<open>1 .. 5\<close>: the path rule joins 1 and 2 into 12, the branch
  rule then joins 12, the branches 3 and 4 and the post-dominator 5 into 100.
\<close>

definition example_host :: "(nat, unit) host" where
  "example_host = \<lparr>
     matchPath = (\<lambda>g c. Inr (if c = 1 then Some (2, 12, g) else None)),
     matchBranch = (\<lambda>g c. Inr (if c = 12 then Some (5, [3, 4], 100, g) else None)),
     matchLoop = (\<lambda>g c. Inr None) \<rparr>"

definition example_reducer :: "(nat, unit) reducer" where
  "example_reducer = \<lparr> lccGraph = (), outerLCCs = [1, 2, 3, 4, 5] \<rparr>"


text \<open>
  A loop whose block \<open>for.body\<close> is header and latch, with one unit container ending at
  instruction 3, scheduled with body cost 200 in both maps; a transformation that fails.
\<close>

definition example_loop :: Loop where
  "example_loop = \<lparr> loopHeader = ''for.body'', loopLatch = Some ''for.body'',
      hasInductionVariable = True \<rparr>"

definition example_loopPass :: "unit loopPass" where
  "example_loopPass = \<lparr> selfLoop = [''for.body'' \<mapsto> CONST_C 200],
      seseLoop = [''for.body'' \<mapsto> CONST_C 200],
      containersOf = [''for.body'' \<mapsto> [0]],
      unitLCCs = [0 \<mapsto> \<lparr> lccID = 0, currentBlock = ''for.body'', firstInst = Some 1,
                            lastInst = Some 3, isExitLCC = False \<rparr>],
      unitInstrs = (\<lambda>u. \<lparr> toBeInstrumented = False, instrInfo = Map.empty \<rparr>),
      self_loop_transform = 0, generic_loop_transform = 0, irWorld = () \<rparr>"

definition example_failing_transform ::
  "Loop \<Rightarrow> int \<Rightarrow> int \<Rightarrow> unit loopPass \<Rightarrow> error + (string option \<times> unit loopPass)" where
  "example_failing_transform L iterations numLoopCost s = Inr (None, s)"











text \<open>
  A module of a defined function whose stored cost is the constant 7, a declaration, and
  a defined function whose stored cost is its first argument.
\<close>

definition example_block :: BasicBlock where
  "example_block = \<lparr> bbName = ''entry'', insts = [OtherInst, TermInst 0], preds = [], succs = [] \<rparr>"

definition example_module :: "Function list" where
  "example_module =
     [\<lparr> fname = ''helper'', blocks = [example_block] \<rparr>,
      \<lparr> fname = ''printf'', blocks = [] \<rparr>,
      \<lparr> fname = ''scale'', blocks = [example_block] \<rparr>]"

definition example_info :: "string \<rightharpoonup> FuncInfo" where
  "example_info =
     [''helper'' \<mapsto> \<lparr> hasFence = False, cost = Some (CONST_C 7) \<rparr>,
      ''scale'' \<mapsto> \<lparr> hasFence = False, cost = Some (ARG 0) \<rparr>]"

definition example_simplifyCost :: "string \<Rightarrow> InstructionCost \<Rightarrow> error + InstructionCost option" where
  "example_simplifyCost F e = Inr (example_simplify e)"









section \<open>Properties\<close>

subsection \<open>Arithmetic helpers\<close>

lemma to_int_id: "- (2 ^ 31) \<le> v \<Longrightarrow> v < 2 ^ 31 \<Longrightarrow> to_int v = v"
  unfolding to_int_def by (simp add: sint_sbintrunc' signed_take_bit_int_eq_self)

subsection \<open>Per-instruction base cost\<close>

lemma getInstCost_mem:
  "I = LoadInst \<or> I = StoreInst \<Longrightarrow>
     getInstCostForIC c t I = Inr (CONST_C (MemOpsCost c)) \<and>
     getInstCostForPC simp c t I = Inr (CONST_C (MemOpsCost c))"
  by (auto simp: getInstCostForIC_def getInstCostForPC_def getConstantInstCost_def)

lemma getInstCost_phi:
  "getInstCostForIC c t PHINode = Inr (CONST_C 0) \<and>
   getInstCostForPC simp c t PHINode = Inr (CONST_C 0)"
  by (simp add: getInstCostForIC_def getInstCostForPC_def getConstantInstCost_def)

lemma getInstCost_other:
  "I = OtherInst \<or> I = UnreachableInst \<or> I = TermInst n \<Longrightarrow>
     getInstCostForIC c t I = Inr (CONST_C 1) \<and>
     getInstCostForPC simp c t I = Inr (CONST_C 1)"
  by (auto simp: getInstCostForIC_def getInstCostForPC_def getConstantInstCost_def)

lemma getInstCostForIC_library:
  assumes "libraryInstructionCosts t f = Some (CONST_C k)" "0 \<le> k" "1 + k < 2 ^ 31"
  shows "getInstCostForIC c t (CallInst (Some f)) = Inr (CONST_C (1 + k))"
  using assms
  by (simp add: getInstCostForIC_def checkIfExternalLibraryCall_def getConstCost_def
      getConstantInstCost_def to_int_id)

lemma getInstCostForPC_library:
  assumes "libraryInstructionCosts t f = Some fCost"
  shows "getInstCostForPC simp c t (CallInst (Some f)) =
           (case simp (ADD [CONST_C 1, fCost]) of Inl e \<Rightarrow> Inl e | Inr None \<Rightarrow> Inr (CONST_C 1)
            | Inr (Some s) \<Rightarrow> Inr s)"
  using assms
  by (simp add: getInstCostForPC_def getConstantInstCost_def split: option.splits sum.splits)

lemma getInstCostForIC_internal:
  assumes "libraryInstructionCosts t f = None" "f \<in> set (CGOrderedFunc t)"
    "\<not> isFenceFunc (fenceList t) f" "\<not> isThreadFunc (threadFunc t) f"
    "computedFuncInfo t f = Some info" "cost info = Some (CONST_C k)" "0 < k" "1 + k < 2 ^ 31"
  shows "getInstCostForIC c t (CallInst (Some f)) = Inr (CONST_C (1 + k))"
  using assms
  by (simp add: getInstCostForIC_def checkIfExternalLibraryCall_def hasConstCost_def
      getConstantInstCost_def to_int_id)

lemma getInstCostForPC_internal:
  assumes "libraryInstructionCosts t f = None"
    "\<not> isFenceFunc (fenceList t) f" "\<not> isThreadFunc (threadFunc t) f"
    "computedFuncInfo t f = Some info" "cost info = Some fCost" "fCost \<noteq> CONST_C 0"
  shows "getInstCostForPC simp c t (CallInst (Some f)) =
           (case simp (ADD [CONST_C 1, fCost]) of Inl e \<Rightarrow> Inl e | Inr None \<Rightarrow> Inr (CONST_C 1)
            | Inr (Some s) \<Rightarrow> Inr s)"
  using assms
  by (cases fCost)
     (simp_all add: getInstCostForPC_def getConstantInstCost_def getConstCostWithoutAssert_def
        split: option.splits sum.splits)

lemma getInstCostForIC_external:
  assumes "libraryInstructionCosts t f = None" "f \<notin> set (CGOrderedFunc t)"
  shows "getInstCostForIC c t (CallInst (Some f)) = Inr (CONST_C (to_int (1 + getLibCallCost c)))"
  using assms
  by (simp add: getInstCostForIC_def checkIfExternalLibraryCall_def getConstantInstCost_def)

lemma getInstCost_dbg:
  assumes "libraryInstructionCosts t f = None" "\<not> isFenceFunc (fenceList t) f"
    "computedFuncInfo t f = None"
  shows "getInstCostForIC c t (DbgInfoIntrinsic f) = Inr (CONST_C 1) \<and>
         getInstCostForPC simp c t (DbgInfoIntrinsic f) =
           (case simp (ADD [CONST_C 1]) of Inl e \<Rightarrow> Inl e | Inr None \<Rightarrow> Inr (CONST_C 1)
            | Inr (Some s) \<Rightarrow> Inr s)"
  using assms
  by (simp add: getInstCostForIC_def getInstCostForPC_def checkIfExternalLibraryCall_def
      getConstantInstCost_def split: option.splits sum.splits)


text \<open>
  Claim C2, as the code has it. A load or store costs \<open>MemOpsCost\<close> and a phi costs 0. A
  debug intrinsic is costed as a call: 1 when its name has no table entry. A direct call
  to a callee with a library entry costs 1 plus that entry (instantaneous clock: the entry
  must be a non-negative constant; predictive clock: the sum goes through the simplifier,
  the call costs what the simplifier returns, 1 when it returns null, and the computation
  stops when the simplifier stops at an assertion). A direct call to an internal
  callee that is not a thread entry costs 1 plus its summarized cost (instantaneous: only
  a positive constant is added; predictive: any cost but the constant 0 is added). Under
  the instantaneous clock a callee found neither in the library table nor in the module
  costs 1 plus the external-library cost. Under the predictive clock a call through a
  function pointer costs 1. Every other instruction costs 1.
\<close>

theorem getInstCost_base_cost:
  "(getInstCostForIC c t LoadInst = Inr (CONST_C (MemOpsCost c)) \<and>
    getInstCostForIC c t StoreInst = Inr (CONST_C (MemOpsCost c)) \<and>
    getInstCostForPC simp c t LoadInst = Inr (CONST_C (MemOpsCost c)) \<and>
    getInstCostForPC simp c t StoreInst = Inr (CONST_C (MemOpsCost c))) \<and>
   (getInstCostForIC c t PHINode = Inr (CONST_C 0) \<and>
    getInstCostForPC simp c t PHINode = Inr (CONST_C 0)) \<and>
   (\<forall>f. libraryInstructionCosts t f = None \<and> \<not> isFenceFunc (fenceList t) f \<and>
        computedFuncInfo t f = None \<longrightarrow>
      getInstCostForIC c t (DbgInfoIntrinsic f) = Inr (CONST_C 1) \<and>
      getInstCostForPC simp c t (DbgInfoIntrinsic f) =
        (case simp (ADD [CONST_C 1]) of Inl e \<Rightarrow> Inl e | Inr None \<Rightarrow> Inr (CONST_C 1)
            | Inr (Some s) \<Rightarrow> Inr s)) \<and>
   (\<forall>f k. libraryInstructionCosts t f = Some (CONST_C k) \<and> 0 \<le> k \<and> 1 + k < 2 ^ 31 \<longrightarrow>
      getInstCostForIC c t (CallInst (Some f)) = Inr (CONST_C (1 + k))) \<and>
   (\<forall>f fCost. libraryInstructionCosts t f = Some fCost \<longrightarrow>
      getInstCostForPC simp c t (CallInst (Some f)) =
        (case simp (ADD [CONST_C 1, fCost]) of Inl e \<Rightarrow> Inl e | Inr None \<Rightarrow> Inr (CONST_C 1)
            | Inr (Some s) \<Rightarrow> Inr s)) \<and>
   (\<forall>f info k. libraryInstructionCosts t f = None \<and> f \<in> set (CGOrderedFunc t) \<and>
        \<not> isFenceFunc (fenceList t) f \<and> \<not> isThreadFunc (threadFunc t) f \<and>
        computedFuncInfo t f = Some info \<and> cost info = Some (CONST_C k) \<and>
        0 < k \<and> 1 + k < 2 ^ 31 \<longrightarrow>
      getInstCostForIC c t (CallInst (Some f)) = Inr (CONST_C (1 + k))) \<and>
   (\<forall>f info fCost. libraryInstructionCosts t f = None \<and>
        \<not> isFenceFunc (fenceList t) f \<and> \<not> isThreadFunc (threadFunc t) f \<and>
        computedFuncInfo t f = Some info \<and> cost info = Some fCost \<and> fCost \<noteq> CONST_C 0 \<longrightarrow>
      getInstCostForPC simp c t (CallInst (Some f)) =
        (case simp (ADD [CONST_C 1, fCost]) of Inl e \<Rightarrow> Inl e | Inr None \<Rightarrow> Inr (CONST_C 1)
            | Inr (Some s) \<Rightarrow> Inr s)) \<and>
   (\<forall>f. libraryInstructionCosts t f = None \<and> f \<notin> set (CGOrderedFunc t) \<longrightarrow>
      getInstCostForIC c t (CallInst (Some f)) =
        Inr (CONST_C (to_int (1 + getLibCallCost c)))) \<and>
   getInstCostForPC simp c t (CallInst None) = Inr (CONST_C 1) \<and>
   (\<forall>n. getInstCostForIC c t OtherInst = Inr (CONST_C 1) \<and>
        getInstCostForPC simp c t OtherInst = Inr (CONST_C 1) \<and>
        getInstCostForIC c t (TermInst n) = Inr (CONST_C 1) \<and>
        getInstCostForPC simp c t (TermInst n) = Inr (CONST_C 1) \<and>
        getInstCostForIC c t UnreachableInst = Inr (CONST_C 1) \<and>
        getInstCostForPC simp c t UnreachableInst = Inr (CONST_C 1))"
proof -
  have fp: "getInstCostForPC simp c t (CallInst None) = Inr (CONST_C 1)"
    by (simp add: getInstCostForPC_def getConstantInstCost_def)
  show ?thesis
    by (intro conjI allI impI; (elim conjE)?)
       (simp_all add: getInstCost_mem getInstCost_phi getInstCost_dbg getInstCostForIC_library
          getInstCostForPC_library getInstCostForIC_internal getInstCostForPC_internal
          getInstCostForIC_external fp getInstCost_other)
qed

theorem getInstCost_base_cost_witness:
  "getInstCostForIC example_config example_tables (DbgInfoIntrinsic ''llvm.dbg.value'')
     = Inr (CONST_C 1) \<and>
   getInstCostForPC (example_simplifyCost ''main'') example_config example_tables
     (DbgInfoIntrinsic ''llvm.dbg.value'') = Inr (CONST_C 1) \<and>
   getInstCostForIC example_config example_tables (CallInst (Some ''memcpy''))
     = Inr (CONST_C 11) \<and>
   getInstCostForPC (example_simplifyCost ''main'') example_config example_tables (CallInst (Some ''memcpy''))
     = Inr (CONST_C 11) \<and>
   getInstCostForIC example_config example_tables (CallInst (Some ''helper''))
     = Inr (CONST_C 8) \<and>
   getInstCostForPC (example_simplifyCost ''main'') example_config example_tables (CallInst (Some ''helper''))
     = Inr (CONST_C 8) \<and>
   getInstCostForIC example_config example_tables (CallInst (Some ''printf''))
     = Inr (CONST_C 101)"
proof -
  note T = getInstCost_base_cost [of example_config example_tables "example_simplifyCost ''main''"]
  have lib: "libraryInstructionCosts example_tables ''memcpy'' = Some (CONST_C 10)"
    and nolib: "libraryInstructionCosts example_tables ''helper'' = None"
      "libraryInstructionCosts example_tables ''printf'' = None"
      "libraryInstructionCosts example_tables ''llvm.dbg.value'' = None"
    and info: "computedFuncInfo example_tables ''helper''
                 = Some \<lparr> hasFence = False, cost = Some (CONST_C 7) \<rparr>"
      "computedFuncInfo example_tables ''llvm.dbg.value'' = None"
    and mods: "''helper'' \<in> set (CGOrderedFunc example_tables)"
      "''printf'' \<notin> set (CGOrderedFunc example_tables)"
    and fence: "\<not> isFenceFunc (fenceList example_tables) ''helper''"
      "\<not> isFenceFunc (fenceList example_tables) ''llvm.dbg.value''"
    and thr: "\<not> isThreadFunc (threadFunc example_tables) ''helper''"
    by (simp_all add: example_tables_def)
  have ext: "to_int (1 + getLibCallCost example_config) = 101"
    by (simp add: getLibCallCost_def example_config_def to_int_id)
  note R = T [THEN conjunct2, THEN conjunct2]
  note Tdbg = R [THEN conjunct1, rule_format, of "''llvm.dbg.value''"]
  note TlibIC = R [THEN conjunct2, THEN conjunct1, rule_format, of "''memcpy''" 10]
  note TlibPC = R [THEN conjunct2, THEN conjunct2, THEN conjunct1, rule_format,
      of "''memcpy''" "CONST_C 10"]
  note R' = R [THEN conjunct2, THEN conjunct2, THEN conjunct2]
  note TintIC = R' [THEN conjunct1, rule_format, of "''helper''" _ 7]
  note TintPC = R' [THEN conjunct2, THEN conjunct1, rule_format, of "''helper''" _ "CONST_C 7"]
  note Text = R' [THEN conjunct2, THEN conjunct2, THEN conjunct1, rule_format, of "''printf''"]
  have dbg: "getInstCostForIC example_config example_tables (DbgInfoIntrinsic ''llvm.dbg.value'')
               = Inr (CONST_C 1)"
       "getInstCostForPC (example_simplifyCost ''main'') example_config example_tables
          (DbgInfoIntrinsic ''llvm.dbg.value'') = Inr (CONST_C 1)"
    using Tdbg nolib(3) fence(2) info(2) by (simp_all add: example_simplifyCost_def example_simplify_def)
  have l: "getInstCostForIC example_config example_tables (CallInst (Some ''memcpy''))
             = Inr (CONST_C 11)"
    using TlibIC lib by simp
  have l2: "getInstCostForPC (example_simplifyCost ''main'') example_config example_tables
         (CallInst (Some ''memcpy'')) = Inr (CONST_C 11)"
    using TlibPC lib by (simp add: example_simplifyCost_def example_simplify_def)
  have i: "getInstCostForIC example_config example_tables (CallInst (Some ''helper''))
             = Inr (CONST_C 8)"
    using TintIC nolib(1) mods(1) fence(1) thr info(1) by simp
  have i2: "getInstCostForPC (example_simplifyCost ''main'') example_config example_tables
              (CallInst (Some ''helper'')) = Inr (CONST_C 8)"
    using TintPC nolib(1) fence(1) thr info(1) by (simp add: example_simplifyCost_def example_simplify_def)
  have e: "getInstCostForIC example_config example_tables (CallInst (Some ''printf''))
             = Inr (CONST_C 101)"
    using Text nolib(2) mods(2) ext by simp
  show ?thesis using dbg l l2 i i2 e by simp
qed

text \<open>
  The claim as stated gives a debug intrinsic the cost 0 and an unresolved callee the
  cost 1; the code gives the first 1 and, under the instantaneous clock, the second
  101 with an external-library cost of 100.
\<close>

theorem getInstCost_base_cost_counterexample:
  "getInstCostForIC example_config example_tables (DbgInfoIntrinsic ''llvm.dbg.value'')
     \<noteq> Inr (CONST_C 0) \<and>
   getInstCostForIC example_config example_tables (CallInst (Some ''printf''))
     \<noteq> Inr (CONST_C 1)"
  by (simp add: getInstCostForIC_def checkIfExternalLibraryCall_def getConstantInstCost_def
      getLibCallCost_def example_config_def example_tables_def to_int_def)


subsection \<open>A fence without a library cost\<close>

text \<open>
  Claim C7 at a concrete input: the predictive clock (so the fence list holds the two
  mutex functions), an empty library table, and a block that calls
  \<open>pthread_mutex_lock\<close>. \<open>makeContainersOfBB\<close> writes its line to \<open>errs()\<close> and returns
  normally with the block split into two unit containers; only the later cost
  computation \<open>getInstCostForPC\<close> stops at its assertion.
\<close>

theorem makeContainersOfBB_fence_without_cost:
  "makeContainersOfBB example_pc_tables example_lock_block empty_builder =
     Inr (True,
       \<lparr> lccIDGen = 2,
         bbToContainersMap = [''entry'' \<mapsto>
           [\<lparr> lccID = 0, currentBlock = ''entry'', firstInst = Some 0, lastInst = Some 0,
              isExitLCC = False \<rparr>,
            \<lparr> lccID = 1, currentBlock = ''entry'', firstInst = Some 1, lastInst = Some 2,
              isExitLCC = False \<rparr>]],
         globalOuterLCCList =
           [\<lparr> lccID = 0, currentBlock = ''entry'', firstInst = Some 0, lastInst = Some 0,
              isExitLCC = False \<rparr>,
            \<lparr> lccID = 1, currentBlock = ''entry'', firstInst = Some 1, lastInst = Some 2,
              isExitLCC = False \<rparr>],
         edgeInfo = Map.empty,
         errs = [''Fence function pthread_mutex_lock()'s cost is not found in the library. Aborting''] \<rparr>)
   \<and> getInstCostForPC simp example_pc_config example_pc_tables
         (CallInst (Some ''pthread_mutex_lock'')) = Inl AssertFail"
  by (simp add: makeContainersOfBB_def example_pc_tables_def example_lock_block_def
      empty_builder_def defineFences_def example_pc_config_def example_config_def
      newUnitLCC_def nextInst_def getInstCostForPC_def eval_nat_numeral)


subsection \<open>The builder without fences\<close>


lemma checkForPhi_shift: "checkForPhi is i = map_option (\<lambda>k. k + i) (checkForPhi is 0)"
proof (induction "is" arbitrary: i)
  case Nil then show ?case by simp
next
  case (Cons I rest)
  show ?case using Cons[of "i + 1"] Cons[of 1] by (simp add: option.map_comp comp_def)
qed

lemma checkForPhi_bound: "checkForPhi is i = Some k \<Longrightarrow> i \<le> k \<and> k < i + length is \<and> is ! (k - i) \<noteq> PHINode"
proof (induction "is" arbitrary: i)
  case Nil then show ?case by simp
next
  case (Cons I rest)
  show ?case
  proof (cases "I = PHINode")
    case True
    with Cons.prems have "checkForPhi rest (i + 1) = Some k" by simp
    from Cons.IH[OF this] show ?thesis by (auto simp: nth_Cons')
  next
    case False with Cons.prems show ?thesis by simp
  qed
qed

lemma checkForPhi_wf:
  assumes "wellFormedBB bb"
  shows "\<exists>k. checkForPhi (insts bb) 0 = Some k \<and> k < length (insts bb)"
proof -
  have ne: "insts bb \<noteq> []" and l: "isTerminator (last (insts bb))"
    using assms by (auto simp: wellFormedBB_def split: Instruction.splits)
  have "\<And>i. is \<noteq> [] \<Longrightarrow> last is \<noteq> PHINode \<Longrightarrow> \<exists>k. checkForPhi is i = Some k" for "is"
  proof (induction "is")
    case Nil then show ?case by simp
  next
    case (Cons I rest) then show ?case by (cases "rest = []") auto
  qed
  from this[OF ne, of 0] l obtain k where "checkForPhi (insts bb) 0 = Some k" by (cases "last (insts bb)") auto
  with checkForPhi_bound[OF this] show ?thesis by auto
qed


lemma scan_same: "sHasFence s = False \<Longrightarrow> s\<lparr>sHasFence := False, sErrs := sErrs s\<rparr> = s"
  by simp

lemma scanInsts_noFence:
  assumes "noFence t" "sHasFence s = False" "insts bb \<noteq> []"
    "rest \<noteq> []" "list_all (\<lambda>I. \<not> isTerminator I) (butlast rest)"
    "last rest = last (insts bb)" "isTerminator (last rest)" "sStartInst s \<noteq> None"
  shows "scanInsts t bb i rest s =
           (if last rest = UnreachableInst
            then Inr (s\<lparr> sStartInst := None,
                        sContainers := sContainers s @
                          [\<lparr> lccID = sIdGen s, currentBlock = bbName bb, firstInst = sStartInst s,
                             lastInst = Some (i + length rest - 1), isExitLCC = True \<rparr>],
                        sIdGen := sIdGen s + 1 \<rparr>)
            else Inr s)"
  using assms(4-8)
proof (induction rest arbitrary: i)
  case Nil then show ?case by simp
next
  case (Cons I rest)
  show ?case
  proof (cases "rest = []")
    case True
    with Cons.prems have tmn: "isTerminator I" and l: "last (insts bb) = I" by auto
    show ?thesis
    proof (cases I)
      case UnreachableInst
      then have "getTerminatorNumSuccessors (insts bb) = Inr 0"
        using l assms(3) by (simp add: getTerminatorNumSuccessors_def)
      then show ?thesis using UnreachableInst True Cons.prems(5)
        by (auto simp: newUnitLCC_def)
    next
      case (TermInst n)
      then show ?thesis using True by simp
    qed (use tmn in auto)
  next
    case False
    with Cons.prems have nt: "\<not> isTerminator I" by simp
    have IH: "scanInsts t bb (i + 1) rest s =
           (if last rest = UnreachableInst
            then Inr (s\<lparr> sStartInst := None,
                        sContainers := sContainers s @
                          [\<lparr> lccID = sIdGen s, currentBlock = bbName bb, firstInst = sStartInst s,
                             lastInst = Some (i + 1 + length rest - 1), isExitLCC = True \<rparr>],
                        sIdGen := sIdGen s + 1 \<rparr>)
            else Inr s)"
      using Cons.IH[of "i + 1"] Cons.prems False by simp
    have step: "scanInsts t bb i (I # rest) s = scanInsts t bb (i + 1) rest s"
    proof (cases "asCallInst I")
      case None
      then show ?thesis using nt by (cases I) auto
    next
      case (Some c)
      show ?thesis
      proof (cases c)
        case None then show ?thesis using Some by simp
      next
        case (Some f)
        have "\<not> isFenceFunc (fenceList t) f" using assms(1) by (simp add: noFence_def)
        moreover have "(case computedFuncInfo t f of Some funcInfo \<Rightarrow> hasFence funcInfo
                         | None \<Rightarrow> sHasFence s) = False"
          using assms(1,2) by (auto simp: noFence_def split: option.splits)
        ultimately show ?thesis using \<open>asCallInst I = Some c\<close> Some assms(2)
          by (simp add: scan_same)
      qed
    qed
    show ?thesis using step IH False by simp
  qed
qed


lemma makeContainersOfBB_noFence:
  assumes "noFence t" "wellFormedBB bb"
  shows "makeContainersOfBB t bb b =
     Inr (False, b\<lparr> lccIDGen := lccIDGen b + 1,
                     bbToContainersMap := (bbToContainersMap b)(bbName bb \<mapsto> [wholeBlockLCC (lccIDGen b) bb]),
                     globalOuterLCCList := globalOuterLCCList b @ [wholeBlockLCC (lccIDGen b) bb],
                     errs := errs b \<rparr>)"
proof -
  obtain k where k: "checkForPhi (insts bb) 0 = Some k" "k < length (insts bb)"
    using checkForPhi_wf[OF assms(2)] by auto
  have ne: "insts bb \<noteq> []" and bl: "list_all (\<lambda>I. \<not> isTerminator I) (butlast (insts bb))"
    and tl: "isTerminator (last (insts bb))"
    using assms(2) by (auto simp: wellFormedBB_def split: Instruction.splits)
  let ?rest = "drop k (insts bb)"
  have r1: "?rest \<noteq> []" using k by simp
  have r2: "last ?rest = last (insts bb)" using k by simp
  have r3: "list_all (\<lambda>I. \<not> isTerminator I) (butlast ?rest)"
    using bl by (auto simp: butlast_drop list_all_iff dest: in_set_dropD)
  let ?s = "\<lparr> sHasFence = False, sStartInst = Some k, sContainers = [],
              sIdGen = lccIDGen b, sErrs = errs b \<rparr>"
  have len: "k + length ?rest - 1 = length (insts bb) - 1" using k by simp
  note sc = scanInsts_noFence[OF assms(1) _ ne r1 r3 r2, of ?s k, simplified r2 len]
  show ?thesis
    using sc tl k ne
    by (cases "last (insts bb) = UnreachableInst")
       (simp_all add: makeContainersOfBB_def newUnitLCC_def wholeBlockLCC_def)
qed


lemma makeContainersOfBlocks_noFence:
  assumes "noFence t" "list_all wellFormedBB bs" "mapInv S b"
  shows "\<exists>b'. makeContainersOfBlocks t bs h b = Inr (h, b') \<and> edgeInfo b' = edgeInfo b \<and>
           mapInv (S \<union> set bs) b' \<and> bbName ` set bs \<subseteq> dom (bbToContainersMap b')
           \<and> dom (bbToContainersMap b) \<subseteq> dom (bbToContainersMap b')"
  using assms(2,3)
proof (induction bs arbitrary: b S)
  case Nil then show ?case by simp
next
  case (Cons bb bs)
  let ?b1 = "b\<lparr> lccIDGen := lccIDGen b + 1,
                     bbToContainersMap := (bbToContainersMap b)(bbName bb \<mapsto> [wholeBlockLCC (lccIDGen b) bb]),
                     globalOuterLCCList := globalOuterLCCList b @ [wholeBlockLCC (lccIDGen b) bb],
                     errs := errs b \<rparr>"
  have wf: "wellFormedBB bb" "list_all wellFormedBB bs" using Cons.prems by auto
  have m1: "mapInv (S \<union> {bb}) ?b1"
    using Cons.prems(2) unfolding mapInv_def by (auto split: if_splits)
  from Cons.IH[OF wf(2) m1] obtain b' where
    b': "makeContainersOfBlocks t bs h ?b1 = Inr (h, b')" "edgeInfo b' = edgeInfo ?b1"
      "mapInv (S \<union> {bb} \<union> set bs) b'" "bbName ` set bs \<subseteq> dom (bbToContainersMap b')"
      "dom (bbToContainersMap ?b1) \<subseteq> dom (bbToContainersMap b')"
    by blast
  have "makeContainersOfBlocks t (bb # bs) h b = Inr (h, b')"
    using makeContainersOfBB_noFence[OF assms(1) wf(1), of b] b'(1) by simp
  moreover have "mapInv (S \<union> set (bb # bs)) b'" using b'(3) by (simp add: Un_commute insert_commute)
  moreover have "bbName ` set (bb # bs) \<subseteq> dom (bbToContainersMap b')"
    using b'(4,5) by auto
  moreover have "dom (bbToContainersMap b) \<subseteq> dom (bbToContainersMap b')"
    using b'(5) by auto
  ultimately show ?case using b'(2) by auto
qed

lemma findBlock_distinct:
  assumes "distinct (map bbName (blocks F))" "bb \<in> set (blocks F)"
  shows "findBlock F (bbName bb) = Some bb"
proof -
  have "\<And>xs. distinct (map bbName xs) \<Longrightarrow> bb \<in> set xs \<Longrightarrow> find (\<lambda>x. bbName x = bbName bb) xs = Some bb"
  proof -
    fix xs show "distinct (map bbName xs) \<Longrightarrow> bb \<in> set xs \<Longrightarrow> find (\<lambda>x. bbName x = bbName bb) xs = Some bb"
      by (induction xs) (auto simp: image_iff)
  qed
  from this[OF assms] show ?thesis by (simp add: findBlock_def)
qed

lemma edgeHasFence_noFence:
  assumes "fenceList t = []" "I \<noteq> UnreachableInst"
  shows "edgeHasFence t I = False"
  using assms by (auto simp: edgeHasFence_def split: option.splits)

lemma getLastInst_whole:
  assumes "distinct (map bbName (blocks F))" "bb \<in> set (blocks F)" "insts bb \<noteq> []"
  shows "getLastInst F (wholeBlockLCC i bb) = Inr (last (insts bb))"
  using findBlock_distinct[OF assms(1,2)] assms(3)
  by (simp add: getLastInst_def wholeBlockLCC_def last_conv_nth)

lemma edgesNoFence_upd:
  "edgesNoFence b \<Longrightarrow> \<not> v \<Longrightarrow> edgesNoFence (b\<lparr> edgeInfo := (edgeInfo b)(k \<mapsto> v) \<rparr>)"
  unfolding edgesNoFence_def by (metis (full_types) builder.select_convs(4) builder.surjective
      builder.update_convs(4) fun_upd_apply option.inject)

lemma connectPreds_inv:
  assumes "fenceList t = []" "wellFormedFunction F"
    "mapInv (set (blocks F)) b" "edgesNoFence b"
    "connectPreds t F fc ps b = Inr b'"
  shows "edgesNoFence b' \<and> bbToContainersMap b' = bbToContainersMap b"
  using assms(3-5)
proof (induction ps arbitrary: b)
  case Nil then show ?case by simp
next
  case (Cons PI ps)
  from Cons.prems(3) obtain u where u: "getLastLCCofBB b PI = Inr u"
    by (auto split: sum.splits)
  then obtain bb i where bb: "bb \<in> set (blocks F)" "u = wholeBlockLCC i bb"
    using Cons.prems(1) unfolding mapInv_def getLastLCCofBB_def
    by (fastforce split: option.splits list.splits)
  have wf: "wellFormedBB bb" "distinct (map bbName (blocks F))"
    using assms(2) bb(1) by (auto simp: wellFormedFunction_def list_all_iff)
  show ?case
  proof (cases "isEmptyLCC u \<or> isExitLCC u")
    case True
    then show ?thesis using Cons u by simp
  next
    case False
    then have nu: "last (insts bb) \<noteq> UnreachableInst" using bb(2) by (simp add: wholeBlockLCC_def)
    have li: "getLastInst F u = Inr (last (insts bb))"
      using getLastInst_whole[OF wf(2) bb(1)] wf(1) bb(2) by (simp add: wellFormedBB_def)
    let ?b1 = "addPredLCC fc u (edgeHasFence t (last (insts bb))) b"
    have e1: "edgesNoFence ?b1" "mapInv (set (blocks F)) ?b1"
      "bbToContainersMap ?b1 = bbToContainersMap b"
      using Cons.prems(1,2) edgeHasFence_noFence[OF assms(1) nu]
      by (simp_all add: edgesNoFence_upd addPredLCC_def mapInv_def)
    have "connectPreds t F fc ps ?b1 = Inr b'" using Cons.prems(3) u False li by simp
    from Cons.IH[OF e1(2) e1(1) this] e1(3) show ?thesis by simp
  qed
qed

lemma connectSuccs_inv:
  assumes "fenceList t = []" "getLastInst F lc = Inr I" "I \<noteq> UnreachableInst"
    "edgesNoFence b" "connectSuccs t F lc ss b = Inr b'"
  shows "edgesNoFence b' \<and> bbToContainersMap b' = bbToContainersMap b"
  using assms(4,5)
proof (induction ss arbitrary: b)
  case Nil then show ?case by simp
next
  case (Cons SI ss)
  from Cons.prems(2) obtain u where u: "getFirstLCCofBB b SI = Inr u"
    by (auto split: sum.splits)
  show ?case
  proof (cases "isEmptyLCC u \<or> isExitLCC u")
    case True then show ?thesis using Cons u by simp
  next
    case False
    let ?b1 = "addSuccLCC lc u (edgeHasFence t I) b"
    have e1: "edgesNoFence ?b1" "bbToContainersMap ?b1 = bbToContainersMap b"
      using Cons.prems(1) edgeHasFence_noFence[OF assms(1,3)]
      by (simp_all add: edgesNoFence_upd addSuccLCC_def)
    have "connectSuccs t F lc ss ?b1 = Inr b'" using Cons.prems(2) u False assms(2) by simp
    moreover have "getFirstLCCofBB ?b1 = getFirstLCCofBB b"
      by (simp add: getFirstLCCofBB_def addSuccLCC_def fun_eq_iff)
    ultimately show ?thesis using Cons.IH[OF e1(1)] e1(2) by simp
  qed
qed


lemma mapInv_cong: "bbToContainersMap b' = bbToContainersMap b \<Longrightarrow> mapInv S b' = mapInv S b"
  by (simp add: mapInv_def)

lemma createContainerCFG_inv:
  assumes "fenceList t = []" "wellFormedFunction F"
    "mapInv (set (blocks F)) b" "edgesNoFence b"
    "createContainerCFG t F bb b = Inr b'"
  shows "edgesNoFence b' \<and> bbToContainersMap b' = bbToContainersMap b"
proof -
  from assms(5) obtain us where us: "bbToContainersMap b (bbName bb) = Some us" "us \<noteq> []"
    by (auto simp: createContainerCFG_def Let_def split: option.splits list.splits)
  then obtain bb' i where bb': "bb' \<in> set (blocks F)" "us = [wholeBlockLCC i bb']"
    using assms(3) unfolding mapInv_def by blast
  have wf: "wellFormedBB bb'" "distinct (map bbName (blocks F))"
    using assms(2) bb'(1) by (auto simp: wellFormedFunction_def list_all_iff)
  let ?u = "wholeBlockLCC i bb'"
  show ?thesis
  proof (cases "isEmptyLCC ?u \<or> isExitLCC ?u")
    case True
    then have "b' = b" using assms(5) us bb'(2) by (simp add: createContainerCFG_def)
    then show ?thesis using assms(4) by simp
  next
    case False
    then obtain b2 where b2: "connectPreds t F ?u (preds bb) b = Inr b2"
      "connectSuccs t F ?u (succs bb) b2 = Inr b'"
      using assms(5) us bb'(2) by (auto simp: createContainerCFG_def split: sum.splits)
    from connectPreds_inv[OF assms(1-4) b2(1)]
    have i2: "edgesNoFence b2" "bbToContainersMap b2 = bbToContainersMap b" by auto
    have nu: "last (insts bb') \<noteq> UnreachableInst" using False by (simp add: wholeBlockLCC_def)
    have li: "getLastInst F ?u = Inr (last (insts bb'))"
      using getLastInst_whole[OF wf(2) bb'(1)] wf(1) by (simp add: wellFormedBB_def)
    from connectSuccs_inv[OF assms(1) li nu i2(1) b2(2)] i2(2) show ?thesis by simp
  qed
qed

lemma createContainerCFGs_inv:
  assumes "fenceList t = []" "wellFormedFunction F"
    "mapInv (set (blocks F)) b" "edgesNoFence b"
    "createContainerCFGs t F bs b = Inr b'"
  shows "edgesNoFence b' \<and> bbToContainersMap b' = bbToContainersMap b"
  using assms(3-5)
proof (induction bs arbitrary: b)
  case Nil then show ?case by simp
next
  case (Cons bb bs)
  from Cons.prems(3) obtain b1 where b1: "createContainerCFG t F bb b = Inr b1"
    "createContainerCFGs t F bs b1 = Inr b'"
    by (auto split: sum.splits)
  from createContainerCFG_inv[OF assms(1,2) Cons.prems(1,2) b1(1)]
  have i1: "edgesNoFence b1" "bbToContainersMap b1 = bbToContainersMap b" by auto
  from Cons.IH[OF _ i1(1) b1(2)] i1(2) Cons.prems(1) mapInv_cong[OF i1(2)]
  show ?case by simp
qed

lemma initializeLCCGraph_noFence:
  assumes "noFence t" "wellFormedFunction F" "initializeLCCGraph t F e0 = Inr (t', b)"
  shows "noFence t' \<and> fenceList t' = fenceList t \<and> edgesNoFence b \<and>
         (\<forall>bb \<in> set (blocks F). \<exists>i. bbToContainersMap b (bbName bb) = Some [wholeBlockLCC i bb])"
proof -
  let ?b0 = "\<lparr> lccIDGen = 0, bbToContainersMap = Map.empty, globalOuterLCCList = [],
               edgeInfo = Map.empty, errs = e0 \<rparr>"
  have wf: "list_all wellFormedBB (blocks F)" "distinct (map bbName (blocks F))"
    using assms(2) by (auto simp: wellFormedFunction_def)
  have m0: "mapInv {} ?b0" by (simp add: mapInv_def)
  from makeContainersOfBlocks_noFence[OF assms(1) wf(1) m0, of False]
  obtain b1 where b1: "makeContainersOfBlocks t (blocks F) False ?b0 = Inr (False, b1)"
    "edgeInfo b1 = Map.empty" "mapInv (set (blocks F)) b1"
    "bbName ` set (blocks F) \<subseteq> dom (bbToContainersMap b1)"
    by auto
  have e1: "edgesNoFence b1" using b1(2) by (simp add: edgesNoFence_def)
  from assms(3) b1(1) have cfg: "createContainerCFGs t F (blocks F) b1 = Inr b"
    and t': "t' = t\<lparr> computedFuncInfo :=
                        (computedFuncInfo t)(fname F \<mapsto> \<lparr> hasFence = False, cost = None \<rparr>) \<rparr>"
    by (auto simp: initializeLCCGraph_def split: sum.splits)
  have fl: "fenceList t = []" using assms(1) by (simp add: noFence_def)
  from createContainerCFGs_inv[OF fl assms(2) b1(3) e1 cfg]
  have i2: "edgesNoFence b" "bbToContainersMap b = bbToContainersMap b1" by auto
  have one: "\<exists>i. bbToContainersMap b (bbName bb) = Some [wholeBlockLCC i bb]"
    if "bb \<in> set (blocks F)" for bb
  proof -
    from that b1(4) i2(2) obtain us where us: "bbToContainersMap b (bbName bb) = Some us" by auto
    with b1(3) i2(2) obtain bb' i where bb': "bb' \<in> set (blocks F)" "bbName bb' = bbName bb"
      "us = [wholeBlockLCC i bb']"
      unfolding mapInv_def by metis
    have "bb' = bb" using wf(2) bb'(1,2) that by (meson distinct_map inj_onD)
    then show ?thesis using us bb'(3) by auto
  qed
  have "noFence t'" using assms(1) t' by (auto simp: noFence_def split: if_splits)
  then show ?thesis using t' i2(1) one by auto
qed


lemma initializeLCCGraphs_noFence:
  assumes "noFence t" "list_all wellFormedFunction Fs" "initializeLCCGraphs t Fs = Inr (t', bs)"
  shows "noFence t' \<and>
         list_all2 (\<lambda>F b. edgesNoFence b \<and>
           (\<forall>bb \<in> set (blocks F). \<exists>i. bbToContainersMap b (bbName bb) = Some [wholeBlockLCC i bb]))
           Fs bs"
  using assms
proof (induction Fs arbitrary: t bs)
  case Nil then show ?case by simp
next
  case (Cons F Fs)
  from Cons.prems(3) obtain t1 b bs' where
    s1: "initializeLCCGraph t F [] = Inr (t1, b)" "initializeLCCGraphs t1 Fs = Inr (t', bs')"
      "bs = b # bs'"
    by (auto split: sum.splits)
  have wf: "wellFormedFunction F" "list_all wellFormedFunction Fs" using Cons.prems(2) by auto
  from initializeLCCGraph_noFence[OF Cons.prems(1) wf(1) s1(1)]
  have i1: "noFence t1" "edgesNoFence b"
    "\<forall>bb \<in> set (blocks F). \<exists>i. bbToContainersMap b (bbName bb) = Some [wholeBlockLCC i bb]"
    by auto
  from Cons.IH[OF i1(1) wf(2) s1(2)] i1(2,3) s1(3) show ?case by simp
qed

text \<open>
  Claim C10. The fence list is filled only for the predictive clock. Under the
  instantaneous clock it stays empty, no callee is a fence, and building the containers
  of a module of valid functions records no function as containing a fence, leaves every
  block in one unit container from its first non-phi instruction to its terminator (no
  block is split at a call), and stores the fence flag false on every edge.
\<close>

theorem fenceList_only_for_predictive:
  assumes "ClockType c = INSTANTANEOUS" "list_all wellFormedFunction Fs"
    "buildModule c t Fs = Inr (t', bs)"
  shows "defineFences (c\<lparr> ClockType := PREDICTIVE \<rparr>) []
           = [''pthread_mutex_unlock'', ''pthread_mutex_lock''] \<and>
         defineFences c [] = [] \<and> fenceList t' = [] \<and>
         (\<forall>F. \<not> isFenceFunc (fenceList t') F) \<and>
         (\<forall>f fi. computedFuncInfo t' f = Some fi \<longrightarrow> \<not> hasFence fi) \<and>
         list_all2 (\<lambda>F b. edgesNoFence b \<and>
           (\<forall>bb \<in> set (blocks F). \<exists>i. bbToContainersMap b (bbName bb) = Some [wholeBlockLCC i bb]))
           Fs bs"
proof -
  let ?t0 = "t\<lparr> fenceList := defineFences c [], computedFuncInfo := Map.empty \<rparr>"
  have df: "defineFences c [] = []" using assms(1) by (simp add: defineFences_def)
  have n0: "noFence ?t0" using df by (simp add: noFence_def)
  have run: "initializeLCCGraphs ?t0 Fs = Inr (t', bs)" using assms(3) by (simp add: buildModule_def)
  from initializeLCCGraphs_noFence[OF n0 assms(2) run]
  have r: "noFence t'" "list_all2 (\<lambda>F b. edgesNoFence b \<and>
           (\<forall>bb \<in> set (blocks F). \<exists>i. bbToContainersMap b (bbName bb) = Some [wholeBlockLCC i bb]))
           Fs bs"
    by auto
  have "defineFences (c\<lparr> ClockType := PREDICTIVE \<rparr>) []
           = [''pthread_mutex_unlock'', ''pthread_mutex_lock'']"
    by (simp add: defineFences_def)
  then show ?thesis using df r by (simp add: noFence_def)
qed

theorem fenceList_only_for_predictive_witness:
  "\<exists>t' bs. buildModule example_config example_tables [example_function] = Inr (t', bs) \<and>
     ClockType example_config = INSTANTANEOUS \<and> list_all wellFormedFunction [example_function] \<and>
     fenceList t' = [] \<and> \<not> isFenceFunc (fenceList t') ''pthread_mutex_lock'' \<and>
     list_all2 (\<lambda>F b. edgesNoFence b \<and>
       (\<forall>bb \<in> set (blocks F). \<exists>i. bbToContainersMap b (bbName bb) = Some [wholeBlockLCC i bb]))
       [example_function] bs"
proof -
  have c: "ClockType example_config = INSTANTANEOUS" by (simp add: example_config_def)
  have wf: "list_all wellFormedFunction [example_function]"
    by (simp add: wellFormedFunction_def wellFormedBB_def example_function_def)
  have "\<exists>r. buildModule example_config example_tables [example_function] = Inr r"
    by (simp add: buildModule_def initializeLCCGraph_def makeContainersOfBB_def
        createContainerCFG_def example_function_def example_tables_def example_config_def
        defineFences_def newUnitLCC_def nextInst_def getLastLCCofBB_def getFirstLCCofBB_def
        isEmptyLCC_def getLastInst_def findBlock_def edgeHasFence_def addPredLCC_def Let_def
        addSuccLCC_def)
  then obtain t' bs where
    run: "buildModule example_config example_tables [example_function] = Inr (t', bs)"
    by auto
  from fenceList_only_for_predictive [OF c wf run] run c wf show ?thesis by blast
qed


subsection \<open>Termination of the reducer\<close>

lemma eraseFromGlobalLCCList_length:
  "eraseFromGlobalLCCList d xs = Inr (p, ys) \<Longrightarrow> length ys + 1 = length xs"
  by (auto simp: eraseFromGlobalLCCList_def length_remove1 split: if_splits)
     (metis One_nat_def Suc_pred length_pos_if_in_set)

lemma eraseAll_length: "eraseAll ds xs = Inr ys \<Longrightarrow> length ys \<le> length xs"
proof (induction ds arbitrary: xs)
  case Nil then show ?case by simp
next
  case (Cons d ds)
  then obtain p xs' where e: "eraseFromGlobalLCCList d xs = Inr (p, xs')"
    "eraseAll ds xs' = Inr ys"
    by (auto split: sum.splits)
  from eraseFromGlobalLCCList_length[OF e(1)] Cons.IH[OF e(2)] show ?case by simp
qed

lemma replaceInGlobalList_length:
  assumes "replaceInGlobalList a n (o1 # os) xs = Inr ys"
  shows "length ys < length xs"
proof -
  from assms obtain p xs1 q xs2 where e: "eraseFromGlobalLCCList a xs = Inr (p, xs1)"
    "eraseFromGlobalLCCList o1 (insertAt p n xs1) = Inr (q, xs2)" "eraseAll os xs2 = Inr ys"
    by (auto simp: replaceInGlobalList_def split: sum.splits)
  have "length (insertAt p n xs1) = length xs1 + 1" by (simp add: insertAt_def)
  with eraseFromGlobalLCCList_length[OF e(1)] eraseFromGlobalLCCList_length[OF e(2)]
    eraseAll_length[OF e(3)]
  show ?thesis by simp
qed

lemma checkNApplyRules_decreases:
  "checkNApplyRules h c r = Inr (Some r') \<Longrightarrow> length (outerLCCs r') < length (outerLCCs r)"
  by (auto simp: checkNApplyRules_def checkNCreatePathLCC_def checkNCreateBranchLCC_def
      checkNCreateLoopLCC_def split: sum.splits option.splits dest!: replaceInGlobalList_length)

lemma scanLCCs_decreases:
  "scanLCCs h cs r = Inr (Some r') \<Longrightarrow> length (outerLCCs r') < length (outerLCCs r)"
  by (induction cs) (auto split: sum.splits option.splits dest: checkNApplyRules_decreases)

lemma scanLCCs_None:
  "scanLCCs h cs r = Inr None \<Longrightarrow> \<forall>c \<in> set cs. checkNApplyRules h c r = Inr None"
  by (induction cs) (auto split: sum.splits option.splits)

lemma traverseNReduce_result:
  "(\<exists>e. traverseNReduce h p r = Inl e) \<or>
   (\<exists>p' r'. traverseNReduce h p r = Inr (p', r') \<and>
      (\<forall>c \<in> set (outerLCCs r'). checkNApplyRules h c r' = Inr None) \<and>
      p < p' \<and> p' \<le> p + length (outerLCCs r) + 1 \<and>
      length (outerLCCs r') \<le> length (outerLCCs r))"
proof (induction h p r rule: traverseNReduce.induct)
  case (1 h passes r)
  show ?case
  proof (cases "scanLCCs h (outerLCCs r) r")
    case (Inl e')
    then have "traverseNReduce h passes r = Inl e'"
      by (simp add: traverseNReduce.simps[of h passes r])
    then show ?thesis by blast
  next
    case (Inr x)
    show ?thesis
    proof (cases x)
      case None
      then have "traverseNReduce h passes r = Inr (passes + 1, r)"
        using Inr by (simp add: traverseNReduce.simps[of h passes r])
      moreover have "\<forall>c \<in> set (outerLCCs r). checkNApplyRules h c r = Inr None"
        using Inr None scanLCCs_None[of h "outerLCCs r" r] by simp
      ultimately show ?thesis by simp
    next
      case (Some r')
      have eq: "traverseNReduce h passes r = traverseNReduce h (passes + 1) r'"
        using Inr Some by (simp add: traverseNReduce.simps[of h passes r])
      have lt: "length (outerLCCs r') < length (outerLCCs r)"
        using scanLCCs_decreases Inr Some by blast
      from "1.IH"[OF Inr Some] show ?thesis
      proof
        assume "\<exists>e. traverseNReduce h (passes + 1) r' = Inl e"
        then show ?thesis unfolding eq by blast
      next
        assume "\<exists>p' r''. traverseNReduce h (passes + 1) r' = Inr (p', r'') \<and>
          (\<forall>c \<in> set (outerLCCs r''). checkNApplyRules h c r'' = Inr None) \<and>
          passes + 1 < p' \<and> p' \<le> passes + 1 + length (outerLCCs r') + 1 \<and>
          length (outerLCCs r'') \<le> length (outerLCCs r')"
        then obtain p' r'' where res: "traverseNReduce h (passes + 1) r' = Inr (p', r'')"
          "\<forall>c \<in> set (outerLCCs r''). checkNApplyRules h c r'' = Inr None"
          "passes + 1 < p'" "p' \<le> passes + 1 + length (outerLCCs r') + 1"
          "length (outerLCCs r'') \<le> length (outerLCCs r')"
          by blast
        have "passes < p'" "p' \<le> passes + length (outerLCCs r) + 1"
          "length (outerLCCs r'') \<le> length (outerLCCs r)"
          using res(3,4,5) lt by simp_all
        then show ?thesis unfolding eq using res(1,2) by blast
      qed
    qed
  qed
qed


text \<open>
  Claim C8. For every host and every state the reducer's loop ends: it stops on a failed
  assertion or returns after at most one scan more than the list has containers, and then
  no rule applies to any container of the final list. A scan tries the path rule first,
  the branch rule when the path rule returned false and the loop rule when both did; a
  rule that applies makes the global list strictly shorter, and the loop then scans the
  new list from its start.
\<close>

theorem traverseNReduce_terminates:
  "((\<exists>e. traverseNReduce h p r = Inl e) \<or>
    (\<exists>p' r'. traverseNReduce h p r = Inr (p', r') \<and>
       (\<forall>c \<in> set (outerLCCs r'). checkNApplyRules h c r' = Inr None) \<and>
       p < p' \<and> p' \<le> p + length (outerLCCs r) + 1 \<and>
       length (outerLCCs r') \<le> length (outerLCCs r))) \<and>
   (\<forall>c r'. checkNApplyRules h c r = Inr (Some r') \<longrightarrow>
       length (outerLCCs r') < length (outerLCCs r)) \<and>
   (\<forall>r'. scanLCCs h (outerLCCs r) r = Inr (Some r') \<longrightarrow>
       traverseNReduce h p r = traverseNReduce h (p + 1) r') \<and>
   (scanLCCs h (outerLCCs r) r = Inr None \<longrightarrow> traverseNReduce h p r = Inr (p + 1, r)) \<and>
   (\<forall>c r'. checkNCreatePathLCC h c r = Inr (Some r') \<longrightarrow>
       checkNApplyRules h c r = Inr (Some r')) \<and>
   (\<forall>c r'. checkNCreatePathLCC h c r = Inr None \<and> checkNCreateBranchLCC h c r = Inr (Some r')
       \<longrightarrow> checkNApplyRules h c r = Inr (Some r')) \<and>
   (\<forall>c. checkNCreatePathLCC h c r = Inr None \<and> checkNCreateBranchLCC h c r = Inr None
       \<longrightarrow> checkNApplyRules h c r = checkNCreateLoopLCC h c r)"
proof -
  have restart: "\<forall>r'. scanLCCs h (outerLCCs r) r = Inr (Some r') \<longrightarrow>
       traverseNReduce h p r = traverseNReduce h (p + 1) r'"
    by (simp add: traverseNReduce.simps[of h p r])
  have stop: "scanLCCs h (outerLCCs r) r = Inr None \<longrightarrow> traverseNReduce h p r = Inr (p + 1, r)"
    by (simp add: traverseNReduce.simps[of h p r])
  have order: "\<forall>c r'. checkNCreatePathLCC h c r = Inr (Some r') \<longrightarrow>
       checkNApplyRules h c r = Inr (Some r')"
    "\<forall>c r'. checkNCreatePathLCC h c r = Inr None \<and> checkNCreateBranchLCC h c r = Inr (Some r')
       \<longrightarrow> checkNApplyRules h c r = Inr (Some r')"
    "\<forall>c. checkNCreatePathLCC h c r = Inr None \<and> checkNCreateBranchLCC h c r = Inr None
       \<longrightarrow> checkNApplyRules h c r = checkNCreateLoopLCC h c r"
    by (auto simp: checkNApplyRules_def split: sum.splits option.splits)
  show ?thesis
    using traverseNReduce_result[of h p r] checkNApplyRules_decreases[of h _ r] restart stop order
    by blast
qed

theorem traverseNReduce_terminates_witness:
  "traverseNReduce example_host 0 example_reducer
     = Inr (3, \<lparr> lccGraph = (), outerLCCs = [100] \<rparr>) \<and>
   checkNApplyRules example_host 1 example_reducer
     = Inr (Some \<lparr> lccGraph = (), outerLCCs = [12, 3, 4, 5] \<rparr>) \<and>
   length [12, 3, 4, 5 :: nat] < length (outerLCCs example_reducer) \<and>
   checkNApplyRules example_host 100 \<lparr> lccGraph = (), outerLCCs = [100] \<rparr> = Inr None"
proof -
  let ?r1 = "\<lparr> lccGraph = (), outerLCCs = [12, 3, 4, 5 :: nat] \<rparr>"
  let ?r2 = "\<lparr> lccGraph = (), outerLCCs = [100 :: nat] \<rparr>"
  have p1: "checkNCreatePathLCC example_host 1 example_reducer = Inr (Some ?r1)"
    by (simp add: checkNCreatePathLCC_def example_host_def example_reducer_def
        replaceInGlobalList_def eraseFromGlobalLCCList_def insertAt_def)
  have p2: "checkNCreatePathLCC example_host 12 ?r1 = Inr None"
    by (simp add: checkNCreatePathLCC_def example_host_def)
  have b2: "checkNCreateBranchLCC example_host 12 ?r1 = Inr (Some ?r2)"
    by (simp add: checkNCreateBranchLCC_def example_host_def
        replaceInGlobalList_def eraseFromGlobalLCCList_def insertAt_def)
  have n3: "checkNCreatePathLCC example_host 100 ?r2 = Inr None"
    "checkNCreateBranchLCC example_host 100 ?r2 = Inr None"
    "checkNCreateLoopLCC example_host 100 ?r2 = Inr None"
    by (simp_all add: checkNCreatePathLCC_def checkNCreateBranchLCC_def checkNCreateLoopLCC_def
        example_host_def)
  note T0 = traverseNReduce_terminates [of example_host 0 example_reducer]
  note T1 = traverseNReduce_terminates [of example_host 1 ?r1]
  note T2 = traverseNReduce_terminates [of example_host 2 ?r2]
  have a1: "checkNApplyRules example_host 1 example_reducer = Inr (Some ?r1)"
    using T0 p1 by blast
  have a2: "checkNApplyRules example_host 12 ?r1 = Inr (Some ?r2)"
    using T1 p2 b2 by blast
  have a3: "checkNApplyRules example_host 100 ?r2 = Inr None"
    using T2 n3 by metis
  have s0: "scanLCCs example_host (outerLCCs example_reducer) example_reducer = Inr (Some ?r1)"
    using a1 by (simp add: example_reducer_def)
  have s1: "scanLCCs example_host (outerLCCs ?r1) ?r1 = Inr (Some ?r2)"
    using a2 by simp
  have s2: "scanLCCs example_host (outerLCCs ?r2) ?r2 = Inr None"
    using a3 by simp
  have e0: "traverseNReduce example_host 0 example_reducer = traverseNReduce example_host 1 ?r1"
    using T0 s0 by simp
  have e1: "traverseNReduce example_host 1 ?r1 = traverseNReduce example_host 2 ?r2"
    using T1 s1 by (metis one_add_one)
  have e2: "traverseNReduce example_host 2 ?r2 = Inr (3, ?r2)"
    using T2 s2 by simp
  have len: "length (outerLCCs ?r1) < length (outerLCCs example_reducer)"
    using T0 a1 by blast
  show ?thesis using e0 e1 e2 a1 a3 len by simp
qed


subsection \<open>Fallback of the loop transformer\<close>

lemma cdiv_pos: "0 \<le> a \<Longrightarrow> 0 < b \<Longrightarrow> cdiv a b = a div b"
  by (simp add: cdiv_def)

lemma instrumentLoopLCC_marker:
  assumes "unitLCCs s u = Some lcc" "lastInst lcc = Some i" "instrInfo (unitInstrs s u) i = None"
    "0 < b"
  shows "instrumentLoopLCC u (CONST_C b) s =
           Inr (s\<lparr> unitInstrs := (unitInstrs s)(u :=
                  (unitInstrs s u)\<lparr> toBeInstrumented := True,
                     instrInfo := (instrInfo (unitInstrs s u))(i \<mapsto> CONST_C b) \<rparr>) \<rparr>)"
  using assms
  by (simp add: instrumentLoopLCC_def unitInstrumentForIC_def setInstrInfo_def hasConstCost_def)

lemma instrumentSelfLoop_cases:
  assumes "selfLoop s (loopHeader L) = Some (CONST_C b)" "0 < b" "b \<le> CommitInterval c"
    "CommitInterval c < 2 ^ 31" "lastLCCofBB s (loopHeader L) = Inr u"
  shows "(CommitInterval c div b \<le> 10 \<or> \<not> hasInductionVariable L \<longrightarrow>
            instrumentSelfLoop tr c L s =
              (case instrumentLoopLCC u (CONST_C b) s of
                 Inl e \<Rightarrow> Inl e
               | Inr s1 \<Rightarrow> Inr (s1\<lparr> selfLoop := (selfLoop s1)(loopHeader L := None) \<rparr>))) \<and>
         (10 < CommitInterval c div b \<and> hasInductionVariable L \<longrightarrow>
            (\<forall>s'. tr L (CommitInterval c div b) b s = Inr (None, s') \<longrightarrow>
               instrumentSelfLoop tr c L s =
                 (case instrumentLoopLCC u (CONST_C b) s' of
                    Inl e \<Rightarrow> Inl e
                  | Inr s1 \<Rightarrow> Inr (s1\<lparr> selfLoop := (selfLoop s1)(loopHeader L := None) \<rparr>))) \<and>
            (\<forall>exitBlock s'. tr L (CommitInterval c div b) b s = Inr (Some exitBlock, s') \<longrightarrow>
               instrumentSelfLoop tr c L s =
                 Inr (s'\<lparr> self_loop_transform := self_loop_transform s' + 1,
                         selfLoop := (selfLoop s')(loopHeader L := None) \<rparr>)))"
proof -
  have n: "to_int (hasConstCost (Some (CONST_C b))) = b"
    using assms(2-4) by (simp add: hasConstCost_def to_int_id)
  have d: "cdiv (CommitInterval c) b = CommitInterval c div b" "0 \<le> CommitInterval c div b"
    using assms(2,3) by (simp_all add: cdiv_pos pos_imp_zdiv_nonneg_iff)
  show ?thesis
    using assms(1,2,3,5) d
    by (auto simp: instrumentSelfLoop_def n Let_def split: sum.splits)
qed

lemma instrumentSESELoop_cases:
  assumes "seseLoop s (loopHeader L) = Some (CONST_C b)" "0 < b" "b \<le> CommitInterval c"
    "CommitInterval c < 2 ^ 31" "loopLatch L = Some latchBBL" "lastLCCofBB s latchBBL = Inr u"
  shows "(CommitInterval c div b \<le> 10 \<or> \<not> hasInductionVariable L \<longrightarrow>
            instrumentSESELoop tr c L s =
              (case instrumentLoopLCC u (CONST_C b) s of
                 Inl e \<Rightarrow> Inl e
               | Inr s1 \<Rightarrow> Inr (s1\<lparr> seseLoop := (seseLoop s1)(loopHeader L := None) \<rparr>))) \<and>
         (10 < CommitInterval c div b \<and> hasInductionVariable L \<longrightarrow>
            (\<forall>s'. tr L (CommitInterval c div b) b s = Inr (None, s') \<longrightarrow>
               instrumentSESELoop tr c L s =
                 (case instrumentLoopLCC u (CONST_C b) s' of
                    Inl e \<Rightarrow> Inl e
                  | Inr s1 \<Rightarrow> Inr (s1\<lparr> seseLoop := (seseLoop s1)(loopHeader L := None) \<rparr>))) \<and>
            (\<forall>exitBlock s'. tr L (CommitInterval c div b) b s = Inr (Some exitBlock, s') \<longrightarrow>
               instrumentSESELoop tr c L s =
                 Inr (s'\<lparr> generic_loop_transform := generic_loop_transform s' + 1,
                         seseLoop := (seseLoop s')(loopHeader L := None) \<rparr>)))"
proof -
  have n: "to_int (hasConstCost (Some (CONST_C b))) = b"
    using assms(2-4) by (simp add: hasConstCost_def to_int_id)
  have d: "cdiv (CommitInterval c) b = CommitInterval c div b" "0 \<le> CommitInterval c div b"
    using assms(2,3) by (simp_all add: cdiv_pos pos_imp_zdiv_nonneg_iff)
  show ?thesis
    using assms(1,2,3,5,6) d
    by (auto simp: instrumentSESELoop_def n Let_def split: sum.splits)
qed


text \<open>
  Claim C6. Let a loop be scheduled in \<open>selfLoop\<close> (or \<open>seseLoop\<close>) with the constant
  body cost \<open>b\<close>, \<open>0 < b \<le> CommitInterval\<close> (the bound the function asserts). The
  transformer computes \<open>inner = CommitInterval / b\<close>. When \<open>inner \<le> 10\<close> or the loop has
  no induction variable it does not call the strip-mining transformation: it instruments
  the last unit container of the header block (of the latch block for a SESE loop) with
  \<open>b\<close> and removes the loop from the map. Otherwise it calls the transformation with
  \<open>inner\<close> and \<open>b\<close>; when that returns null it instruments in the same way, and when it
  returns an exit block it only counts the transformation. Instrumenting puts the marker
  \<open>b\<close> on the container's last instruction, which runs once per iteration.
\<close>

theorem instrumentLoop_fallback:
  "(selfLoop s (loopHeader L) = Some (CONST_C b) \<and> 0 < b \<and> b \<le> CommitInterval c \<and>
      CommitInterval c < 2 ^ 31 \<and> lastLCCofBB s (loopHeader L) = Inr u \<longrightarrow>
      (CommitInterval c div b \<le> 10 \<or> \<not> hasInductionVariable L \<longrightarrow>
         instrumentSelfLoop tr c L s =
           (case instrumentLoopLCC u (CONST_C b) s of
              Inl e \<Rightarrow> Inl e
            | Inr s1 \<Rightarrow> Inr (s1\<lparr> selfLoop := (selfLoop s1)(loopHeader L := None) \<rparr>))) \<and>
      (10 < CommitInterval c div b \<and> hasInductionVariable L \<longrightarrow>
         (\<forall>s'. tr L (CommitInterval c div b) b s = Inr (None, s') \<longrightarrow>
            instrumentSelfLoop tr c L s =
              (case instrumentLoopLCC u (CONST_C b) s' of
                 Inl e \<Rightarrow> Inl e
               | Inr s1 \<Rightarrow> Inr (s1\<lparr> selfLoop := (selfLoop s1)(loopHeader L := None) \<rparr>))) \<and>
         (\<forall>exitBlock s'. tr L (CommitInterval c div b) b s = Inr (Some exitBlock, s') \<longrightarrow>
            instrumentSelfLoop tr c L s =
              Inr (s'\<lparr> self_loop_transform := self_loop_transform s' + 1,
                      selfLoop := (selfLoop s')(loopHeader L := None) \<rparr>)))) \<and>
   (seseLoop s (loopHeader L) = Some (CONST_C b) \<and> 0 < b \<and> b \<le> CommitInterval c \<and>
      CommitInterval c < 2 ^ 31 \<and> loopLatch L = Some latchBBL \<and>
      lastLCCofBB s latchBBL = Inr u \<longrightarrow>
      (CommitInterval c div b \<le> 10 \<or> \<not> hasInductionVariable L \<longrightarrow>
         instrumentSESELoop tr c L s =
           (case instrumentLoopLCC u (CONST_C b) s of
              Inl e \<Rightarrow> Inl e
            | Inr s1 \<Rightarrow> Inr (s1\<lparr> seseLoop := (seseLoop s1)(loopHeader L := None) \<rparr>))) \<and>
      (10 < CommitInterval c div b \<and> hasInductionVariable L \<longrightarrow>
         (\<forall>s'. tr L (CommitInterval c div b) b s = Inr (None, s') \<longrightarrow>
            instrumentSESELoop tr c L s =
              (case instrumentLoopLCC u (CONST_C b) s' of
                 Inl e \<Rightarrow> Inl e
               | Inr s1 \<Rightarrow> Inr (s1\<lparr> seseLoop := (seseLoop s1)(loopHeader L := None) \<rparr>))) \<and>
         (\<forall>exitBlock s'. tr L (CommitInterval c div b) b s = Inr (Some exitBlock, s') \<longrightarrow>
            instrumentSESELoop tr c L s =
              Inr (s'\<lparr> generic_loop_transform := generic_loop_transform s' + 1,
                      seseLoop := (seseLoop s')(loopHeader L := None) \<rparr>)))) \<and>
   (\<forall>s0 lcc i. unitLCCs s0 u = Some lcc \<and> lastInst lcc = Some i \<and>
        instrInfo (unitInstrs s0 u) i = None \<and> 0 < b \<longrightarrow>
      instrumentLoopLCC u (CONST_C b) s0 =
        Inr (s0\<lparr> unitInstrs := (unitInstrs s0)(u :=
               (unitInstrs s0 u)\<lparr> toBeInstrumented := True,
                  instrInfo := (instrInfo (unitInstrs s0 u))(i \<mapsto> CONST_C b) \<rparr>) \<rparr>))"
proof (intro conjI impI allI)
qed (use instrumentSelfLoop_cases [of s L b c u tr] instrumentSESELoop_cases [of s L b c latchBBL u tr]
      instrumentLoopLCC_marker [of _ u _ _ b] in \<open>(simp; fail | blast)+\<close>)


theorem instrumentLoop_fallback_witness:
  "instrumentSelfLoop example_failing_transform example_config example_loop example_loopPass =
     Inr (example_loopPass
            \<lparr> unitInstrs := (unitInstrs example_loopPass)(0 :=
                 \<lparr> toBeInstrumented = True, instrInfo = [3 \<mapsto> CONST_C 200] \<rparr>),
              selfLoop := Map.empty \<rparr>) \<and>
   instrumentSESELoop example_failing_transform example_config example_loop example_loopPass =
     Inr (example_loopPass
            \<lparr> unitInstrs := (unitInstrs example_loopPass)(0 :=
                 \<lparr> toBeInstrumented = True, instrInfo = [3 \<mapsto> CONST_C 200] \<rparr>),
              seseLoop := Map.empty \<rparr>) \<and>
   CommitInterval example_config div 200 \<le> 10"
proof -
  note T = instrumentLoop_fallback [of example_loopPass example_loop 200 example_config 0
      example_failing_transform "''for.body''"]
  have h: "selfLoop example_loopPass (loopHeader example_loop) = Some (CONST_C 200)"
    "seseLoop example_loopPass (loopHeader example_loop) = Some (CONST_C 200)"
    "(200::int) \<le> CommitInterval example_config" "CommitInterval example_config < 2 ^ 31"
    "loopLatch example_loop = Some ''for.body''"
    "lastLCCofBB example_loopPass (loopHeader example_loop) = Inr 0"
    "lastLCCofBB example_loopPass ''for.body'' = Inr 0"
    "CommitInterval example_config div 200 \<le> 10"
    by (simp_all add: example_loopPass_def example_loop_def example_config_def lastLCCofBB_def)
  have m: "unitLCCs example_loopPass 0 = Some \<lparr> lccID = 0, currentBlock = ''for.body'',
              firstInst = Some 1, lastInst = Some 3, isExitLCC = False \<rparr>"
    "instrInfo (unitInstrs example_loopPass 0) 3 = None"
    by (simp_all add: example_loopPass_def)
  have mk: "instrumentLoopLCC 0 (CONST_C 200) example_loopPass =
        Inr (example_loopPass\<lparr> unitInstrs := (unitInstrs example_loopPass)(0 :=
               (unitInstrs example_loopPass 0)\<lparr> toBeInstrumented := True,
                  instrInfo := (instrInfo (unitInstrs example_loopPass 0))(3 \<mapsto> CONST_C 200) \<rparr>) \<rparr>)"
    using T [THEN conjunct2, THEN conjunct2, rule_format, of example_loopPass _ 3] m by simp
  have u: "(unitInstrs example_loopPass 0)\<lparr> toBeInstrumented := True,
             instrInfo := (instrInfo (unitInstrs example_loopPass 0))(3 \<mapsto> CONST_C 200) \<rparr>
           = \<lparr> toBeInstrumented = True, instrInfo = [3 \<mapsto> CONST_C 200] \<rparr>"
    by (simp add: example_loopPass_def)
  have e: "(selfLoop example_loopPass)(loopHeader example_loop := None) = Map.empty"
    "(seseLoop example_loopPass)(loopHeader example_loop := None) = Map.empty"
    by (simp_all add: example_loopPass_def example_loop_def)
  have self: "instrumentSelfLoop example_failing_transform example_config example_loop
                example_loopPass =
     Inr (example_loopPass
            \<lparr> unitInstrs := (unitInstrs example_loopPass)(0 :=
                 \<lparr> toBeInstrumented = True, instrInfo = [3 \<mapsto> CONST_C 200] \<rparr>),
              selfLoop := Map.empty \<rparr>)"
    using T [THEN conjunct1] h mk u e by simp
  have sese: "instrumentSESELoop example_failing_transform example_config example_loop
                example_loopPass =
     Inr (example_loopPass
            \<lparr> unitInstrs := (unitInstrs example_loopPass)(0 :=
                 \<lparr> toBeInstrumented = True, instrInfo = [3 \<mapsto> CONST_C 200] \<rparr>),
              seseLoop := Map.empty \<rparr>)"
    using T [THEN conjunct2, THEN conjunct1] h mk u e by simp
  show ?thesis using self sese h(8) by simp
qed


subsection \<open>The probe: commit and the disabled count\<close>






















subsection \<open>The library cost file\<close>

text \<open>
  Decimal printing and \<open>atoi\<close>, one line through \<open>getline\<close> and \<open>strtok\<close>, and the loop
  of \<open>readCost\<close> over the lines \<open>writeCost\<close> wrote.
\<close>

lemma showNat_digits: "\<forall>c \<in> set (showNat n). isdigit c"
proof (induction n rule: showNat.induct)
  case (1 n)
  show ?case
  proof (cases "n < 10")
    case True
    then show ?thesis by (subst showNat.simps) (simp add: isdigit_def)
  next
    case False
    have "n mod 10 < 10" by simp
    then have "isdigit (char_of (48 + n mod 10))"
      by (simp add: isdigit_def) 
    with 1 False show ?thesis by (subst showNat.simps) simp
  qed
qed

lemma showNat_nonempty: "showNat n \<noteq> []"
  by (subst showNat.simps) simp

lemma foldl_showNat:
  "foldl (\<lambda>a c. 10 * a + (int (of_char c) - 48)) 0 (showNat n) = int n"
proof (induction n rule: showNat.induct)
  case (1 n)
  show ?case
  proof (cases "n < 10")
    case True
    then show ?thesis by (subst showNat.simps) simp
  next
    case False
    have "10 * int (n div 10) + int (n mod 10) = int n"
      by (simp add: zdiv_int zmod_int)
    with 1 False show ?thesis by (subst showNat.simps) simp
  qed
qed


lemma isdigit_not_space: "isdigit c \<Longrightarrow> \<not> isspace c \<and> c \<noteq> CHR ''-'' \<and> c \<noteq> CHR ''+'' \<and> c \<noteq> CHR '':'' \<and> c \<noteq> CHR 0x0A \<and> c \<noteq> CHR 0x00"
  by (auto simp: isdigit_def isspace_def)

lemma atoi_showNat:
  assumes "n < 2 ^ 31"
  shows "atoi (showNat n) = Inr (int n)"
proof -
  obtain c cs where cs: "showNat n = c # cs"
    using showNat_nonempty [of n] by (cases "showNat n") auto
  have dig: "\<forall>c \<in> set (showNat n). isdigit c" by (rule showNat_digits)
  then have c: "isdigit c" using cs by simp
  have d: "dropWhile isspace (showNat n) = showNat n"
    using c isdigit_not_space [of c] by (simp add: cs)
  have t: "takeWhile isdigit (showNat n) = showNat n"
    using dig by (simp add: takeWhile_eq_all_conv)
  have i: "int n < 2 ^ 31" using assms by (metis of_nat_less_iff of_nat_numeral of_nat_power)
  have h: "hd (showNat n) \<noteq> CHR ''-''" "hd (showNat n) \<noteq> CHR ''+''"
    using c isdigit_not_space [of c] by (simp_all add: cs)
  show ?thesis
    unfolding atoi_def d Let_def
    using i by (simp add: h t foldl_showNat)
qed

lemma extractChars_line:
  "CHR 0x0A \<notin> set l \<Longrightarrow> length l \<le> k \<Longrightarrow> extractChars k (l @ CHR 0x0A # r) = (l, r, AtDelim)"
  by (induction l arbitrary: k) auto

lemma getline_line:
  assumes "CHR 0x0A \<notin> set l" "length l \<le> 127"
  shows "getline 128 \<lparr> content = l @ CHR 0x0A # r, eofbit = False, failbit = False \<rparr>
         = (l, \<lparr> content = r, eofbit = False, failbit = False \<rparr>)"
  using extractChars_line [OF assms(1), of 127 r] assms(2) by (simp add: getline_def)

lemma cstr_id: "CHR 0x00 \<notin> set l \<Longrightarrow> cstr l = l"
  by (auto simp: cstr_def takeWhile_eq_all_conv)

lemma takeWhile_until: "d \<notin> set xs \<Longrightarrow> takeWhile (\<lambda>c. c \<noteq> d) (xs @ d # rest) = xs"
  by (induction xs) auto

lemma dropWhile_until: "d \<notin> set xs \<Longrightarrow> dropWhile (\<lambda>c. c \<noteq> d) (xs @ d # rest) = d # rest"
  by (induction xs) auto

lemma takeWhile_no_delim: "d \<notin> set xs \<Longrightarrow> takeWhile (\<lambda>c. c \<noteq> d) xs = xs"
  by (induction xs) auto

lemma dropWhile_no_delim: "d \<notin> set xs \<Longrightarrow> dropWhile (\<lambda>c. c \<noteq> d) xs = []"
  by (induction xs) auto

lemma strtok_first:
  assumes "name \<noteq> []" "d \<notin> set name"
  shows "strtok d (name @ d # rest) = Some (name, rest)"
proof -
  obtain c cs where n: "name = c # cs" using assms(1) by (cases name) auto
  have c: "c \<noteq> d" using assms(2) n by auto
  have t: "takeWhile (\<lambda>c. c \<noteq> d) (name @ d # rest) = name"
    using assms(2) by (rule takeWhile_until)
  have dr: "dropWhile (\<lambda>c. c \<noteq> d) (name @ d # rest) = d # rest"
    using assms(2) by (rule dropWhile_until)
  have "dropWhile (\<lambda>c. c = d) (name @ d # rest) = name @ d # rest"
    using c by (simp add: n)
  then show ?thesis using t dr by (simp add: strtok_def n)
qed

lemma strtok_last:
  assumes "s \<noteq> []" "d \<notin> set s"
  shows "strtok d s = Some (s, [])"
proof -
  obtain c cs where n: "s = c # cs" using assms(1) by (cases s) auto
  have c: "c \<noteq> d" using assms(2) n by auto
  have t: "takeWhile (\<lambda>c. c \<noteq> d) s = s"
    using assms(2) by (rule takeWhile_no_delim)
  have dr: "dropWhile (\<lambda>c. c \<noteq> d) s = []"
    using assms(2) by (rule dropWhile_no_delim)
  have "dropWhile (\<lambda>c. c = d) s = s"
    using c by (simp add: n)
  then show ?thesis using t dr by (simp add: strtok_def Let_def n)
qed


lemma showInt_nonneg: "0 \<le> n \<Longrightarrow> showInt n = showNat (nat n)"
  by (simp add: showInt_def)

lemma readLoop_header:
  "readLoop (Suc fuel) \<lparr> content = ''Cost File'' @ [CHR 0x0A] @ rest, eofbit = False, failbit = False \<rparr> True lib
   = readLoop fuel \<lparr> content = rest, eofbit = False, failbit = False \<rparr> False lib"
proof -
  have "getline 128 \<lparr> content = ''Cost File'' @ CHR 0x0A # rest, eofbit = False, failbit = False \<rparr>
        = (''Cost File'', \<lparr> content = rest, eofbit = False, failbit = False \<rparr>)"
    by (rule getline_line) simp_all
  then show ?thesis by (simp add: cstr_def)
qed

lemma readLoop_end:
  "readLoop (Suc (Suc fuel)) \<lparr> content = [], eofbit = False, failbit = False \<rparr> False lib
   = Some (Inr (True, lib))"
  by (simp add: getline_def cstr_def)

lemma readLoop_line:
  assumes ok: "fitsLine name n"
  shows "readLoop (Suc fuel)
           \<lparr> content = (name @ '':'' @ showInt n @ [CHR 0x0A]) @ rest, eofbit = False, failbit = False \<rparr>
           False lib
         = readLoop fuel \<lparr> content = rest, eofbit = False, failbit = False \<rparr> False
             (lib(name \<mapsto> CONST_C n))"
proof -
  let ?d = "showNat (nat n)"
  let ?l = "name @ CHR '':'' # ?d"
  have n0: "0 \<le> n" and n31: "n < 2 ^ 31" using ok by (simp_all add: fitsLine_def)
  have sh: "showInt n = ?d" using n0 by (rule showInt_nonneg)
  have dig: "\<forall>c \<in> set ?d. isdigit c" by (rule showNat_digits)
  have dn: "CHR '':'' \<notin> set ?d" "CHR 0x0A \<notin> set ?d" "CHR 0x00 \<notin> set ?d"
    using dig isdigit_not_space by blast+
  have nl: "CHR 0x0A \<notin> set ?l" and z: "CHR 0x00 \<notin> set ?l"
    using ok dn by (simp_all add: fitsLine_def)
  have len: "length ?l \<le> 127" using ok by (simp add: fitsLine_def sh)
  have g: "getline 128 \<lparr> content = name @ CHR '':'' # ?d @ CHR 0x0A # rest,
                           eofbit = False, failbit = False \<rparr>
        = (?l, \<lparr> content = rest, eofbit = False, failbit = False \<rparr>)"
    using getline_line [OF nl len, of rest] by simp
  have c: "cstr ?l = ?l" using z by (rule cstr_id)
  have t1: "strtok CHR '':'' ?l = Some (name, ?d)"
    using ok by (intro strtok_first) (simp_all add: fitsLine_def)
  have t2: "strtok CHR '':'' ?d = Some (?d, [])"
    using dn(1) showNat_nonempty by (intro strtok_last) simp_all
  have "nat n < 2 ^ 31" using n0 n31 by (simp add: nat_less_iff)
  then have a: "atoi ?d = Inr n" using atoi_showNat [of "nat n"] n0 by simp
  have e: "(name @ '':'' @ showInt n @ [CHR 0x0A]) @ rest = name @ CHR '':'' # ?d @ CHR 0x0A # rest"
    by (simp add: sh)
  show ?thesis
    unfolding e by (simp add: g c t1 t2 a)
qed


lemma costLine_const:
  assumes "costLine simplifyCost info F = Inr l" "l \<noteq> []"
      and "info (fname F) = Some found" "cost found = Some (CONST_C n)"
  shows "l = fname F @ '':'' @ showInt n @ [CHR 0x0A]"
  using assms by (auto simp: costLine_def Let_def split: if_splits sum.splits)

lemma readLoop_costLines:
  assumes "costLines simplifyCost info M = Inr ls"
      and "\<forall>F \<in> set M. costLine simplifyCost info F = Inr [] \<or>
             (\<exists>found n. info (fname F) = Some found \<and> cost found = Some (CONST_C n) \<and>
                        fitsLine (fname F) n)"
      and "length M + 2 \<le> fuel"
  shows "\<exists>lib'. readLoop fuel \<lparr> content = ls, eofbit = False, failbit = False \<rparr> False lib
                   = Some (Inr (True, lib')) \<and>
           (\<forall>name. lib' name =
              (if \<exists>F \<in> set M. fname F = name \<and> costLine simplifyCost info F \<noteq> Inr []
               then Option.bind (info name) cost else lib name))"
  using assms
proof (induction M arbitrary: ls fuel lib)
  case Nil
  then have ls: "ls = []" by simp
  from Nil obtain k where k: "fuel = Suc (Suc k)"
    by (metis add_0 le_Suc_ex list.size(3) add_2_eq_Suc)
  show ?case unfolding ls k
    by (rule exI [of _ lib]) (simp del: readLoop.simps add: readLoop_end)
next
  case (Cons F M)
  from Cons.prems(1) obtain l ls' where l: "costLine simplifyCost info F = Inr l"
    and ls': "costLines simplifyCost info M = Inr ls'" and ls: "ls = l @ ls'"
    by (auto split: sum.splits)
  from Cons.prems(3) obtain k where k: "fuel = Suc k" and kM: "length M + 2 \<le> k"
    by (cases fuel) auto
  have okM: "\<forall>F \<in> set M. costLine simplifyCost info F = Inr [] \<or>
             (\<exists>found n. info (fname F) = Some found \<and> cost found = Some (CONST_C n) \<and>
                        fitsLine (fname F) n)"
    using Cons.prems(2) by simp
  show ?case
  proof (cases "l = []")
    case True
    have kM': "length M + 2 \<le> fuel" using kM k by simp
    from Cons.IH [OF ls' okM kM', of lib] obtain lib'
      where r: "readLoop fuel \<lparr> content = ls', eofbit = False, failbit = False \<rparr> False lib
                 = Some (Inr (True, lib'))"
        and e: "\<forall>name. lib' name =
              (if \<exists>F \<in> set M. fname F = name \<and> costLine simplifyCost info F \<noteq> Inr []
               then Option.bind (info name) cost else lib name)"
      by blast
    show ?thesis using r e l True ls by auto
  next
    case False
    with Cons.prems(2) l obtain found n where f: "info (fname F) = Some found"
      and c: "cost found = Some (CONST_C n)" and ok: "fitsLine (fname F) n"
      by auto
    have le: "l = fname F @ '':'' @ showInt n @ [CHR 0x0A]"
      using costLine_const [OF l False f c] .
    from Cons.IH [OF ls' okM kM, of "lib(fname F \<mapsto> CONST_C n)"] obtain lib'
      where r: "readLoop k \<lparr> content = ls', eofbit = False, failbit = False \<rparr> False
                  (lib(fname F \<mapsto> CONST_C n)) = Some (Inr (True, lib'))"
        and e: "\<forall>name. lib' name =
              (if \<exists>F \<in> set M. fname F = name \<and> costLine simplifyCost info F \<noteq> Inr []
               then Option.bind (info name) cost else (lib(fname F \<mapsto> CONST_C n)) name)"
      by blast
    have "readLoop fuel \<lparr> content = ls, eofbit = False, failbit = False \<rparr> False lib
          = Some (Inr (True, lib'))"
      unfolding k ls le using readLoop_line [OF ok, of k ls' lib] r
      by (simp del: readLoop.simps)
    moreover have "\<forall>name. lib' name =
              (if \<exists>G \<in> set (F # M). fname G = name \<and> costLine simplifyCost info G \<noteq> Inr []
               then Option.bind (info name) cost else lib name)"
      using e l False f c by auto
    ultimately show ?thesis by blast
  qed
qed


text \<open>
  Claim C3, as the code has it. \<open>writeCost\<close> writes nothing for a declaration, for a
  function without function info, for one whose stored cost is null and for one whose
  simplified cost is not a constant that is positive as an \<open>int\<close>. For a defined function
  whose simplified cost is a constant \<open>k\<close> that is positive as an \<open>int\<close>, the stored cost
  being that constant, it writes the line of the name, a colon and \<open>k\<close> in decimal. When an
  output path is given, the file is the line \<open>Cost File\<close> followed by these lines. If
  every function that gets a line has such a constant, which fits its line with its name
  (\<open>fitsLine\<close>), \<open>readCost\<close> on the file written returns true within \<open>length M + 3\<close>
  iterations, and the table it leaves maps the name of every function that got a line to
  exactly its simplified constant and every other name to what it was mapped to before:
  a name that is not in the file gets no entry. With no input path \<open>readCost\<close> returns
  true and leaves the table alone; with an input path that cannot be opened it returns
  false.
\<close>

theorem writeCost_readCost_round_trip:
  "((blocks F = [] \<or> info (fname F) = None \<or>
     (\<exists>found. info (fname F) = Some found \<and> cost found = None))
      \<longrightarrow> costLine simplifyCost info F = Inr []) \<and>
   (\<forall>found funcCost simplifiedCost.
       blocks F \<noteq> [] \<and> info (fname F) = Some found \<and> cost found = Some funcCost \<and>
       simplifyCost (fname F) funcCost = Inr simplifiedCost \<and>
       \<not> 0 < to_int (getConstCostWithoutAssert simplifiedCost) \<longrightarrow>
       costLine simplifyCost info F = Inr []) \<and>
   (\<forall>found k.
       blocks F \<noteq> [] \<and> info (fname F) = Some found \<and> cost found = Some (CONST_C k) \<and>
       simplifyCost (fname F) (CONST_C k) = Inr (Some (CONST_C k)) \<and> 0 < to_int k \<longrightarrow>
       costLine simplifyCost info F = Inr (fname F @ '':'' @ showInt k @ [CHR 0x0A])) \<and>
   (\<forall>fs'. path \<noteq> [] \<and> writeCost simplifyCost path M info fs = Inr fs' \<and>
       (\<forall>G \<in> set M. costLine simplifyCost info G = Inr [] \<or>
          (\<exists>found k. info (fname G) = Some found \<and> cost found = Some (CONST_C k) \<and>
                     simplifyCost (fname G) (CONST_C k) = Inr (Some (CONST_C k)) \<and>
                     fitsLine (fname G) k)) \<and>
       length M + 3 \<le> fuel \<longrightarrow>
       (\<exists>ls lib'. costLines simplifyCost info M = Inr ls \<and>
          fs' path = Some (''Cost File'' @ [CHR 0x0A] @ ls) \<and>
          readCost fuel path fs' lib = Some (Inr (True, lib')) \<and>
          (\<forall>G \<in> set M. \<forall>found funcCost k.
              costLine simplifyCost info G \<noteq> Inr [] \<and> info (fname G) = Some found \<and>
              cost found = Some funcCost \<and>
              simplifyCost (fname G) funcCost = Inr (Some (CONST_C k)) \<longrightarrow>
              lib' (fname G) = Some (CONST_C k)) \<and>
          (\<forall>name. (\<forall>G \<in> set M. fname G = name \<longrightarrow> costLine simplifyCost info G = Inr [])
              \<longrightarrow> lib' name = lib name))) \<and>
   readCost fuel [] fs lib = Some (Inr (True, lib)) \<and>
   (path \<noteq> [] \<and> fs path = None \<longrightarrow> readCost fuel path fs lib = Some (Inr (False, lib)))"
proof -
  have a: "(blocks F = [] \<or> info (fname F) = None \<or>
     (\<exists>found. info (fname F) = Some found \<and> cost found = None))
      \<longrightarrow> costLine simplifyCost info F = Inr []"
    by (auto simp: costLine_def to_int_def getConstCostWithoutAssert_def)
  have b1: "\<forall>found funcCost simplifiedCost.
       blocks F \<noteq> [] \<and> info (fname F) = Some found \<and> cost found = Some funcCost \<and>
       simplifyCost (fname F) funcCost = Inr simplifiedCost \<and>
       \<not> 0 < to_int (getConstCostWithoutAssert simplifiedCost) \<longrightarrow>
       costLine simplifyCost info F = Inr []"
    by (simp add: costLine_def Let_def)
  have b2: "\<forall>found k.
       blocks F \<noteq> [] \<and> info (fname F) = Some found \<and> cost found = Some (CONST_C k) \<and>
       simplifyCost (fname F) (CONST_C k) = Inr (Some (CONST_C k)) \<and> 0 < to_int k \<longrightarrow>
       costLine simplifyCost info F = Inr (fname F @ '':'' @ showInt k @ [CHR 0x0A])"
    by (simp add: costLine_def Let_def getConstCostWithoutAssert_def)
  have c: "\<forall>fs'. path \<noteq> [] \<and> writeCost simplifyCost path M info fs = Inr fs' \<and>
       (\<forall>G \<in> set M. costLine simplifyCost info G = Inr [] \<or>
          (\<exists>found k. info (fname G) = Some found \<and> cost found = Some (CONST_C k) \<and>
                     simplifyCost (fname G) (CONST_C k) = Inr (Some (CONST_C k)) \<and>
                     fitsLine (fname G) k)) \<and>
       length M + 3 \<le> fuel \<longrightarrow>
       (\<exists>ls lib'. costLines simplifyCost info M = Inr ls \<and>
          fs' path = Some (''Cost File'' @ [CHR 0x0A] @ ls) \<and>
          readCost fuel path fs' lib = Some (Inr (True, lib')) \<and>
          (\<forall>G \<in> set M. \<forall>found funcCost k.
              costLine simplifyCost info G \<noteq> Inr [] \<and> info (fname G) = Some found \<and>
              cost found = Some funcCost \<and>
              simplifyCost (fname G) funcCost = Inr (Some (CONST_C k)) \<longrightarrow>
              lib' (fname G) = Some (CONST_C k)) \<and>
          (\<forall>name. (\<forall>G \<in> set M. fname G = name \<longrightarrow> costLine simplifyCost info G = Inr [])
              \<longrightarrow> lib' name = lib name))"
  proof (intro allI impI, elim conjE)
    fix fs'
    assume path: "path \<noteq> []" and wr: "writeCost simplifyCost path M info fs = Inr fs'"
      and ok: "\<forall>G \<in> set M. costLine simplifyCost info G = Inr [] \<or>
          (\<exists>found k. info (fname G) = Some found \<and> cost found = Some (CONST_C k) \<and>
                     simplifyCost (fname G) (CONST_C k) = Inr (Some (CONST_C k)) \<and>
                     fitsLine (fname G) k)"
      and fuel: "length M + 3 \<le> fuel"
    from ok have ok': "\<forall>G \<in> set M. costLine simplifyCost info G = Inr [] \<or>
          (\<exists>found k. info (fname G) = Some found \<and> cost found = Some (CONST_C k) \<and>
                     fitsLine (fname G) k)"
      by blast
    from wr path obtain ls where ls: "costLines simplifyCost info M = Inr ls"
      and fs': "fs' = fs(path \<mapsto> ''Cost File'' @ [CHR 0x0A] @ ls)"
      by (auto simp: writeCost_def split: sum.splits)
    from fuel obtain k where k: "fuel = Suc k" and kM: "length M + 2 \<le> k"
      by (cases fuel) auto
    from readLoop_costLines [OF ls ok' kM, of lib] obtain lib'
      where r: "readLoop k \<lparr> content = ls, eofbit = False, failbit = False \<rparr> False lib
                 = Some (Inr (True, lib'))"
        and e: "\<forall>name. lib' name =
              (if \<exists>G \<in> set M. fname G = name \<and> costLine simplifyCost info G \<noteq> Inr []
               then Option.bind (info name) cost else lib name)"
      by blast
    have rd: "readCost fuel path fs' lib = Some (Inr (True, lib'))"
      using path r readLoop_header [of k ls lib]
      by (simp add: readCost_def fs' k del: readLoop.simps)
    have written: "\<forall>G \<in> set M. \<forall>found funcCost k.
              costLine simplifyCost info G \<noteq> Inr [] \<and> info (fname G) = Some found \<and>
              cost found = Some funcCost \<and>
              simplifyCost (fname G) funcCost = Inr (Some (CONST_C k)) \<longrightarrow>
              lib' (fname G) = Some (CONST_C k)"
    proof (intro ballI allI impI, elim conjE)
      fix G found funcCost n
      assume G: "G \<in> set M" and l: "costLine simplifyCost info G \<noteq> Inr []"
        and i: "info (fname G) = Some found" and c: "cost found = Some funcCost"
        and s: "simplifyCost (fname G) funcCost = Inr (Some (CONST_C n))"
      from ok G l i c obtain m where m: "funcCost = CONST_C m"
        "simplifyCost (fname G) (CONST_C m) = Inr (Some (CONST_C m))"
        by auto
      with s have "m = n" by simp
      moreover have "lib' (fname G) = Option.bind (info (fname G)) cost"
        using e G l by auto
      ultimately show "lib' (fname G) = Some (CONST_C n)" using i c m by simp
    qed
    have others: "\<forall>name. (\<forall>G \<in> set M. fname G = name \<longrightarrow> costLine simplifyCost info G = Inr [])
              \<longrightarrow> lib' name = lib name"
      using e by auto
    from ls fs' rd written others
    show "\<exists>ls lib'. costLines simplifyCost info M = Inr ls \<and>
          fs' path = Some (''Cost File'' @ [CHR 0x0A] @ ls) \<and>
          readCost fuel path fs' lib = Some (Inr (True, lib')) \<and>
          (\<forall>G \<in> set M. \<forall>found funcCost k.
              costLine simplifyCost info G \<noteq> Inr [] \<and> info (fname G) = Some found \<and>
              cost found = Some funcCost \<and>
              simplifyCost (fname G) funcCost = Inr (Some (CONST_C k)) \<longrightarrow>
              lib' (fname G) = Some (CONST_C k)) \<and>
          (\<forall>name. (\<forall>G \<in> set M. fname G = name \<longrightarrow> costLine simplifyCost info G = Inr [])
              \<longrightarrow> lib' name = lib name)"
      by (intro exI [of _ ls] exI [of _ lib'] conjI) simp_all
  qed
  have d: "readCost fuel [] fs lib = Some (Inr (True, lib))"
    "path \<noteq> [] \<and> fs path = None \<longrightarrow> readCost fuel path fs lib = Some (Inr (False, lib))"
    by (simp_all add: readCost_def)
  show ?thesis using a b1 b2 c d by blast
qed


lemma digit_chars:
  "char_of (48 :: nat) = CHR ''0''" "char_of (49 :: nat) = CHR ''1''"
  "char_of (50 :: nat) = CHR ''2''" "char_of (51 :: nat) = CHR ''3''"
  "char_of (52 :: nat) = CHR ''4''" "char_of (53 :: nat) = CHR ''5''"
  "char_of (54 :: nat) = CHR ''6''" "char_of (55 :: nat) = CHR ''7''"
  "char_of (56 :: nat) = CHR ''8''" "char_of (57 :: nat) = CHR ''9''"
  by (simp_all add: char_of_eq_iff)

lemmas costFile_defs = digit_chars writeCost_def costLine_def readCost_def cstr_def strtok_def
  atoi_def isspace_def isdigit_def showInt_def showNat.simps nary_def castExpr_def
  getConstCostWithoutAssert_def to_int_def Let_def

lemmas example_module_defs = example_module_def example_info_def
  example_block_def example_simplifyCost_def example_simplify_def

text \<open>
  The theorem at \<open>example_module\<close>: only \<open>helper\<close> gets a line, and reading the file
  adds \<open>helper\<close> with cost 7 to a table that held \<open>memcpy\<close>.
\<close>

theorem writeCost_readCost_round_trip_witness:
  "writeCost example_simplifyCost ''lib.cost'' example_module example_info Map.empty =
     Inr [''lib.cost'' \<mapsto> ''Cost File'' @ [CHR 0x0A] @ ''helper:7'' @ [CHR 0x0A]] \<and>
   readCost 6 ''lib.cost'' [''lib.cost'' \<mapsto> ''Cost File'' @ [CHR 0x0A] @ ''helper:7'' @ [CHR 0x0A]]
       [''memcpy'' \<mapsto> CONST_C 10] =
     Some (Inr (True, [''memcpy'' \<mapsto> CONST_C 10, ''helper'' \<mapsto> CONST_C 7]))"
proof -
  let ?fs' = "[''lib.cost'' \<mapsto> ''Cost File'' @ [CHR 0x0A] @ ''helper:7'' @ [CHR 0x0A]]"
  let ?lib = "[''memcpy'' \<mapsto> CONST_C 10]"
  let ?helper = "\<lparr> fname = ''helper'', blocks = [example_block] \<rparr>"
  have line: "costLine example_simplifyCost example_info ?helper = Inr (''helper:7'' @ [CHR 0x0A])"
    "costLine example_simplifyCost example_info \<lparr> fname = ''printf'', blocks = [] \<rparr> = Inr []"
    "costLine example_simplifyCost example_info \<lparr> fname = ''scale'', blocks = [example_block] \<rparr> = Inr []"
    by (simp_all add: costFile_defs example_module_defs)
  have wr: "writeCost example_simplifyCost ''lib.cost'' example_module example_info Map.empty = Inr ?fs'"
    by (simp add: writeCost_def example_module_def line)
  have fits: "fitsLine ''helper'' 7"
    by (simp add: fitsLine_def showInt_def showNat.simps)
  have ih: "example_info ''helper'' = Some \<lparr> hasFence = False, cost = Some (CONST_C 7) \<rparr>"
    by (simp add: example_info_def)
  have sh: "example_simplifyCost ''helper'' (CONST_C 7) = Inr (Some (CONST_C 7))"
    by (simp add: example_simplifyCost_def example_simplify_def)
  have ok: "\<forall>G \<in> set example_module. costLine example_simplifyCost example_info G = Inr [] \<or>
          (\<exists>found k. example_info (fname G) = Some found \<and> cost found = Some (CONST_C k) \<and>
                     example_simplifyCost (fname G) (CONST_C k) = Inr (Some (CONST_C k)) \<and>
                     fitsLine (fname G) k)"
    using fits sh by (simp add: example_module_def line ih)
  note T = writeCost_readCost_round_trip [of _ example_info example_simplifyCost "''lib.cost''"
      example_module Map.empty 6 ?lib]
  note R = T [THEN conjunct2, THEN conjunct2, THEN conjunct2, THEN conjunct1, rule_format, of ?fs']
  have ne: "''lib.cost'' \<noteq> []" by simp
  have len: "length example_module + 3 \<le> 6" by (simp add: example_module_def)
  from R [OF conjI [OF ne conjI [OF wr conjI [OF ok len]]]] obtain lib' where
    r: "readCost 6 ''lib.cost'' ?fs' ?lib = Some (Inr (True, lib'))" and
    w: "\<forall>G \<in> set example_module. \<forall>found funcCost k.
              costLine example_simplifyCost example_info G \<noteq> Inr [] \<and>
              example_info (fname G) = Some found \<and> cost found = Some funcCost \<and>
              example_simplifyCost (fname G) funcCost = Inr (Some (CONST_C k)) \<longrightarrow>
              lib' (fname G) = Some (CONST_C k)" and
    o: "\<forall>name. (\<forall>G \<in> set example_module. fname G = name \<longrightarrow>
                   costLine example_simplifyCost example_info G = Inr [])
              \<longrightarrow> lib' name = ?lib name"
    by blast
  have h: "lib' ''helper'' = Some (CONST_C 7)"
    using w [rule_format, of ?helper _ "CONST_C 7" 7] ih sh
    by (simp add: example_module_def line)
  have n: "lib' name = ?lib name" if "name \<noteq> ''helper''" for name
  proof -
    have "\<forall>G \<in> set example_module. fname G = name \<longrightarrow>
            costLine example_simplifyCost example_info G = Inr []"
      using that by (auto simp: example_module_def line)
    then show ?thesis using o by blast
  qed
  have "lib' = [''memcpy'' \<mapsto> CONST_C 10, ''helper'' \<mapsto> CONST_C 7]"
  proof
    fix name
    show "lib' name = [''memcpy'' \<mapsto> CONST_C 10, ''helper'' \<mapsto> CONST_C 7] name"
      using h n [of name] by (cases "name = ''helper''") simp_all
  qed
  with wr r show ?thesis by simp
qed

text \<open>
  The claim as stated accepts a missing input file. \<open>readCost\<close> returns false for an
  input path with no file behind it, and the pass stops there.
\<close>

theorem writeCost_readCost_round_trip_counterexample:
  "readCost 3 ''lib.cost'' Map.empty [''memcpy'' \<mapsto> CONST_C 10]
     = Some (Inr (False, [''memcpy'' \<mapsto> CONST_C 10]))"
  by (simp add: readCost_def)


subsection \<open>The scalar-evolution bridge\<close>

text \<open>
  The loops of \<open>costToSCEV\<close> over operands that all converted to an expression other than
  \<open>CouldNotCompute\<close>, and the round trip by induction on the expression.
\<close>

lemma widestOf_converted:
  "scCouldNotCompute \<notin> set ss \<Longrightarrow>
   widestOf (Some w) (map (\<lambda>a. Some (Inr (Some a))) ss) = Inr (Some (Max (insert w (getType ` set ss))))"
proof (induction ss arbitrary: w)
  case Nil
  then show ?case by simp
next
  case (Cons a ss)
  let ?S = "getType ` set ss"
  have f: "finite ?S" by simp
  have m: "Max (insert (max w (getType a)) ?S) = Max (insert w (insert (getType a) ?S))"
  proof (cases "?S = {}")
    case True
    then show ?thesis by (simp add: max.commute)
  next
    case False
    then show ?thesis using f by (simp add: max.assoc max.commute max.left_commute)
  qed
  have n: "scCouldNotCompute \<notin> set ss" "a \<noteq> scCouldNotCompute" using Cons.prems by auto
  have w: "(if w \<noteq> getType a then getWiderType w (getType a) else w) = max w (getType a)"
    by (simp add: getWiderType_def max_def)
  have "widestOf (Some w) (map (\<lambda>a. Some (Inr (Some a))) (a # ss))
        = widestOf (Some (max w (getType a))) (map (\<lambda>a. Some (Inr (Some a))) ss)"
    using n(2) w by simp
  also have "\<dots> = Inr (Some (Max (insert (max w (getType a)) ?S)))"
    using Cons.IH [OF n(1)] .
  finally show ?case by (simp add: m)
qed


lemma widestOf_first:
  assumes "scCouldNotCompute \<notin> set ss" "ss \<noteq> []"
  shows "widestOf None (map (\<lambda>a. Some (Inr (Some a))) ss) = Inr (Some (Max (getType ` set ss)))"
proof -
  obtain a rest where ss: "ss = a # rest" using assms(2) by (cases ss) auto
  have n: "scCouldNotCompute \<notin> set rest" "a \<noteq> scCouldNotCompute" using assms(1) ss by auto
  have "widestOf None (map (\<lambda>a. Some (Inr (Some a))) ss)
        = widestOf (Some (getType a)) (map (\<lambda>a. Some (Inr (Some a))) rest)"
    using n(2) by (simp add: ss)
  also have "\<dots> = Inr (Some (Max (insert (getType a) (getType ` set rest))))"
    using widestOf_converted [OF n(1)] .
  finally show ?thesis by (simp add: ss)
qed

lemma widenAll_converted:
  "\<forall>a \<in> set ss. getType a \<le> W \<Longrightarrow>
   widenAll W (map (\<lambda>a. Some (Inr (Some a))) ss)
     = Inr (map (\<lambda>a. if getType a = W then a else scZeroExtend W a) ss)"
  by (induction ss) (auto simp: getZeroExtendExpr_def)

lemma getNAryExpr_same:
  assumes "2 \<le> length ops" "\<forall>a \<in> set ops. getType a = W"
  shows "getNAryExpr node ops = Inr (node ops)"
proof -
  obtain a b rest where ops: "ops = a # b # rest"
    using assms(1) by (cases ops; cases "tl ops") auto
  show ?thesis using assms(2) by (simp add: getNAryExpr_def ops list_all_iff)
qed

lemma Max_bound: "a \<in> set ss \<Longrightarrow> getType a \<le> Max (getType ` set ss)"
  by simp

lemma addOperands_converted:
  assumes "scCouldNotCompute \<notin> set ss" "2 \<le> length ss"
  shows "addOperands (map (\<lambda>a. Some (Inr (Some a))) ss)
         = Some (Inr (Some (scAddExpr
             (map (\<lambda>a. if getType a = Max (getType ` set ss) then a
                        else scZeroExtend (Max (getType ` set ss)) a) ss))))"
proof -
  let ?W = "Max (getType ` set ss)"
  let ?ops = "map (\<lambda>a. if getType a = ?W then a else scZeroExtend ?W a) ss"
  have ne: "ss \<noteq> []" using assms(2) by auto
  have w1: "widestOf None (map (\<lambda>a. Some (Inr (Some a))) ss) = Inr (Some ?W)"
    using widestOf_first [OF assms(1) ne] .
  have w2: "widenAll ?W (map (\<lambda>a. Some (Inr (Some a))) ss) = Inr ?ops"
    by (rule widenAll_converted) simp
  have len: "2 \<le> length ?ops" using assms(2) by simp
  have ty: "\<forall>a \<in> set ?ops. getType a = ?W" by auto
  have n: "getNAryExpr scAddExpr ?ops = Inr (scAddExpr ?ops)"
    using getNAryExpr_same [OF len ty] .
  show ?thesis using assms(2) by (simp add: addOperands_def w1 w2 n)
qed

lemma mulOperands_converted:
  assumes "scCouldNotCompute \<notin> set ss" "2 \<le> length ss"
  shows "mulOperands (map (\<lambda>a. Some (Inr (Some a))) ss)
         = Some (Inr (Some (scMulExpr
             (map (\<lambda>a. if getType a = Max (getType ` set ss) then a
                        else scZeroExtend (Max (getType ` set ss)) a) ss))))"
proof -
  let ?W = "Max (getType ` set ss)"
  let ?ops = "map (\<lambda>a. if getType a = ?W then a else scZeroExtend ?W a) ss"
  have ne: "ss \<noteq> []" using assms(2) by auto
  have w1: "widestOf None (map (\<lambda>a. Some (Inr (Some a))) ss) = Inr (Some ?W)"
    using widestOf_first [OF assms(1) ne] .
  have w2: "widenAll ?W (map (\<lambda>a. Some (Inr (Some a))) ss) = Inr ?ops"
    by (rule widenAll_converted) simp
  have len: "2 \<le> length ?ops" using assms(2) by simp
  have ty: "\<forall>a \<in> set ?ops. getType a = ?W" by auto
  have n: "getNAryExpr scMulExpr ?ops = Inr (scMulExpr ?ops)"
    using getNAryExpr_same [OF len ty] .
  show ?thesis by (simp add: mulOperands_def w1 w2 n)
qed

lemma sameTypeOperands_same:
  "scCouldNotCompute \<notin> set ss \<Longrightarrow> \<forall>a \<in> set ss. getType a = getType p \<Longrightarrow>
   sameTypeOperands (Some p) (map (\<lambda>a. Some (Inr (Some a))) ss) = Inr ss"
  by (induction ss) auto

lemma sameTypeOperands_differ:
  "scCouldNotCompute \<notin> set ss \<Longrightarrow> \<exists>a \<in> set ss. getType a \<noteq> getType p \<Longrightarrow>
   sameTypeOperands (Some p) (map (\<lambda>a. Some (Inr (Some a))) ss)
     = Inl (Some (Inr (Some scCouldNotCompute)))"
proof (induction ss)
  case Nil
  then show ?case by simp
next
  case (Cons a ss)
  show ?case
  proof (cases "getType p = getType a")
    case True
    with Cons.prems have "\<exists>a \<in> set ss. getType a \<noteq> getType p" by auto
    with Cons have "sameTypeOperands (Some p) (map (\<lambda>a. Some (Inr (Some a))) ss)
     = Inl (Some (Inr (Some scCouldNotCompute)))" by simp
    with True Cons.prems show ?thesis by simp
  next
    case False
    with Cons.prems show ?thesis by simp
  qed
qed

lemma minMaxOperands_converted:
  assumes "scCouldNotCompute \<notin> set ss" "2 \<le> length ss"
  shows "minMaxOperands node (map (\<lambda>a. Some (Inr (Some a))) ss)
         = Some (Inr (Some (if \<forall>a \<in> set ss. getType a = getType (hd ss) then node ss
                            else scCouldNotCompute)))"
proof -
  obtain p rest where ss: "ss = p # rest" using assms(2) by (cases ss) auto
  have n: "scCouldNotCompute \<notin> set rest" "p \<noteq> scCouldNotCompute" using assms(1) ss by auto
  have first: "sameTypeOperands None (map (\<lambda>a. Some (Inr (Some a))) ss)
        = (case sameTypeOperands (Some p) (map (\<lambda>a. Some (Inr (Some a))) rest) of
             Inl x \<Rightarrow> Inl x | Inr ops \<Rightarrow> Inr (p # ops))"
    using n(2) by (simp add: ss)
  show ?thesis
  proof (cases "\<forall>a \<in> set rest. getType a = getType p")
    case True
    then have all: "\<forall>a \<in> set ss. getType a = getType (hd ss)" by (simp add: ss)
    have "sameTypeOperands None (map (\<lambda>a. Some (Inr (Some a))) ss) = Inr ss"
      using first sameTypeOperands_same [OF n(1) True] by (simp add: ss)
    moreover have "getNAryExpr node ss = Inr (node ss)"
      using getNAryExpr_same [OF assms(2), of "getType (hd ss)" node] all by simp
    ultimately show ?thesis using all by (simp add: minMaxOperands_def)
  next
    case False
    then have ex: "\<exists>a \<in> set rest. getType a \<noteq> getType p" by simp
    then have nall: "\<not> (\<forall>a \<in> set ss. getType a = getType (hd ss))" by (simp add: ss)
    have "sameTypeOperands None (map (\<lambda>a. Some (Inr (Some a))) ss)
          = Inl (Some (Inr (Some scCouldNotCompute)))"
      using first sameTypeOperands_differ [OF n(1) ex] by simp
    then show ?thesis using nall by (auto simp: minMaxOperands_def)
  qed
qed


lemma converted_list:
  assumes "\<forall>x \<in> set ops. \<exists>s'. costToSCEV fuel t (scevToCost x) args = Some (Inr (Some s')) \<and>
             unwiden s' = unwiden x \<and> s' \<noteq> scCouldNotCompute"
  shows "\<exists>ss. map (\<lambda>op. costToSCEV fuel t op args) (map scevToCost ops)
                 = map (\<lambda>a. Some (Inr (Some a))) ss \<and>
              map unwiden ss = map unwiden ops \<and> scCouldNotCompute \<notin> set ss \<and>
              length ss = length ops"
  using assms
proof (induction ops)
  case Nil
  then show ?case by simp
next
  case (Cons x ops)
  then obtain s' where s': "costToSCEV fuel t (scevToCost x) args = Some (Inr (Some s'))"
    "unwiden s' = unwiden x" "s' \<noteq> scCouldNotCompute" by auto
  from Cons obtain ss where ss: "map (\<lambda>op. costToSCEV fuel t op args) (map scevToCost ops)
                 = map (\<lambda>a. Some (Inr (Some a))) ss"
    "map unwiden ss = map unwiden ops" "scCouldNotCompute \<notin> set ss" "length ss = length ops"
    by auto
  show ?case
    by (rule exI [of _ "s' # ss"]) (use s' ss in simp)
qed

lemma unwiden_widened:
  "map (unwiden \<circ> (\<lambda>a. if getType a = W then a else scZeroExtend W a)) ss = map unwiden ss"
  by (induction ss) auto

lemma costToSCEV_round_trip:
  "sumsAndProducts args s \<Longrightarrow>
   \<exists>s'. costToSCEV fuel t (scevToCost s) args = Some (Inr (Some s')) \<and>
        unwiden s' = unwiden s \<and> s' \<noteq> scCouldNotCompute"
proof (induction s)
  case (scConstant w v)
  then show ?case by (simp add: to_int_id)
next
  case (scUnknown v)
  then show ?case by (cases v) auto
next
  case (scZeroExtend w a)
  then obtain s' where s': "costToSCEV fuel t (scevToCost a) args = Some (Inr (Some s'))"
    "unwiden s' = unwiden a" "s' \<noteq> scCouldNotCompute" by auto
  show ?case
    by (cases "getType s' < w") (simp_all add: s' castOperand_def getZeroExtendExpr_def)
next
  case (scAddExpr ops)
  then have len: "2 \<le> length ops" and all: "\<forall>x \<in> set ops. sumsAndProducts args x"
    by (simp_all add: list_all_iff)
  from converted_list [of ops fuel t args] scAddExpr.IH all
  obtain ss where ss: "map (\<lambda>op. costToSCEV fuel t op args) (map scevToCost ops)
                 = map (\<lambda>a. Some (Inr (Some a))) ss"
    "map unwiden ss = map unwiden ops" "scCouldNotCompute \<notin> set ss" "length ss = length ops"
    by blast
  have l2: "2 \<le> length ss" using len ss(4) by simp
  show ?case
    using addOperands_converted [OF ss(3) l2] ss(1,2)
    by (simp add: unwiden_widened)
next
  case (scMulExpr ops)
  then have len: "2 \<le> length ops" and all: "\<forall>x \<in> set ops. sumsAndProducts args x"
    by (simp_all add: list_all_iff)
  from converted_list [of ops fuel t args] scMulExpr.IH all
  obtain ss where ss: "map (\<lambda>op. costToSCEV fuel t op args) (map scevToCost ops)
                 = map (\<lambda>a. Some (Inr (Some a))) ss"
    "map unwiden ss = map unwiden ops" "scCouldNotCompute \<notin> set ss" "length ss = length ops"
    by blast
  have l2: "2 \<le> length ss" using len ss(4) by simp
  show ?case
    using mulOperands_converted [OF ss(3) l2] ss(1,2)
    by (simp add: unwiden_widened)
qed simp_all


text \<open>
  Claim C9, as the code has it. For an expression built from constants of at most 64
  bits whose value is an \<open>int\<close>, arguments bound to themselves, sums, products and zero
  extensions, \<open>costToSCEV\<close> of \<open>scevToCost\<close> returns an expression that equals the
  original once zero extensions are dropped and constant widths forgotten. When the
  operands of an nary cost, two or more, all convert to expressions other than
  \<open>CouldNotCompute\<close>, \<open>costToSCEV\<close> zero-extends those narrower than the widest effective
  type to it for \<open>ADD\<close> and \<open>MUL\<close>; for \<open>SMAX\<close>, \<open>SMIN\<close>, \<open>UMAX\<close> and \<open>UMIN\<close> it widens
  nothing and returns \<open>CouldNotCompute\<close> as soon as an operand has another effective type
  than the first. \<open>scevToCost\<close> maps an add recurrence to \<open>UNKNOWN\<close>, which converts
  to \<open>CouldNotCompute\<close>; a constant converts to a 64-bit constant.
\<close>

theorem costToSCEV_scevToCost_round_trip:
  "(sumsAndProducts args s \<longrightarrow>
      (\<exists>s'. costToSCEV fuel t (scevToCost s) args = Some (Inr (Some s')) \<and>
            unwiden s' = unwiden s)) \<and>
   (map (\<lambda>op. costToSCEV fuel t op args) ops = map (\<lambda>a. Some (Inr (Some a))) ss \<and>
    scCouldNotCompute \<notin> set ss \<and> 2 \<le> length ss \<longrightarrow>
      costToSCEV fuel t (ADD ops) args =
        Some (Inr (Some (scAddExpr
          (map (\<lambda>a. if getType a = Max (getType ` set ss) then a
                     else scZeroExtend (Max (getType ` set ss)) a) ss)))) \<and>
      costToSCEV fuel t (MUL ops) args =
        Some (Inr (Some (scMulExpr
          (map (\<lambda>a. if getType a = Max (getType ` set ss) then a
                     else scZeroExtend (Max (getType ` set ss)) a) ss)))) \<and>
      costToSCEV fuel t (SMAX ops) args =
        Some (Inr (Some (if \<forall>a \<in> set ss. getType a = getType (hd ss) then scSMaxExpr ss
                         else scCouldNotCompute))) \<and>
      costToSCEV fuel t (SMIN ops) args =
        Some (Inr (Some (if \<forall>a \<in> set ss. getType a = getType (hd ss) then scSMinExpr ss
                         else scCouldNotCompute))) \<and>
      costToSCEV fuel t (UMAX ops) args =
        Some (Inr (Some (if \<forall>a \<in> set ss. getType a = getType (hd ss) then scUMaxExpr ss
                         else scCouldNotCompute))) \<and>
      costToSCEV fuel t (UMIN ops) args =
        Some (Inr (Some (if \<forall>a \<in> set ss. getType a = getType (hd ss) then scUMinExpr ss
                         else scCouldNotCompute)))) \<and>
   scevToCost (scAddRecExpr ss) = UNKNOWN \<and>
   costToSCEV fuel t UNKNOWN args = Some (Inr (Some scCouldNotCompute)) \<and>
   costToSCEV fuel t (CONST_C v) args = Some (Inr (Some (scConstant 64 v)))"
proof -
  have a: "sumsAndProducts args s \<longrightarrow>
      (\<exists>s'. costToSCEV fuel t (scevToCost s) args = Some (Inr (Some s')) \<and>
            unwiden s' = unwiden s)"
    using costToSCEV_round_trip [of args s fuel t] by blast
  have b: "map (\<lambda>op. costToSCEV fuel t op args) ops = map (\<lambda>a. Some (Inr (Some a))) ss \<and>
    scCouldNotCompute \<notin> set ss \<and> 2 \<le> length ss \<longrightarrow>
      costToSCEV fuel t (ADD ops) args =
        Some (Inr (Some (scAddExpr
          (map (\<lambda>a. if getType a = Max (getType ` set ss) then a
                     else scZeroExtend (Max (getType ` set ss)) a) ss)))) \<and>
      costToSCEV fuel t (MUL ops) args =
        Some (Inr (Some (scMulExpr
          (map (\<lambda>a. if getType a = Max (getType ` set ss) then a
                     else scZeroExtend (Max (getType ` set ss)) a) ss)))) \<and>
      costToSCEV fuel t (SMAX ops) args =
        Some (Inr (Some (if \<forall>a \<in> set ss. getType a = getType (hd ss) then scSMaxExpr ss
                         else scCouldNotCompute))) \<and>
      costToSCEV fuel t (SMIN ops) args =
        Some (Inr (Some (if \<forall>a \<in> set ss. getType a = getType (hd ss) then scSMinExpr ss
                         else scCouldNotCompute))) \<and>
      costToSCEV fuel t (UMAX ops) args =
        Some (Inr (Some (if \<forall>a \<in> set ss. getType a = getType (hd ss) then scUMaxExpr ss
                         else scCouldNotCompute))) \<and>
      costToSCEV fuel t (UMIN ops) args =
        Some (Inr (Some (if \<forall>a \<in> set ss. getType a = getType (hd ss) then scUMinExpr ss
                         else scCouldNotCompute)))"
  proof (intro impI, elim conjE)
    assume m: "map (\<lambda>op. costToSCEV fuel t op args) ops = map (\<lambda>a. Some (Inr (Some a))) ss"
      and n: "scCouldNotCompute \<notin> set ss" and l: "2 \<le> length ss"
    show "costToSCEV fuel t (ADD ops) args =
        Some (Inr (Some (scAddExpr
          (map (\<lambda>a. if getType a = Max (getType ` set ss) then a
                     else scZeroExtend (Max (getType ` set ss)) a) ss)))) \<and>
      costToSCEV fuel t (MUL ops) args =
        Some (Inr (Some (scMulExpr
          (map (\<lambda>a. if getType a = Max (getType ` set ss) then a
                     else scZeroExtend (Max (getType ` set ss)) a) ss)))) \<and>
      costToSCEV fuel t (SMAX ops) args =
        Some (Inr (Some (if \<forall>a \<in> set ss. getType a = getType (hd ss) then scSMaxExpr ss
                         else scCouldNotCompute))) \<and>
      costToSCEV fuel t (SMIN ops) args =
        Some (Inr (Some (if \<forall>a \<in> set ss. getType a = getType (hd ss) then scSMinExpr ss
                         else scCouldNotCompute))) \<and>
      costToSCEV fuel t (UMAX ops) args =
        Some (Inr (Some (if \<forall>a \<in> set ss. getType a = getType (hd ss) then scUMaxExpr ss
                         else scCouldNotCompute))) \<and>
      costToSCEV fuel t (UMIN ops) args =
        Some (Inr (Some (if \<forall>a \<in> set ss. getType a = getType (hd ss) then scUMinExpr ss
                         else scCouldNotCompute)))"
      by (simp only: costToSCEV.simps m addOperands_converted [OF n l]
          mulOperands_converted [OF n l] minMaxOperands_converted [OF n l])
  qed
  have c: "scevToCost (scAddRecExpr ss) = UNKNOWN"
    "costToSCEV fuel t UNKNOWN args = Some (Inr (Some scCouldNotCompute))"
    "costToSCEV fuel t (CONST_C v) args = Some (Inr (Some (scConstant 64 v)))"
    by simp_all
  show ?thesis using a b c by blast
qed

text \<open>
  The theorem at \<open>5 + arg0\<close> in 32 bits: the constant comes back in 64 bits and the
  argument zero-extended to 64 bits.
\<close>

theorem costToSCEV_scevToCost_round_trip_witness:
  "sumsAndProducts [Some (scUnknown (Argument 0 32))]
     (scAddExpr [scConstant 32 5, scUnknown (Argument 0 32)]) \<and>
   costToSCEV 0 example_tables (scevToCost (scAddExpr [scConstant 32 5, scUnknown (Argument 0 32)]))
       [Some (scUnknown (Argument 0 32))] =
     Some (Inr (Some (scAddExpr [scConstant 64 5, scZeroExtend 64 (scUnknown (Argument 0 32))]))) \<and>
   unwiden (scAddExpr [scConstant 64 5, scZeroExtend 64 (scUnknown (Argument 0 32))]) =
     unwiden (scAddExpr [scConstant 32 5, scUnknown (Argument 0 32)])"
proof -
  let ?args = "[Some (scUnknown (Argument 0 32))]"
  let ?s = "scAddExpr [scConstant 32 5, scUnknown (Argument 0 32)]"
  let ?ss = "[scConstant 64 5, scUnknown (Argument 0 32)]"
  note T = costToSCEV_scevToCost_round_trip [of ?args ?s 0 example_tables "[CONST_C 5, ARG 0]" ?ss]
  have h: "sumsAndProducts ?args ?s" by simp
  have c: "scevToCost ?s = ADD [CONST_C 5, ARG 0]" by (simp add: to_int_id)
  have m: "map (\<lambda>op. costToSCEV 0 example_tables op ?args) [CONST_C 5, ARG 0]
           = map (\<lambda>a. Some (Inr (Some a))) ?ss \<and>
           scCouldNotCompute \<notin> set ?ss \<and> 2 \<le> length ?ss"
    by simp
  have w: "Max (getType ` set ?ss) = 64" by simp
  from T m have r: "costToSCEV 0 example_tables (ADD [CONST_C 5, ARG 0]) ?args =
     Some (Inr (Some (scAddExpr [scConstant 64 5, scZeroExtend 64 (scUnknown (Argument 0 32))])))"
    unfolding w by simp
  from T h obtain s' where s': "costToSCEV 0 example_tables (scevToCost ?s) ?args = Some (Inr (Some s'))"
    "unwiden s' = unwiden ?s" by blast
  from s'(1) r c have "s' = scAddExpr [scConstant 64 5, scZeroExtend 64 (scUnknown (Argument 0 32))]"
    by simp
  with s'(2) h r c show ?thesis by simp
qed

text \<open>
  The claim as stated widens the operands of a maximum and has the round trip hold for it.
  \<open>5 smax arg0\<close> in 32 bits converts to \<open>SMAX [CONST 5, ARG 0]\<close>, and back to
  \<open>CouldNotCompute\<close>: the constant is 64 bits wide, the argument 32.
\<close>

theorem costToSCEV_scevToCost_round_trip_counterexample:
  "scevToCost (scSMaxExpr [scConstant 32 5, scUnknown (Argument 0 32)]) = SMAX [CONST_C 5, ARG 0] \<and>
   costToSCEV 0 example_tables (SMAX [CONST_C 5, ARG 0]) [Some (scUnknown (Argument 0 32))] =
     Some (Inr (Some scCouldNotCompute)) \<and>
   unwiden scCouldNotCompute \<noteq> unwiden (scSMaxExpr [scConstant 32 5, scUnknown (Argument 0 32)])"
  by (simp add: to_int_id minMaxOperands_def)


subsection \<open>Rule 2: the branch container\<close>



























end
